theory Spec2Isabelle
  imports Main "HOL-Library.AList" "HOL-Library.Multiset"
begin

section \<open>Pin-control generator of hal\_silabs: \<open>script/gen_pinctrl.py\<close>\<close>

text \<open>
  The script builds one nested dictionary \<open>peripherals\<close> from the register documents (SVD)
  and the routing documents (Pin Tool) of every variant of a family, and renders it as a
  header of preprocessor definitions. The embedding follows the script function by function.

  Python dictionaries keep their keys in insertion order, and the header is written in that
  order, so a dictionary is an association list here: \<open>map_of\<close> is the lookup,
  \<open>AList.update\<close> is the assignment \<open>d[k] = v\<close> (in place for an existing key, at the end
  for a new one). Every subscript \<open>d[k]\<close> of the source is a lookup with its \<open>KeyError\<close>
  branch.

  Downloading and unpacking the archives and parsing the files are outside the embedding:
  the functions take the parsed documents. Of what the program prints, the warnings of
  \<open>write_header\<close> are part of its result; the progress lines of \<open>parse_svd\<close> and
  \<open>parse_pin_tool\<close> and the warning of \<open>parse_pin_tool\<close> for a signal without a selector
  are not kept.
\<close>

subsection \<open>Exceptions\<close>

datatype error =
  StopIteration | ValueError | TypeError | KeyError | OverflowError | UnicodeEncodeError

text \<open>A \<open>for\<close> loop over a list that updates a state and stops at the first exception.\<close>

fun for_loop :: "('s \<Rightarrow> 'a \<Rightarrow> error + 's) \<Rightarrow> 's \<Rightarrow> 'a list \<Rightarrow> error + 's" where
  "for_loop f s [] = Inr s"
| "for_loop f s (x # xs) = (case f s x of Inl e \<Rightarrow> Inl e | Inr s' \<Rightarrow> for_loop f s' xs)"

subsection \<open>The model: \<open>peripherals\<close>\<close>

text \<open>
  The innermost dictionary \<open>data\<close> of a signal has at most the keys \<open>"en"\<close>, \<open>"route"\<close> and
  \<open>"pinout"\<close>; a key that is absent is \<open>None\<close>. The pinout is a dictionary from the port to the
  \<open>set\<close> of its pins.

  The dictionary of a peripheral holds the key \<open>"_base"\<close> (an integer, written when the
  dictionary is created and never again) and one key for each signal. The record keeps the
  two apart: \<open>base\<close> is the value under \<open>"_base"\<close>, \<open>signals\<close> are the other keys in insertion
  order. The loops of the source that skip the key \<open>"_base"\<close> are the loops over \<open>signals\<close>;
  a signal that is itself called \<open>_base\<close> meets the integer, see \<open>enable_field\<close>.
\<close>

type_synonym pinout_dict = "(int \<times> int set) list"

record signal =
  en :: "int option"
  route :: "int option"
  pinout :: "pinout_dict option"

record peripheral =
  base :: int
  signals :: "(string \<times> signal) list"

type_synonym peripherals = "(string \<times> peripheral) list"

definition empty_signal :: signal where
  "empty_signal = \<lparr>en = None, route = None, pinout = None\<rparr>"

subsection \<open>Rename tables\<close>

definition peripheral_rename_map :: "(string \<times> string) list" where
  "peripheral_rename_map =
    [(''FRC'', ''PTI''), (''LETIMER'', ''LETIMER0''), (''SYXO0'', ''HFXO0'')]"

definition signal_rename_map :: "(string \<times> string) list" where
  "signal_rename_map =
    [(''CCC0'', ''CDTI0''), (''CCC1'', ''CDTI1''), (''CCC2'', ''CDTI2''), (''CCC3'', ''CDTI3'')]"

definition pt_signal_rename_map :: "(string \<times> string) list" where
  "pt_signal_rename_map =
    [(''ACMPOUT'', ''DIGOUT''),
     (''COLOUT0'', ''COL_OUT_0''), (''COLOUT1'', ''COL_OUT_1''), (''COLOUT2'', ''COL_OUT_2''),
     (''COLOUT3'', ''COL_OUT_3''), (''COLOUT4'', ''COL_OUT_4''), (''COLOUT5'', ''COL_OUT_5''),
     (''COLOUT6'', ''COL_OUT_6''), (''COLOUT7'', ''COL_OUT_7''),
     (''ROWSENSE0'', ''ROW_SENSE_0''), (''ROWSENSE1'', ''ROW_SENSE_1''),
     (''ROWSENSE2'', ''ROW_SENSE_2''), (''ROWSENSE3'', ''ROW_SENSE_3''),
     (''ROWSENSE4'', ''ROW_SENSE_4''), (''ROWSENSE5'', ''ROW_SENSE_5''),
     (''ANTROLLOVER'', ''ANT_ROLL_OVER''),
     (''ANTRR0'', ''ANT_RR0''), (''ANTRR1'', ''ANT_RR1''), (''ANTRR2'', ''ANT_RR2''),
     (''ANTRR3'', ''ANT_RR3''), (''ANTRR4'', ''ANT_RR4''), (''ANTRR5'', ''ANT_RR5''),
     (''ANTSWEN'', ''ANT_SW_EN''), (''ANTSWUS'', ''ANT_SW_US''), (''ANTTRIG'', ''ANT_TRIG''),
     (''ANTTRIGSTOP'', ''ANT_TRIG_STOP''),
     (''BUFOUTREQINASYNC'', ''BUFOUT_REQ_IN_ASYNC''),
     (''USBVBUSSENSE'', ''USB_VBUS_SENSE'')]"

text \<open>\<open>if name in table: name = table[name]\<close>\<close>

definition rename :: "(string \<times> string) list \<Rightarrow> string \<Rightarrow> string" where
  "rename table name = (case map_of table name of Some name' \<Rightarrow> name' | None \<Rightarrow> name)"

subsection \<open>String operations of the source\<close>

text \<open>
  A string is the list of the bytes of the UTF-8 form of the Python string; a name in
  ASCII has one byte for each character. The source cuts and compares strings at ASCII
  text only (a suffix it has tested for, the first underscore), where bytes and
  characters agree. \<open>endswith\<close> is \<open>str.endswith\<close>, \<open>chop n\<close> is the
  slice \<open>s[:-n]\<close> for a positive \<open>n\<close> (the empty string when \<open>s\<close> is shorter than \<open>n\<close>), and
  \<open>split1 c\<close> is \<open>s.split(c, 1)\<close> for a separator of one character: one part when the
  separator does not occur, two parts around its first occurrence otherwise.
\<close>

definition endswith :: "string \<Rightarrow> string \<Rightarrow> bool" where
  "endswith s suffix \<longleftrightarrow>
     length suffix \<le> length s \<and> drop (length s - length suffix) s = suffix"

definition chop :: "nat \<Rightarrow> string \<Rightarrow> string" where
  "chop n s = take (length s - n) s"

definition split1 :: "char \<Rightarrow> string \<Rightarrow> string list" where
  "split1 c s =
     (case dropWhile (\<lambda>x. x \<noteq> c) s of
        [] \<Rightarrow> [s]
      | _ # rest \<Rightarrow> [takeWhile (\<lambda>x. x \<noteq> c) s, rest])"

subsection \<open>Register documents and \<open>parse_svd\<close>\<close>

text \<open>
  What \<open>parse_svd\<close> reads of a parsed SVD file: the peripherals of the device, each with its
  name and registers; of a register its name, its byte offset and its fields; of a field
  its name and bit offset.
\<close>

record svd_field =
  field_name :: string
  bit_offset :: int

record svd_register =
  reg_name :: string
  address_offset :: int
  reg_fields :: "svd_field list"

record svd_peripheral =
  periph_name :: string
  registers :: "svd_register list"

type_synonym svd_device = "svd_peripheral list"

text \<open>\<open>if peripheral not in peripherals: peripherals[peripheral] = {"_base": offset // 4}\<close>\<close>

definition ensure_peripheral :: "string \<Rightarrow> int \<Rightarrow> peripherals \<Rightarrow> peripherals" where
  "ensure_peripheral p offset ps =
     (if map_of ps p = None
      then AList.update p \<lparr>base = offset div 4, signals = []\<rparr> ps
      else ps)"

text \<open>\<open>if signal not in peripherals[peripheral]: peripherals[peripheral][signal] = {}\<close>\<close>

definition ensure_signal :: "string \<Rightarrow> (string \<times> signal) list \<Rightarrow> (string \<times> signal) list" where
  "ensure_signal sg sigs =
     (if map_of sigs sg = None then AList.update sg empty_signal sigs else sigs)"

text \<open>
  The body of the loop over the fields of a \<open>_ROUTEEN\<close> register (lines 163 to 170). For a
  signal called \<open>_base\<close> the test \<open>signal not in peripherals[peripheral]\<close> is false, and
  \<open>"en" not in peripherals[peripheral][signal]\<close> asks for membership in an integer, which
  raises \<open>TypeError\<close>.
\<close>

definition enable_field :: "string \<Rightarrow> peripherals \<Rightarrow> svd_field \<Rightarrow> error + peripherals" where
  "enable_field p ps f =
     (if endswith (field_name f) ''PEN'' then
        (let sg = rename signal_rename_map (chop 3 (field_name f)) in
         case map_of ps p of
           None \<Rightarrow> Inl KeyError
         | Some per \<Rightarrow>
             if sg = ''_base'' then Inl TypeError
             else
               (let sigs = ensure_signal sg (signals per) in
                case map_of sigs sg of
                  None \<Rightarrow> Inl KeyError
                | Some d \<Rightarrow>
                    Inr (AList.update p
                          (per\<lparr>signals :=
                             (if en d = None
                              then AList.update sg (d\<lparr>en := Some (bit_offset f)\<rparr>) sigs
                              else sigs)\<rparr>) ps)))
      else Inr ps)"

text \<open>The branch of a register whose name ends in \<open>_ROUTEEN\<close> (lines 156 to 170).\<close>

definition enable_register :: "peripherals \<Rightarrow> svd_register \<Rightarrow> error + peripherals" where
  "enable_register ps reg =
     (let p = rename peripheral_rename_map (chop 8 (reg_name reg)) in
      for_loop (enable_field p) (ensure_peripheral p (address_offset reg) ps) (reg_fields reg))"

text \<open>
  The branch of a register whose name ends in \<open>ROUTE\<close> (lines 173 to 185). The assignment
  \<open>peripheral, signal = reg.name.split("_", 1)\<close> raises \<open>ValueError\<close> unless the split gives
  two parts.
\<close>

definition route_register :: "peripherals \<Rightarrow> svd_register \<Rightarrow> error + peripherals" where
  "route_register ps reg =
     (case split1 (CHR ''_'') (reg_name reg) of
        [p0, s0] \<Rightarrow>
          (let p = rename peripheral_rename_map p0;
               sg = rename signal_rename_map (chop 5 s0);
               ps1 = ensure_peripheral p (address_offset reg) ps
           in case map_of ps1 p of
                None \<Rightarrow> Inl KeyError
              | Some per \<Rightarrow>
                  if sg = ''_base'' then Inl TypeError
                  else
                    (let sigs = ensure_signal sg (signals per) in
                     case map_of sigs sg of
                       None \<Rightarrow> Inl KeyError
                     | Some d \<Rightarrow>
                         Inr (AList.update p
                               (per\<lparr>signals :=
                                  (if route d = None
                                   then AList.update sg
                                          (d\<lparr>route := Some (address_offset reg div 4 - base per)\<rparr>)
                                          sigs
                                   else sigs)\<rparr>) ps1)))
      | _ \<Rightarrow> Inl ValueError)"

text \<open>The body of the loop over the registers: the two \<open>if\<close> statements, one after the other.\<close>

definition svd_register_step :: "peripherals \<Rightarrow> svd_register \<Rightarrow> error + peripherals" where
  "svd_register_step ps reg =
     (case (if endswith (reg_name reg) ''_ROUTEEN'' then enable_register ps reg else Inr ps) of
        Inl e \<Rightarrow> Inl e
      | Inr ps1 \<Rightarrow>
          if endswith (reg_name reg) ''ROUTE'' then route_register ps1 reg else Inr ps1)"

text \<open>
  One SVD file: \<open>next(filter(...))\<close> takes the first peripheral called \<open>GPIO_NS\<close> and raises
  \<open>StopIteration\<close> when there is none.
\<close>

definition parse_svd_file :: "peripherals \<Rightarrow> svd_device \<Rightarrow> error + peripherals" where
  "parse_svd_file ps dev =
     (case find (\<lambda>p. periph_name p = ''GPIO_NS'') dev of
        None \<Rightarrow> Inl StopIteration
      | Some gpio \<Rightarrow> for_loop svd_register_step ps (registers gpio))"

text \<open>\<open>parse_svd\<close>: the SVD files of one variant, in the order the directory listing gives.\<close>

definition parse_svd :: "peripherals \<Rightarrow> svd_device list \<Rightarrow> error + peripherals" where
  "parse_svd ps devs = for_loop parse_svd_file ps devs"

subsection \<open>Routing documents and \<open>parse_pin_tool\<close>\<close>

text \<open>
  What \<open>parse_pin_tool\<close> reads of a parsed \<open>PORTIO.portio\<close> file: the \<open>module\<close> elements
  under \<open>portIo/pinRoutes\<close> in document order, each with its \<open>name\<close> attribute and its
  \<open>selector\<close> children; of a selector its \<open>name\<close> and its \<open>route\<close> children; of a route its
  \<open>name\<close> and its \<open>location\<close> children. The attributes \<open>portBankIndex\<close> and \<open>pinIndex\<close> of a
  location go through \<open>int(loc.attrib[...])\<close>: an attribute is absent (\<open>KeyError\<close>), is not
  the text of an integer (\<open>ValueError\<close>), or has the value \<open>int\<close> returns.
\<close>

datatype attr = Absent | NotInt | IntVal int

fun attr_int :: "attr \<Rightarrow> error + int" where
  "attr_int Absent = Inl KeyError"
| "attr_int NotInt = Inl ValueError"
| "attr_int (IntVal i) = Inr i"

record location =
  portBankIndex :: attr
  pinIndex :: attr

record pt_route =
  route_name :: string
  locations :: "location list"

record pt_selector =
  selector_name :: string
  routes :: "pt_route list"

record pt_module =
  mod_name :: string
  selectors :: "pt_selector list"

type_synonym portio = "pt_module list"

text \<open>
  The two XPath queries, with the names already put in:
  \<open>portIo/pinRoutes/module[@name=m]/selector[@name=s]\<close> from the root and
  \<open>route[@name=r]/location\<close> from a selector. Both give their nodes in document order.
  The source builds the queries by putting the names between double quotes; names are taken
  to have no double quote, so that each query is the comparison of the attribute it reads.
\<close>

definition xpath_selectors :: "portio \<Rightarrow> string \<Rightarrow> string \<Rightarrow> pt_selector list" where
  "xpath_selectors tree m s =
     concat (map (\<lambda>mo. filter (\<lambda>se. selector_name se = s) (selectors mo))
                 (filter (\<lambda>mo. mod_name mo = m) tree))"

definition xpath_locations :: "pt_selector \<Rightarrow> string \<Rightarrow> location list" where
  "xpath_locations node r =
     concat (map locations (filter (\<lambda>ro. route_name ro = r) (routes node)))"

text \<open>The body of the loop over the locations (lines 216 to 220).\<close>

definition add_location :: "pinout_dict \<Rightarrow> location \<Rightarrow> error + pinout_dict" where
  "add_location po loc =
     (case attr_int (portBankIndex loc) of
        Inl e \<Rightarrow> Inl e
      | Inr port \<Rightarrow>
          (case attr_int (pinIndex loc) of
             Inl e \<Rightarrow> Inl e
           | Inr pin \<Rightarrow>
               (let po1 = (if map_of po port = None then AList.update port {} po else po) in
                case map_of po1 port of
                  None \<Rightarrow> Inl KeyError
                | Some pins \<Rightarrow> Inr (AList.update port (insert pin pins) po1))))"

text \<open>
  The body of the loop over the signals (lines 199 to 224). The loop over the selectors that
  the query finds ends with \<open>break\<close> after its first round, so only the first selector is
  read; when there is none, the \<open>else\<close> of the loop prints a warning and the pinout stays
  as it is. The key \<open>"pinout"\<close> is there afterwards in every case.
\<close>

definition pin_tool_signal :: "portio \<Rightarrow> string \<Rightarrow> string \<Rightarrow> signal \<Rightarrow> error + signal" where
  "pin_tool_signal tree p sg d =
     (let pt_signal = rename pt_signal_rename_map sg;
          pt_peripheral = (if p = ''PRS0'' then ''PRS.'' @ sg else p);
          pt_signal_prefix = (if p = ''PRS0'' then ''PRS'' else p);
          po = (case pinout d of None \<Rightarrow> [] | Some po \<Rightarrow> po)
      in case xpath_selectors tree pt_peripheral (pt_signal_prefix @ ''_'' @ pt_signal) of
           [] \<Rightarrow> Inr (d\<lparr>pinout := Some po\<rparr>)
         | node # _ \<Rightarrow>
             (case for_loop add_location po (xpath_locations node pt_signal) of
                Inl e \<Rightarrow> Inl e
              | Inr po' \<Rightarrow> Inr (d\<lparr>pinout := Some po'\<rparr>)))"

text \<open>
  A \<open>for\<close> loop over the items of a dictionary whose body changes the value of the item in
  place: the keys and their order stay.
\<close>

fun for_items :: "('k \<Rightarrow> 'v \<Rightarrow> error + 'v) \<Rightarrow> ('k \<times> 'v) list \<Rightarrow> error + ('k \<times> 'v) list" where
  "for_items f [] = Inr []"
| "for_items f ((k, v) # kvs) =
     (case f k v of
        Inl e \<Rightarrow> Inl e
      | Inr v' \<Rightarrow> (case for_items f kvs of Inl e \<Rightarrow> Inl e | Inr kvs' \<Rightarrow> Inr ((k, v') # kvs')))"

text \<open>One routing document: the loops over the peripherals and their signals.\<close>

definition pin_tool_peripheral :: "portio \<Rightarrow> string \<Rightarrow> peripheral \<Rightarrow> error + peripheral" where
  "pin_tool_peripheral tree p per =
     (case for_items (pin_tool_signal tree p) (signals per) of
        Inl e \<Rightarrow> Inl e
      | Inr sigs \<Rightarrow> Inr (per\<lparr>signals := sigs\<rparr>))"

definition parse_pin_tool_file :: "peripherals \<Rightarrow> portio \<Rightarrow> error + peripherals" where
  "parse_pin_tool_file ps tree = for_items (pin_tool_peripheral tree) ps"

text \<open>\<open>parse_pin_tool\<close>: the routing documents of one variant, in the order of the listing.\<close>

definition parse_pin_tool :: "peripherals \<Rightarrow> portio list \<Rightarrow> error + peripherals" where
  "parse_pin_tool ps trees = for_loop parse_pin_tool_file ps trees"

subsection \<open>\<open>write_header\<close>\<close>

text \<open>
  \<open>str_int\<close> is the decimal text of an integer, as an f-string writes it. \<open>chr_py\<close> is
  \<open>chr\<close>: \<open>OverflowError\<close> for an argument that does not fit a C \<open>int\<close> of 32 bits,
  \<open>ValueError\<close> for any other argument outside the range of code points; a code point
  below 128 is one character, a higher one is written as the bytes of its UTF-8 form.
\<close>

fun str_nat :: "nat \<Rightarrow> string" where
  "str_nat n =
     (if n < 10 then [''0123456789'' ! n]
      else str_nat (n div 10) @ [''0123456789'' ! (n mod 10)])"

declare str_nat.simps [simp del]

definition str_int :: "int \<Rightarrow> string" where
  "str_int i = (if i < 0 then CHR ''-'' # str_nat (nat (- i)) else str_nat (nat i))"

definition utf8 :: "nat \<Rightarrow> string" where
  "utf8 n =
     (if n < 0x80 then [char_of n]
      else if n < 0x800 then [char_of (0xC0 + n div 0x40), char_of (0x80 + n mod 0x40)]
      else if n < 0x10000 then
        [char_of (0xE0 + n div 0x1000), char_of (0x80 + n div 0x40 mod 0x40),
         char_of (0x80 + n mod 0x40)]
      else
        [char_of (0xF0 + n div 0x40000), char_of (0x80 + n div 0x1000 mod 0x40),
         char_of (0x80 + n div 0x40 mod 0x40), char_of (0x80 + n mod 0x40)])"

definition chr_py :: "int \<Rightarrow> error + string" where
  "chr_py i =
     (if i < - 2147483648 \<or> 2147483647 < i then Inl OverflowError
      else if i < 0 \<or> 0x10FFFF < i then Inl ValueError
      else Inr (utf8 (nat i)))"

text \<open>The two f-strings of the definitions (lines 130 and 142) and the warning (line 132).\<close>

definition dbus_define :: "string \<Rightarrow> int \<Rightarrow> string \<Rightarrow> signal \<Rightarrow> int \<Rightarrow> string" where
  "dbus_define p b sg d r =
     ''#define SILABS_DBUS_'' @ p @ ''_'' @ sg @ ''(port, pin) SILABS_DBUS(port, pin, ''
       @ str_int b @ '', '' @ (if en d \<noteq> None then ''1'' else ''0'') @ '', ''
       @ str_int (case en d of Some e \<Rightarrow> e | None \<Rightarrow> 0) @ '', '' @ str_int r @ '')''"

definition pin_define :: "string \<Rightarrow> string \<Rightarrow> string \<Rightarrow> int \<Rightarrow> int \<Rightarrow> string" where
  "pin_define p sg letter port pin =
     ''#define '' @ p @ ''_'' @ sg @ ''_P'' @ letter @ str_int pin
       @ '' SILABS_DBUS_'' @ p @ ''_'' @ sg @ ''('' @ str_int port @ '', '' @ str_int pin @ '')''"

definition no_route_warning :: "string \<Rightarrow> string \<Rightarrow> string" where
  "no_route_warning p sg = ''WARN: No route register for '' @ p @ ''_'' @ sg"

text \<open>
  The first pair of loops (lines 124 to 132). Its state is the list \<open>lines\<close> and what has
  been printed so far.
\<close>

definition route_signal ::
  "string \<Rightarrow> peripheral \<Rightarrow> string list \<times> string list \<Rightarrow> string \<times> signal
     \<Rightarrow> string list \<times> string list" where
  "route_signal p per st item =
     (case st of (lines, printed) \<Rightarrow>
      case item of (sg, d) \<Rightarrow>
        (case route d of
           Some r \<Rightarrow> (lines @ [dbus_define p (base per) sg d r], printed)
         | None \<Rightarrow> (lines, printed @ [no_route_warning p sg])))"

definition route_peripheral ::
  "string list \<times> string list \<Rightarrow> string \<times> peripheral \<Rightarrow> string list \<times> string list" where
  "route_peripheral st item =
     (case st of (lines, printed) \<Rightarrow>
      case item of (p, per) \<Rightarrow> foldl (route_signal p per) (lines @ [[]], printed) (signals per))"

text \<open>
  The second pair of loops (lines 134 to 142). \<open>data['pinout']\<close> raises \<open>KeyError\<close> without
  the key; the ports come in the order of the dictionary, the pins of a port sorted.
\<close>

definition pin_step :: "string \<Rightarrow> string \<Rightarrow> int \<Rightarrow> string list \<Rightarrow> int \<Rightarrow> error + string list" where
  "pin_step p sg port lines pin =
     (case chr_py (65 + port) of
        Inl e \<Rightarrow> Inl e
      | Inr letter \<Rightarrow> Inr (lines @ [pin_define p sg letter port pin]))"

definition port_step :: "string \<Rightarrow> string \<Rightarrow> string list \<Rightarrow> int \<times> int set \<Rightarrow> error + string list" where
  "port_step p sg lines item =
     (case item of (port, pins) \<Rightarrow> for_loop (pin_step p sg port) lines (sorted_list_of_set pins))"

definition pinout_signal :: "string \<Rightarrow> string list \<Rightarrow> string \<times> signal \<Rightarrow> error + string list" where
  "pinout_signal p lines item =
     (case item of (sg, d) \<Rightarrow>
        (case pinout d of
           None \<Rightarrow> Inl KeyError
         | Some po \<Rightarrow> for_loop (port_step p sg) lines po))"

definition pinout_peripheral :: "string list \<Rightarrow> string \<times> peripheral \<Rightarrow> error + string list" where
  "pinout_peripheral lines item =
     (case item of (p, per) \<Rightarrow> for_loop (pinout_signal p) (lines @ [[]]) (signals per))"

definition header_lines :: "string \<Rightarrow> string list" where
  "header_lines family =
     [''/*'',
      '' * Pin Control for Silicon Labs '' @ family @ '' devices'',
      '' * Copyright (c) 2024 Silicon Laboratories Inc.'',
      '' *'',
      '' * SPDX-License-Identifier: Apache-2.0'',
      '' */'',
      [],
      ''#include <dt-bindings/pinctrl/silabs-pinctrl-dbus.h>'']"

text \<open>
  \<open>write_text\<close> (line 146) encodes the joined lines and writes them; the encoding is taken
  to be UTF-8, the default of a UTF-8 locale. It raises \<open>UnicodeEncodeError\<close> for a text that
  holds a lone surrogate, a code point from \<open>0xD800\<close> to \<open>0xDFFF\<close>. The family name is a key
  of the table \<open>families\<close> and the names come from XML documents, which hold no surrogate,
  so the text holds one exactly when the second pair of loops has written a definition
  for a port whose letter \<open>chr(65 + port)\<close> is one: \<open>surrogate_letter\<close>.
\<close>

definition lone_surrogate :: "int \<Rightarrow> bool" where
  "lone_surrogate i \<longleftrightarrow> 0xD800 \<le> i \<and> i \<le> 0xDFFF"

definition surrogate_letter :: "peripherals \<Rightarrow> bool" where
  "surrogate_letter ps =
     list_ex (\<lambda>(p, per).
       list_ex (\<lambda>(sg, d).
         case pinout d of
           None \<Rightarrow> False
         | Some po \<Rightarrow>
             list_ex (\<lambda>(port, pins).
               sorted_list_of_set pins \<noteq> [] \<and> lone_surrogate (65 + port)) po)
         (signals per)) ps"

definition write_text :: "peripherals \<Rightarrow> string list \<Rightarrow> error + string list" where
  "write_text ps lines = (if surrogate_letter ps then Inl UnicodeEncodeError else Inr lines)"

text \<open>
  \<open>write_header\<close> gives what it has printed and either the exception that ended it or the
  lines that it has written to the file (\<open>[]\<close> is the empty line).
\<close>

definition write_header :: "string \<Rightarrow> peripherals \<Rightarrow> string list \<times> (error + string list)" where
  "write_header family ps =
     (case foldl route_peripheral (header_lines family, []) ps of
        (lines, printed) \<Rightarrow>
          (printed,
           case for_loop pinout_peripheral lines ps of
             Inl e \<Rightarrow> Inl e
           | Inr lines' \<Rightarrow> write_text ps (lines' @ [[]])))"

subsection \<open>The main program\<close>

text \<open>
  The documents of one variant, and the loop of the main program over the variants of the
  family: \<open>parse_svd\<close>, then \<open>parse_pin_tool\<close>, on the one dictionary that starts empty.
\<close>

record variant =
  svd_files :: "svd_device list"
  pin_tool_files :: "portio list"

definition variant_step :: "peripherals \<Rightarrow> variant \<Rightarrow> error + peripherals" where
  "variant_step ps v =
     (case parse_svd ps (svd_files v) of
        Inl e \<Rightarrow> Inl e
      | Inr ps1 \<Rightarrow> parse_pin_tool ps1 (pin_tool_files v))"

definition build_model :: "variant list \<Rightarrow> error + peripherals" where
  "build_model vs = for_loop variant_step [] vs"

definition main :: "string \<Rightarrow> variant list \<Rightarrow> string list \<times> (error + string list)" where
  "main family vs =
     (case build_model vs of
        Inl e \<Rightarrow> ([], Inl e)
      | Inr ps \<Rightarrow> write_header family ps)"

section \<open>Notions used in the statements\<close>

subsection \<open>What the register side may change\<close>

text \<open>
  \<open>model_kept ps ps'\<close>: every peripheral of \<open>ps\<close> is in \<open>ps'\<close> with the same base, and every
  signal of it is still there with, where they were set, the same enable bit and the same
  route offset, and with the pinout it had.
\<close>

definition signal_kept :: "signal \<Rightarrow> signal \<Rightarrow> bool" where
  "signal_kept d d' \<longleftrightarrow>
     (en d \<noteq> None \<longrightarrow> en d' = en d) \<and> (route d \<noteq> None \<longrightarrow> route d' = route d)
     \<and> pinout d' = pinout d"

definition peripheral_kept :: "peripheral \<Rightarrow> peripheral \<Rightarrow> bool" where
  "peripheral_kept per per' \<longleftrightarrow>
     base per' = base per \<and>
     (\<forall>sg d. map_of (signals per) sg = Some d \<longrightarrow>
        (\<exists>d'. map_of (signals per') sg = Some d' \<and> signal_kept d d'))"

definition model_kept :: "peripherals \<Rightarrow> peripherals \<Rightarrow> bool" where
  "model_kept ps ps' \<longleftrightarrow>
     (\<forall>p per. map_of ps p = Some per \<longrightarrow>
        (\<exists>per'. map_of ps' p = Some per' \<and> peripheral_kept per per'))"

text \<open>
  The peripheral that a register mentions, under its canonical name: the part before
  \<open>_ROUTEEN\<close>, or the part before the first underscore of a name that ends in \<open>ROUTE\<close>.
\<close>

definition register_peripheral :: "svd_register \<Rightarrow> string option" where
  "register_peripheral reg =
     (if endswith (reg_name reg) ''_ROUTEEN''
      then Some (rename peripheral_rename_map (chop 8 (reg_name reg)))
      else if endswith (reg_name reg) ''ROUTE''
      then (case split1 (CHR ''_'') (reg_name reg) of
              [p0, s0] \<Rightarrow> Some (rename peripheral_rename_map p0)
            | _ \<Rightarrow> None)
      else None)"

text \<open>The first peripheral called \<open>GPIO_NS\<close> of an SVD file, the one \<open>parse_svd\<close> reads.\<close>

definition gpio_registers :: "svd_device \<Rightarrow> svd_register list" where
  "gpio_registers dev =
     (case find (\<lambda>p. periph_name p = ''GPIO_NS'') dev of
        None \<Rightarrow> []
      | Some gpio \<Rightarrow> registers gpio)"

subsection \<open>What \<open>write_header\<close> writes\<close>

text \<open>
  \<open>chr_ok port\<close>: \<open>chr(65 + port)\<close> does not raise; \<open>port_letter\<close> is then its value.
  \<open>dbus_lines\<close>, \<open>route_warnings\<close> and \<open>pin_lines\<close> describe, without a state, the lines of the
  first pair of loops, what it prints, and the lines of the second pair of loops.
  \<open>ports_ascending\<close> is the order of the locations of a pinout with the ports ascending and
  the pins of each port ascending.
\<close>

definition chr_ok :: "int \<Rightarrow> bool" where
  "chr_ok port \<longleftrightarrow> 0 \<le> 65 + port \<and> 65 + port \<le> 0x10FFFF"

definition port_letter :: "int \<Rightarrow> string" where
  "port_letter port = utf8 (nat (65 + port))"

definition ports_ascending :: "pinout_dict \<Rightarrow> (int \<times> int) list" where
  "ports_ascending po =
     concat (map (\<lambda>(port, pins). map (Pair port) (sorted_list_of_set pins)) (sort_key fst po))"

definition dbus_lines :: "peripherals \<Rightarrow> string list" where
  "dbus_lines ps =
     concat (map (\<lambda>(p, per). [] #
       concat (map (\<lambda>(sg, d). case route d of
                                 Some r \<Rightarrow> [dbus_define p (base per) sg d r]
                               | None \<Rightarrow> []) (signals per))) ps)"

definition route_warnings :: "peripherals \<Rightarrow> string list" where
  "route_warnings ps =
     concat (map (\<lambda>(p, per).
       concat (map (\<lambda>(sg, d). case route d of
                                 Some r \<Rightarrow> []
                               | None \<Rightarrow> [no_route_warning p sg]) (signals per))) ps)"

definition pin_lines :: "peripherals \<Rightarrow> string list" where
  "pin_lines ps =
     concat (map (\<lambda>(p, per). [] #
       concat (map (\<lambda>(sg, d). case pinout d of
                                 None \<Rightarrow> []
                               | Some po \<Rightarrow>
                                   concat (map (\<lambda>(port, pins).
                                     map (pin_define p sg (port_letter port) port)
                                       (sorted_list_of_set pins)) po)) (signals per))) ps)"

subsection \<open>What a routing document holds for a signal\<close>

text \<open>
  \<open>selected_locations tree p sg\<close> are the \<open>location\<close> elements that \<open>parse_pin_tool\<close> reads
  for the signal \<open>sg\<close> of the peripheral \<open>p\<close>: those of the first selector that the query
  finds. \<open>location_pair\<close> is the (port, pin) of a location whose two attributes are
  integers, \<open>location_set\<close> the set of these pairs. \<open>pinout_locations\<close> is a pinout as a set
  of (port, pin), \<open>model_locations\<close> that of a signal of the model (empty when the signal is
  not there), and \<open>has_signal\<close> says whether it is there.
\<close>

definition selected_locations :: "portio \<Rightarrow> string \<Rightarrow> string \<Rightarrow> location list" where
  "selected_locations tree p sg =
     (case xpath_selectors tree (if p = ''PRS0'' then ''PRS.'' @ sg else p)
             ((if p = ''PRS0'' then ''PRS'' else p) @ ''_'' @ rename pt_signal_rename_map sg) of
        [] \<Rightarrow> []
      | node # _ \<Rightarrow> xpath_locations node (rename pt_signal_rename_map sg))"

definition location_pair :: "location \<Rightarrow> (int \<times> int) option" where
  "location_pair loc =
     (case (portBankIndex loc, pinIndex loc) of
        (IntVal port, IntVal pin) \<Rightarrow> Some (port, pin)
      | _ \<Rightarrow> None)"

definition location_set :: "location list \<Rightarrow> (int \<times> int) set" where
  "location_set locs = {pp. Some pp \<in> location_pair ` set locs}"

definition pinout_locations :: "pinout_dict option \<Rightarrow> (int \<times> int) set" where
  "pinout_locations po =
     (case po of
        None \<Rightarrow> {}
      | Some al \<Rightarrow> {(port, pin). \<exists>pins. map_of al port = Some pins \<and> pin \<in> pins})"

definition has_signal :: "peripherals \<Rightarrow> string \<Rightarrow> string \<Rightarrow> bool" where
  "has_signal ps p sg =
     (case map_of ps p of None \<Rightarrow> False | Some per \<Rightarrow> map_of (signals per) sg \<noteq> None)"

definition model_locations :: "peripherals \<Rightarrow> string \<Rightarrow> string \<Rightarrow> (int \<times> int) set" where
  "model_locations ps p sg =
     (case map_of ps p of
        None \<Rightarrow> {}
      | Some per \<Rightarrow>
          (case map_of (signals per) sg of None \<Rightarrow> {} | Some d \<Rightarrow> pinout_locations (pinout d)))"

text \<open>
  \<open>model_enriched ps ps'\<close>: the same peripherals in the same order, each with the same base
  and the same signals in the same order, each signal with the same enable bit and route
  offset and with at least the locations it had. \<open>signal_names\<close> are the (peripheral,
  signal) pairs of the model. \<open>file_ok\<close>: every location that the document holds for a
  signal of the model has integer attributes. \<open>file_step\<close> relates the model before and
  after one routing document, signal by signal.
\<close>

definition signal_enriched :: "signal \<Rightarrow> signal \<Rightarrow> bool" where
  "signal_enriched d d' \<longleftrightarrow>
     en d' = en d \<and> route d' = route d \<and>
     pinout_locations (pinout d) \<subseteq> pinout_locations (pinout d')"

definition peripheral_enriched :: "peripheral \<Rightarrow> peripheral \<Rightarrow> bool" where
  "peripheral_enriched per per' \<longleftrightarrow>
     base per' = base per \<and>
     list_all2 (\<lambda>(sg, d) (sg', d'). sg' = sg \<and> signal_enriched d d') (signals per) (signals per')"

definition model_enriched :: "peripherals \<Rightarrow> peripherals \<Rightarrow> bool" where
  "model_enriched ps ps' \<longleftrightarrow>
     list_all2 (\<lambda>(p, per) (p', per'). p' = p \<and> peripheral_enriched per per') ps ps'"

definition signal_names :: "peripherals \<Rightarrow> (string \<times> string) set" where
  "signal_names ps = {(p, sg). \<exists>per d. (p, per) \<in> set ps \<and> (sg, d) \<in> set (signals per)}"

definition file_ok :: "peripherals \<Rightarrow> portio \<Rightarrow> bool" where
  "file_ok ps tree \<longleftrightarrow>
     (\<forall>(p, sg) \<in> signal_names ps.
        list_all (\<lambda>loc. location_pair loc \<noteq> None) (selected_locations tree p sg))"

definition file_step :: "portio \<Rightarrow> peripherals \<Rightarrow> peripherals \<Rightarrow> bool" where
  "file_step tree ps ps' \<longleftrightarrow>
     list_all2 (\<lambda>(p, per) (p', per'). p' = p \<and> base per' = base per \<and>
        list_all2 (\<lambda>(sg, d) (sg', d'). sg' = sg \<and> pin_tool_signal tree p sg d = Inr d')
          (signals per) (signals per')) ps ps'"

text \<open>
  \<open>added_bare ps ps'\<close>: \<open>ps'\<close> keeps \<open>ps\<close> (\<open>model_kept\<close>), and a signal of \<open>ps'\<close> that is not in
  \<open>ps\<close> has no pinout.
\<close>

definition added_bare :: "peripherals \<Rightarrow> peripherals \<Rightarrow> bool" where
  "added_bare ps ps' \<longleftrightarrow>
     model_kept ps ps' \<and>
     (\<forall>p sg per' d'. map_of ps' p = Some per' \<and> map_of (signals per') sg = Some d' \<and>
        \<not> has_signal ps p sg \<longrightarrow> pinout d' = None)"

subsection \<open>One signal of the model\<close>

text \<open>
  \<open>lookup_signal ps p sg\<close>: the base of the peripheral \<open>p\<close> and the entry of its signal \<open>sg\<close>,
  what \<open>peripherals[p]["_base"]\<close> and \<open>peripherals[p][sg]\<close> hold. \<open>field_signal f\<close>: the signal
  that a field of an enable register names, if its name ends in \<open>PEN\<close> (lines 163 to 166).
\<close>

definition lookup_signal :: "peripherals \<Rightarrow> string \<Rightarrow> string \<Rightarrow> (int \<times> signal) option" where
  "lookup_signal ps p sg =
     (case map_of ps p of
        None \<Rightarrow> None
      | Some per \<Rightarrow>
          (case map_of (signals per) sg of None \<Rightarrow> None | Some d \<Rightarrow> Some (base per, d)))"

definition field_signal :: "svd_field \<Rightarrow> string option" where
  "field_signal f =
     (if endswith (field_name f) ''PEN''
      then Some (rename signal_rename_map (chop 3 (field_name f)))
      else None)"

section \<open>Example documents\<close>

text \<open>
  Small register and routing documents, used where a statement is applied to a concrete
  input.
\<close>

definition timer_svd :: svd_device where
  "timer_svd =
     [\<lparr>periph_name = ''GPIO_NS'',
       registers =
         [\<lparr>reg_name = ''TIMER0_ROUTEEN'', address_offset = 0x20,
           reg_fields = [\<lparr>field_name = ''CC0PEN'', bit_offset = 0\<rparr>]\<rparr>,
          \<lparr>reg_name = ''TIMER0_CC0ROUTE'', address_offset = 0x24, reg_fields = []\<rparr>]\<rparr>]"

definition timer_svd_moved :: svd_device where
  "timer_svd_moved =
     [\<lparr>periph_name = ''GPIO_NS'',
       registers =
         [\<lparr>reg_name = ''TIMER0_ROUTEEN'', address_offset = 0x40,
           reg_fields = [\<lparr>field_name = ''CC0PEN'', bit_offset = 3\<rparr>]\<rparr>,
          \<lparr>reg_name = ''TIMER0_CC0ROUTE'', address_offset = 0x4C, reg_fields = []\<rparr>]\<rparr>]"

definition timer_portio :: portio where
  "timer_portio =
     [\<lparr>mod_name = ''TIMER0'',
       selectors =
         [\<lparr>selector_name = ''TIMER0_CC0'',
           routes =
             [\<lparr>route_name = ''CC0'',
               locations = [\<lparr>portBankIndex = IntVal 0, pinIndex = IntVal 5\<rparr>]\<rparr>]\<rparr>]\<rparr>]"

definition timer_model :: peripherals where
  "timer_model =
     [(''TIMER0'', \<lparr>base = 8, signals =
         [(''CC0'', \<lparr>en = Some 0, route = Some 1, pinout = None\<rparr>)]\<rparr>)]"


definition frc_svd :: svd_device where
  "frc_svd =
     [\<lparr>periph_name = ''GPIO_NS'',
       registers =
         [\<lparr>reg_name = ''FRC_ROUTEEN'', address_offset = 0x7C,
           reg_fields = [\<lparr>field_name = ''CCC0PEN'', bit_offset = 2\<rparr>]\<rparr>]\<rparr>]"


definition bare_route_svd :: svd_device where
  "bare_route_svd =
     [\<lparr>periph_name = ''GPIO_NS'',
       registers = [\<lparr>reg_name = ''ROUTE'', address_offset = 0x10, reg_fields = []\<rparr>]\<rparr>]"

definition enabled_timer_model :: peripherals where
  "enabled_timer_model =
     [(''TIMER0'', \<lparr>base = 8, signals =
         [(''CC0'', \<lparr>en = Some 0, route = None, pinout = None\<rparr>)]\<rparr>)]"

definition enable_only_svd :: svd_device where
  "enable_only_svd =
     [\<lparr>periph_name = ''GPIO_NS'',
       registers =
         [\<lparr>reg_name = ''TIMER0_ROUTEEN'', address_offset = 0x20,
           reg_fields = [\<lparr>field_name = ''CC0PEN'', bit_offset = 0\<rparr>]\<rparr>]\<rparr>]"

definition usart_svd :: svd_device where
  "usart_svd =
     [\<lparr>periph_name = ''GPIO_NS'',
       registers =
         [\<lparr>reg_name = ''USART0_ROUTEEN'', address_offset = 0x30,
           reg_fields = [\<lparr>field_name = ''TXPEN'', bit_offset = 1\<rparr>]\<rparr>,
          \<lparr>reg_name = ''USART0_TXROUTE'', address_offset = 0x38, reg_fields = []\<rparr>]\<rparr>]"

definition timer_portio_b :: portio where
  "timer_portio_b =
     [\<lparr>mod_name = ''TIMER0'',
       selectors =
         [\<lparr>selector_name = ''TIMER0_CC0'',
           routes =
             [\<lparr>route_name = ''CC0'',
               locations = [\<lparr>portBankIndex = IntVal 1, pinIndex = IntVal 2\<rparr>]\<rparr>]\<rparr>]\<rparr>]"

definition usart_module :: pt_module where
  "usart_module =
     \<lparr>mod_name = ''USART0'',
      selectors =
        [\<lparr>selector_name = ''USART0_TX'',
          routes =
            [\<lparr>route_name = ''TX'',
              locations = [\<lparr>portBankIndex = IntVal 2, pinIndex = IntVal 3\<rparr>]\<rparr>]\<rparr>]\<rparr>"

definition timer_model_a :: peripherals where
  "timer_model_a =
     [(''TIMER0'', \<lparr>base = 8, signals =
         [(''CC0'', \<lparr>en = Some 0, route = Some 1, pinout = Some [(0, {5})]\<rparr>)]\<rparr>)]"

definition timer_model_ab :: peripherals where
  "timer_model_ab =
     [(''TIMER0'', \<lparr>base = 8, signals =
         [(''CC0'', \<lparr>en = Some 0, route = Some 1, pinout = Some [(0, {5}), (1, {2})]\<rparr>)]\<rparr>)]"

definition timer_model_ba :: peripherals where
  "timer_model_ba =
     [(''TIMER0'', \<lparr>base = 8, signals =
         [(''CC0'', \<lparr>en = Some 0, route = Some 1, pinout = Some [(1, {2}), (0, {5})]\<rparr>)]\<rparr>)]"

definition timer_usart_model :: peripherals where
  "timer_usart_model =
     [(''TIMER0'', \<lparr>base = 8, signals =
         [(''CC0'', \<lparr>en = Some 0, route = Some 1, pinout = Some [(0, {5})]\<rparr>)]\<rparr>),
      (''USART0'', \<lparr>base = 12, signals =
         [(''TX'', \<lparr>en = Some 1, route = Some 2, pinout = None\<rparr>)]\<rparr>)]"

text \<open>
  The two registers of \<open>timer_svd\<close> in the opposite order; and documents that hold more than
  the timer: registers of \<open>USART0\<close> around those of \<open>TIMER0\<close>, further fields, and in the
  routing document a selector \<open>TIMER0_CC0\<close> under another module, a route \<open>CC0\<close> under
  another selector, further routes, a second selector \<open>TIMER0_CC0\<close> and a second module
  \<open>TIMER0\<close>. \<open>timer_header_busy\<close> is the file that the program writes for them.
\<close>

definition timer_svd_swapped :: svd_device where
  "timer_svd_swapped =
     [\<lparr>periph_name = ''GPIO_NS'',
       registers =
         [\<lparr>reg_name = ''TIMER0_CC0ROUTE'', address_offset = 0x24, reg_fields = []\<rparr>,
          \<lparr>reg_name = ''TIMER0_ROUTEEN'', address_offset = 0x20,
           reg_fields = [\<lparr>field_name = ''CC0PEN'', bit_offset = 0\<rparr>]\<rparr>]\<rparr>]"

definition timer_svd_busy :: svd_device where
  "timer_svd_busy =
     [\<lparr>periph_name = ''GPIO_NS'',
       registers =
         [\<lparr>reg_name = ''USART0_ROUTEEN'', address_offset = 0x1B0,
           reg_fields = [\<lparr>field_name = ''TXPEN'', bit_offset = 4\<rparr>]\<rparr>,
          \<lparr>reg_name = ''TIMER0_ROUTEEN'', address_offset = 0x20,
           reg_fields = [\<lparr>field_name = ''CC1PEN'', bit_offset = 1\<rparr>,
                         \<lparr>field_name = ''CC0PEN'', bit_offset = 0\<rparr>,
                         \<lparr>field_name = ''CDTI0PEN'', bit_offset = 3\<rparr>]\<rparr>,
          \<lparr>reg_name = ''USART0_TXROUTE'', address_offset = 0x1B8, reg_fields = []\<rparr>,
          \<lparr>reg_name = ''TIMER0_CC0ROUTE'', address_offset = 0x24, reg_fields = []\<rparr>,
          \<lparr>reg_name = ''TIMER0_CC1ROUTE'', address_offset = 0x28, reg_fields = []\<rparr>,
          \<lparr>reg_name = ''TIMER0_CDTI0ROUTE'', address_offset = 0x30, reg_fields = []\<rparr>]\<rparr>]"

definition timer_portio_busy :: portio where
  "timer_portio_busy =
     [\<lparr>mod_name = ''USART0'',
       selectors =
         [\<lparr>selector_name = ''USART0_TX'',
           routes =
             [\<lparr>route_name = ''TX'',
               locations = [\<lparr>portBankIndex = IntVal 1, pinIndex = IntVal 2\<rparr>]\<rparr>]\<rparr>,
          \<lparr>selector_name = ''TIMER0_CC0'',
           routes =
             [\<lparr>route_name = ''CC0'',
               locations = [\<lparr>portBankIndex = IntVal 1, pinIndex = IntVal 7\<rparr>]\<rparr>]\<rparr>]\<rparr>,
      \<lparr>mod_name = ''TIMER0'',
       selectors =
         [\<lparr>selector_name = ''TIMER0_CC1'',
           routes =
             [\<lparr>route_name = ''CC0'',
               locations = [\<lparr>portBankIndex = IntVal 2, pinIndex = IntVal 1\<rparr>]\<rparr>,
              \<lparr>route_name = ''CC1'',
               locations = [\<lparr>portBankIndex = IntVal 0, pinIndex = IntVal 6\<rparr>]\<rparr>]\<rparr>,
          \<lparr>selector_name = ''TIMER0_CC0'',
           routes =
             [\<lparr>route_name = ''CC1'',
               locations = [\<lparr>portBankIndex = IntVal 2, pinIndex = IntVal 2\<rparr>]\<rparr>,
              \<lparr>route_name = ''CC0'',
               locations = [\<lparr>portBankIndex = IntVal 0, pinIndex = IntVal 5\<rparr>]\<rparr>,
              \<lparr>route_name = ''CDTI0'',
               locations = [\<lparr>portBankIndex = IntVal 2, pinIndex = IntVal 3\<rparr>]\<rparr>]\<rparr>,
          \<lparr>selector_name = ''TIMER0_CC0'',
           routes =
             [\<lparr>route_name = ''CC0'',
               locations = [\<lparr>portBankIndex = IntVal 3, pinIndex = IntVal 1\<rparr>]\<rparr>]\<rparr>]\<rparr>,
      \<lparr>mod_name = ''TIMER0'',
       selectors =
         [\<lparr>selector_name = ''TIMER0_CC0'',
           routes =
             [\<lparr>route_name = ''CC0'',
               locations = [\<lparr>portBankIndex = IntVal 3, pinIndex = IntVal 4\<rparr>]\<rparr>]\<rparr>]\<rparr>]"

definition timer_header_busy :: "string list" where
  "timer_header_busy =
     header_lines ''xg24'' @
     [[],
      ''#define SILABS_DBUS_USART0_TX(port, pin) SILABS_DBUS(port, pin, 108, 1, 4, 2)'',
      [],
      ''#define SILABS_DBUS_TIMER0_CC1(port, pin) SILABS_DBUS(port, pin, 8, 1, 1, 2)'',
      ''#define SILABS_DBUS_TIMER0_CC0(port, pin) SILABS_DBUS(port, pin, 8, 1, 0, 1)'',
      ''#define SILABS_DBUS_TIMER0_CDTI0(port, pin) SILABS_DBUS(port, pin, 8, 1, 3, 4)'',
      [],
      ''#define USART0_TX_PB2 SILABS_DBUS_USART0_TX(1, 2)'',
      [],
      ''#define TIMER0_CC1_PA6 SILABS_DBUS_TIMER0_CC1(0, 6)'',
      ''#define TIMER0_CC0_PA5 SILABS_DBUS_TIMER0_CC0(0, 5)'',
      []]"

section \<open>Properties of \<open>parse_svd\<close>\<close>

subsection \<open>Loops\<close>

lemma for_loop_rel:
  assumes run: "for_loop f s xs = Inr s'"
    and step: "\<And>s x s'. f s x = Inr s' \<Longrightarrow> R s s'"
    and refl: "\<And>s. R s s"
    and trans: "\<And>a b c. R a b \<Longrightarrow> R b c \<Longrightarrow> R a c"
  shows "R s s'"
  using run
proof (induction xs arbitrary: s)
  case Nil
  then show ?case by (simp add: refl)
next
  case (Cons x xs)
  from Cons.prems obtain s1 where s1: "f s x = Inr s1" and rest: "for_loop f s1 xs = Inr s'"
    by (auto split: sum.splits)
  have "R s s1" using s1 by (rule step)
  moreover have "R s1 s'" using rest by (rule Cons.IH)
  ultimately show ?case by (rule trans)
qed

lemma for_loop_append:
  "for_loop f s (xs @ ys) =
     (case for_loop f s xs of Inl e \<Rightarrow> Inl e | Inr s1 \<Rightarrow> for_loop f s1 ys)"
  by (induction xs arbitrary: s) (auto split: sum.splits)

lemma for_loop_member:
  "for_loop f s xs = Inr s' \<Longrightarrow> x \<in> set xs \<Longrightarrow> \<exists>s1 s2. f s1 x = Inr s2"
proof (induction xs arbitrary: s)
  case Nil
  then show ?case by simp
next
  case (Cons y ys)
  from Cons.prems(1) obtain s1 where s1: "f s y = Inr s1" and rest: "for_loop f s1 ys = Inr s'"
    by (auto split: sum.splits)
  show ?case
  proof (cases "x = y")
    case True
    with s1 show ?thesis by blast
  next
    case False
    with Cons.prems(2) have "x \<in> set ys" by simp
    with rest show ?thesis by (rule Cons.IH)
  qed
qed

subsection \<open>First writer wins\<close>

lemma signal_kept_refl: "signal_kept d d"
  by (simp add: signal_kept_def)

lemma signal_kept_trans: "signal_kept a b \<Longrightarrow> signal_kept b c \<Longrightarrow> signal_kept a c"
  by (auto simp: signal_kept_def)

lemma peripheral_kept_refl: "peripheral_kept p p"
  by (simp add: peripheral_kept_def signal_kept_refl)

lemma peripheral_kept_trans:
  "peripheral_kept a b \<Longrightarrow> peripheral_kept b c \<Longrightarrow> peripheral_kept a c"
  unfolding peripheral_kept_def by (metis signal_kept_trans)

lemma model_kept_refl: "model_kept p p"
  by (simp add: model_kept_def peripheral_kept_refl)

lemma model_kept_trans: "model_kept a b \<Longrightarrow> model_kept b c \<Longrightarrow> model_kept a c"
  unfolding model_kept_def by (metis peripheral_kept_trans)

lemma ensure_peripheral_kept: "model_kept ps (ensure_peripheral p off ps)"
  by (auto simp: model_kept_def ensure_peripheral_def update_conv' peripheral_kept_refl)

lemma model_kept_update:
  "map_of ps p = Some per \<Longrightarrow> peripheral_kept per per' \<Longrightarrow> model_kept ps (AList.update p per' ps)"
  by (auto simp: model_kept_def update_conv' peripheral_kept_refl)

lemma enable_field_kept: "enable_field p ps f = Inr ps' \<Longrightarrow> model_kept ps ps'"
  unfolding enable_field_def Let_def
  apply (auto split: if_splits option.splits intro!: model_kept_update simp: model_kept_refl)
   apply (auto simp: peripheral_kept_def ensure_signal_def update_conv' signal_kept_def
      split: if_splits)
  done

lemma enable_register_kept: "enable_register ps reg = Inr ps' \<Longrightarrow> model_kept ps ps'"
proof -
  assume a: "enable_register ps reg = Inr ps'"
  let ?p = "rename peripheral_rename_map (chop 8 (reg_name reg))"
  from a have "for_loop (enable_field ?p) (ensure_peripheral ?p (address_offset reg) ps)
      (reg_fields reg) = Inr ps'"
    by (simp add: enable_register_def Let_def)
  then have "model_kept (ensure_peripheral ?p (address_offset reg) ps) ps'"
    by (rule for_loop_rel [where R = model_kept])
       (auto intro: enable_field_kept model_kept_refl model_kept_trans)
  with ensure_peripheral_kept show ?thesis by (rule model_kept_trans)
qed

lemma route_register_kept: "route_register ps reg = Inr ps' \<Longrightarrow> model_kept ps ps'"
proof -
  assume a: "route_register ps reg = Inr ps'"
  then obtain p0 s0 where sp: "split1 (CHR ''_'') (reg_name reg) = [p0, s0]"
    by (auto simp: route_register_def split: list.splits)
  let ?p = "rename peripheral_rename_map p0"
  let ?sg = "rename signal_rename_map (chop 5 s0)"
  let ?ps1 = "ensure_peripheral ?p (address_offset reg) ps"
  from a sp obtain per where per: "map_of ?ps1 ?p = Some per"
    by (auto simp: route_register_def Let_def split: option.splits)
  let ?sigs = "ensure_signal ?sg (signals per)"
  from a sp per obtain d where d: "map_of ?sigs ?sg = Some d"
    by (auto simp: route_register_def Let_def split: option.splits if_splits)
  let ?per' = "per\<lparr>signals := (if route d = None
       then AList.update ?sg (d\<lparr>route := Some (address_offset reg div 4 - base per)\<rparr>) ?sigs
       else ?sigs)\<rparr>"
  from a sp per d have ps': "ps' = AList.update ?p ?per' ?ps1"
    by (auto simp: route_register_def Let_def split: option.splits if_splits)
  have "peripheral_kept per ?per'"
    using d
    by (auto simp: peripheral_kept_def ensure_signal_def update_conv' signal_kept_def
        split: if_splits)
  with per have "model_kept ?ps1 ps'" unfolding ps' by (rule model_kept_update)
  with ensure_peripheral_kept show ?thesis by (rule model_kept_trans)
qed

lemma svd_register_step_kept: "svd_register_step ps reg = Inr ps' \<Longrightarrow> model_kept ps ps'"
  unfolding svd_register_step_def
  by (auto split: sum.splits if_splits simp: model_kept_refl
      dest!: enable_register_kept route_register_kept intro: model_kept_trans)

lemma registers_kept: "for_loop svd_register_step ps regs = Inr ps' \<Longrightarrow> model_kept ps ps'"
  by (erule for_loop_rel [where R = model_kept])
     (auto intro: svd_register_step_kept model_kept_refl model_kept_trans)

lemma parse_svd_file_kept: "parse_svd_file ps dev = Inr ps' \<Longrightarrow> model_kept ps ps'"
  by (auto simp: parse_svd_file_def split: option.splits intro: registers_kept)

lemma parse_svd_kept: "parse_svd ps devs = Inr ps' \<Longrightarrow> model_kept ps ps'"
  unfolding parse_svd_def
  by (erule for_loop_rel [where R = model_kept])
     (auto intro: parse_svd_file_kept model_kept_refl model_kept_trans)

lemma endswith_iff: "endswith s suf \<longleftrightarrow> (\<exists>pre. s = pre @ suf)"
proof
  assume "endswith s suf"
  then have "s = take (length s - length suf) s @ suf"
    by (metis append_take_drop_id endswith_def)
  then show "\<exists>pre. s = pre @ suf" ..
next
  assume "\<exists>pre. s = pre @ suf"
  then show "endswith s suf" by (auto simp: endswith_def)
qed

lemma routeen_not_route: "endswith s ''_ROUTEEN'' \<Longrightarrow> \<not> endswith s ''ROUTE''"
  by (auto simp: endswith_iff)

lemma routeen_underscore: "endswith s ''_ROUTEEN'' \<Longrightarrow> CHR ''_'' \<in> set s"
  by (auto simp: endswith_iff)

lemma enable_field_other:
  "enable_field p ps f = Inr ps' \<Longrightarrow> q \<noteq> p \<Longrightarrow> map_of ps' q = map_of ps q"
  by (auto simp: enable_field_def Let_def update_conv' split: if_splits option.splits)

lemma enable_fields_other:
  "for_loop (enable_field p) ps fs = Inr ps' \<Longrightarrow> q \<noteq> p \<Longrightarrow> map_of ps' q = map_of ps q"
  by (induction fs arbitrary: ps) (auto split: sum.splits dest: enable_field_other)

lemma ensure_peripheral_other:
  "q \<noteq> p \<Longrightarrow> map_of (ensure_peripheral p off ps) q = map_of ps q"
  by (simp add: ensure_peripheral_def update_conv')

lemma ensure_peripheral_new:
  "map_of ps p = None \<Longrightarrow>
     map_of (ensure_peripheral p off ps) p = Some \<lparr>base = off div 4, signals = []\<rparr>"
  by (simp add: ensure_peripheral_def update_conv')

lemma model_kept_base:
  "model_kept ps ps' \<Longrightarrow> map_of ps p = Some per \<Longrightarrow>
     \<exists>per'. map_of ps' p = Some per' \<and> base per' = base per"
  unfolding model_kept_def peripheral_kept_def by blast

lemma enable_register_other:
  "enable_register ps reg = Inr ps' \<Longrightarrow> q \<noteq> rename peripheral_rename_map (chop 8 (reg_name reg))
     \<Longrightarrow> map_of ps' q = map_of ps q"
  by (auto simp: enable_register_def Let_def ensure_peripheral_other dest: enable_fields_other)

lemma enable_register_new:
  assumes "enable_register ps reg = Inr ps'"
    and "map_of ps (rename peripheral_rename_map (chop 8 (reg_name reg))) = None"
  shows "\<exists>per'. map_of ps' (rename peripheral_rename_map (chop 8 (reg_name reg))) = Some per'
            \<and> base per' = address_offset reg div 4"
proof -
  let ?p = "rename peripheral_rename_map (chop 8 (reg_name reg))"
  let ?ps1 = "ensure_peripheral ?p (address_offset reg) ps"
  from assms(1) have "for_loop (enable_field ?p) ?ps1 (reg_fields reg) = Inr ps'"
    by (simp add: enable_register_def Let_def)
  then have "model_kept ?ps1 ps'"
    by (rule for_loop_rel [where R = model_kept])
       (auto intro: enable_field_kept model_kept_refl model_kept_trans)
  from model_kept_base [OF this ensure_peripheral_new [OF assms(2)]]
  show ?thesis by simp
qed

lemma route_register_cases:
  assumes a: "route_register ps reg = Inr ps'"
  obtains p0 s0 per per' where
    "split1 (CHR ''_'') (reg_name reg) = [p0, s0]"
    "map_of (ensure_peripheral (rename peripheral_rename_map p0) (address_offset reg) ps)
        (rename peripheral_rename_map p0) = Some per"
    "base per' = base per"
    "ps' = AList.update (rename peripheral_rename_map p0) per'
        (ensure_peripheral (rename peripheral_rename_map p0) (address_offset reg) ps)"
proof -
  from a obtain p0 s0 where sp: "split1 (CHR ''_'') (reg_name reg) = [p0, s0]"
    by (auto simp: route_register_def split: list.splits)
  let ?p = "rename peripheral_rename_map p0"
  let ?sg = "rename signal_rename_map (chop 5 s0)"
  let ?ps1 = "ensure_peripheral ?p (address_offset reg) ps"
  from a sp obtain per where per: "map_of ?ps1 ?p = Some per"
    by (auto simp: route_register_def Let_def split: option.splits)
  let ?sigs = "ensure_signal ?sg (signals per)"
  from a sp per obtain d where d: "map_of ?sigs ?sg = Some d"
    by (auto simp: route_register_def Let_def split: option.splits if_splits)
  let ?per' = "per\<lparr>signals := (if route d = None
       then AList.update ?sg (d\<lparr>route := Some (address_offset reg div 4 - base per)\<rparr>) ?sigs
       else ?sigs)\<rparr>"
  from a sp per d have ps': "ps' = AList.update ?p ?per' ?ps1"
    by (auto simp: route_register_def Let_def split: option.splits if_splits)
  have "base ?per' = base per" by simp
  from that [OF sp per this ps'] show ?thesis .
qed

lemma route_register_other:
  assumes "route_register ps reg = Inr ps'" and "register_peripheral reg \<noteq> Some q"
    and "\<not> endswith (reg_name reg) ''_ROUTEEN''" and "endswith (reg_name reg) ''ROUTE''"
  shows "map_of ps' q = map_of ps q"
proof -
  from assms(1) obtain p0 s0 per per' where
    sp: "split1 (CHR ''_'') (reg_name reg) = [p0, s0]" and
    ps': "ps' = AList.update (rename peripheral_rename_map p0) per'
        (ensure_peripheral (rename peripheral_rename_map p0) (address_offset reg) ps)"
    by (rule route_register_cases)
  from assms(2-4) sp have "q \<noteq> rename peripheral_rename_map p0"
    by (auto simp: register_peripheral_def)
  then show ?thesis by (simp add: ps' update_conv' ensure_peripheral_other)
qed

lemma route_register_new:
  assumes "route_register ps reg = Inr ps'" and "register_peripheral reg = Some p"
    and "\<not> endswith (reg_name reg) ''_ROUTEEN''" and "endswith (reg_name reg) ''ROUTE''"
    and "map_of ps p = None"
  shows "\<exists>per'. map_of ps' p = Some per' \<and> base per' = address_offset reg div 4"
proof -
  from assms(1) obtain p0 s0 per per' where
    sp: "split1 (CHR ''_'') (reg_name reg) = [p0, s0]" and
    per: "map_of (ensure_peripheral (rename peripheral_rename_map p0) (address_offset reg) ps)
        (rename peripheral_rename_map p0) = Some per" and
    b: "base per' = base per" and
    ps': "ps' = AList.update (rename peripheral_rename_map p0) per'
        (ensure_peripheral (rename peripheral_rename_map p0) (address_offset reg) ps)"
    by (rule route_register_cases)
  from assms(2-4) sp have p: "p = rename peripheral_rename_map p0"
    by (auto simp: register_peripheral_def)
  from per assms(5) have "base per = address_offset reg div 4"
    by (auto simp: p ensure_peripheral_new)
  with b show ?thesis by (simp add: ps' p update_conv')
qed

lemma svd_register_step_first:
  assumes "svd_register_step ps reg = Inr ps'" and "map_of ps p = None"
  shows "if register_peripheral reg = Some p
         then \<exists>per'. map_of ps' p = Some per' \<and> base per' = address_offset reg div 4
         else map_of ps' p = None"
proof (cases "endswith (reg_name reg) ''_ROUTEEN''")
  case True
  with assms(1) have en: "enable_register ps reg = Inr ps'"
    by (auto simp: svd_register_step_def routeen_not_route split: sum.splits)
  from True have rp: "register_peripheral reg = Some (rename peripheral_rename_map (chop 8 (reg_name reg)))"
    by (simp add: register_peripheral_def)
  show ?thesis
    using enable_register_new [OF en] enable_register_other [OF en, of p] assms(2)
    by (auto simp: rp)
next
  case False
  show ?thesis
  proof (cases "endswith (reg_name reg) ''ROUTE''")
    case True
    with False assms(1) have ro: "route_register ps reg = Inr ps'"
      by (simp add: svd_register_step_def)
    show ?thesis
      using route_register_new [OF ro _ False True assms(2)]
        route_register_other [OF ro _ False True, of p] assms(2)
      by auto
  next
    case nr: False
    with False assms show ?thesis
      by (simp add: svd_register_step_def register_peripheral_def)
  qed
qed


text \<open>
  Claim C4. While \<open>parse_svd\<close> runs over any registers and any files, a peripheral keeps the
  base it has, and a signal keeps an enable bit and a route offset that are set
  (\<open>model_kept\<close>). A peripheral that is not yet in the model gets its base from the first
  register that mentions it, a \<open>_ROUTEEN\<close> register or a \<open>ROUTE\<close> register: the base is the
  word offset of that register, and a register that does not mention the peripheral does
  not create it.
\<close>

theorem first_writer_wins:
  "(for_loop svd_register_step ps regs = Inr ps' \<longrightarrow> model_kept ps ps') \<and>
   (parse_svd ps devs = Inr ps'' \<longrightarrow> model_kept ps ps'') \<and>
   (svd_register_step ps0 reg = Inr ps1 \<and> map_of ps0 p = None \<longrightarrow>
      (if register_peripheral reg = Some p
       then \<exists>per1. map_of ps1 p = Some per1 \<and> base per1 = address_offset reg div 4
       else map_of ps1 p = None))"
  using registers_kept parse_svd_kept svd_register_step_first by blast

theorem first_writer_wins_witness:
  "parse_svd [] [timer_svd] = Inr timer_model \<and>
   for_loop svd_register_step timer_model (gpio_registers timer_svd_moved) = Inr timer_model \<and>
   parse_svd timer_model [timer_svd_moved, timer_svd] = Inr timer_model \<and>
   model_kept timer_model timer_model \<and>
   svd_register_step [] \<lparr>reg_name = ''TIMER0_CC0ROUTE'', address_offset = 0x24, reg_fields = []\<rparr>
     = Inr [(''TIMER0'', \<lparr>base = 9, signals =
         [(''CC0'', \<lparr>en = None, route = Some 0, pinout = None\<rparr>)]\<rparr>)] \<and>
   register_peripheral \<lparr>reg_name = ''TIMER0_CC0ROUTE'', address_offset = 0x24, reg_fields = []\<rparr>
     = Some ''TIMER0'' \<and>
   (\<exists>per1. map_of [(''TIMER0'', \<lparr>base = 9, signals =
         [(''CC0'', \<lparr>en = None, route = Some 0, pinout = None\<rparr>)]\<rparr>)] ''TIMER0'' = Some per1 \<and>
      base per1 = 0x24 div 4)"
proof -
  let ?reg = "\<lparr>reg_name = ''TIMER0_CC0ROUTE'', address_offset = 0x24, reg_fields = []\<rparr>"
  let ?m = "[(''TIMER0'', \<lparr>base = 9, signals =
         [(''CC0'', \<lparr>en = None, route = Some 0, pinout = None\<rparr>)]\<rparr>)]"
  have 1: "parse_svd [] [timer_svd] = Inr timer_model" by code_simp
  have 2: "for_loop svd_register_step timer_model (gpio_registers timer_svd_moved) = Inr timer_model"
    by code_simp
  have 3: "parse_svd timer_model [timer_svd_moved, timer_svd] = Inr timer_model" by code_simp
  have 4: "svd_register_step [] ?reg = Inr ?m" by code_simp
  have 5: "register_peripheral ?reg = Some ''TIMER0''" by code_simp
  have 6: "map_of ([] :: peripherals) ''TIMER0'' = None" by simp
  from first_writer_wins [of timer_model "gpio_registers timer_svd_moved" timer_model
      "[timer_svd_moved, timer_svd]" timer_model "[]" "?reg" "?m" "''TIMER0''"] 2 3 4 5 6
  have "model_kept timer_model timer_model"
    and "\<exists>per1. map_of ?m ''TIMER0'' = Some per1 \<and> base per1 = 0x24 div 4"
    by simp_all
  with 1 2 3 4 5 show ?thesis by blast
qed


subsection \<open>Renaming\<close>

lemma for_loop_member_rel:
  assumes run: "for_loop f s xs = Inr s'" and mem: "x \<in> set xs"
    and step: "\<And>s x s'. f s x = Inr s' \<Longrightarrow> R s s'"
    and refl: "\<And>s. R s s"
    and trans: "\<And>a b c. R a b \<Longrightarrow> R b c \<Longrightarrow> R a c"
  shows "\<exists>s1 s2. f s1 x = Inr s2 \<and> R s s1 \<and> R s2 s'"
proof -
  from mem obtain ys zs where xs: "xs = ys @ x # zs" by (auto simp: in_set_conv_decomp)
  from run obtain s1 where s1: "for_loop f s ys = Inr s1" and r1: "for_loop f s1 (x # zs) = Inr s'"
    by (auto simp: xs for_loop_append split: sum.splits)
  from r1 obtain s2 where s2: "f s1 x = Inr s2" and r2: "for_loop f s2 zs = Inr s'"
    by (auto split: sum.splits)
  have "R s s1" using s1 by (rule for_loop_rel) (auto intro: step refl trans)
  moreover have "R s2 s'" using r2 by (rule for_loop_rel) (auto intro: step refl trans)
  ultimately show ?thesis using s2 by blast
qed

lemma enable_field_sets:
  assumes "enable_field p ps f = Inr ps'" and "endswith (field_name f) ''PEN''"
  shows "\<exists>per d. map_of ps' p = Some per \<and>
           map_of (signals per) (rename signal_rename_map (chop 3 (field_name f))) = Some d \<and>
           en d \<noteq> None"
  using assms
  by (auto simp: enable_field_def Let_def update_conv' split: option.splits if_splits)

lemma model_kept_en:
  assumes "model_kept ps ps'" and "map_of ps p = Some per" and "map_of (signals per) sg = Some d"
    and "en d \<noteq> None"
  shows "\<exists>per' d'. map_of ps' p = Some per' \<and> map_of (signals per') sg = Some d' \<and> en d' = en d"
proof -
  from assms(1,2) obtain per' where p': "map_of ps' p = Some per'" and k: "peripheral_kept per per'"
    unfolding model_kept_def by blast
  from k assms(3) obtain d' where "map_of (signals per') sg = Some d'" and "signal_kept d d'"
    unfolding peripheral_kept_def by blast
  with assms(4) p' show ?thesis by (auto simp: signal_kept_def)
qed

lemma parse_svd_file_registers:
  "parse_svd_file ps dev = Inr ps' \<Longrightarrow> for_loop svd_register_step ps (gpio_registers dev) = Inr ps'"
  by (auto simp: parse_svd_file_def gpio_registers_def split: option.splits)

lemma enable_field_in_parse_svd:
  assumes run: "parse_svd ps devs = Inr ps'" and dev: "dev \<in> set devs"
    and reg: "reg \<in> set (gpio_registers dev)" and name: "endswith (reg_name reg) ''_ROUTEEN''"
    and f: "f \<in> set (reg_fields reg)" and fname: "endswith (field_name f) ''PEN''"
  shows "\<exists>per d. map_of ps' (rename peripheral_rename_map (chop 8 (reg_name reg))) = Some per \<and>
           map_of (signals per) (rename signal_rename_map (chop 3 (field_name f))) = Some d \<and>
           en d \<noteq> None"
proof -
  let ?p = "rename peripheral_rename_map (chop 8 (reg_name reg))"
  let ?sg = "rename signal_rename_map (chop 3 (field_name f))"
  from run have "for_loop parse_svd_file ps devs = Inr ps'" by (simp add: parse_svd_def)
  from for_loop_member_rel [where R = model_kept, OF this dev]
  obtain a1 a2 where a: "parse_svd_file a1 dev = Inr a2" and ka: "model_kept a2 ps'"
    by (auto intro: parse_svd_file_kept model_kept_refl model_kept_trans)
  from for_loop_member_rel [where R = model_kept, OF parse_svd_file_registers [OF a] reg]
  obtain b1 b2 where b: "svd_register_step b1 reg = Inr b2" and kb: "model_kept b2 a2"
    by (auto intro: svd_register_step_kept model_kept_refl model_kept_trans)
  from b name have "enable_register b1 reg = Inr b2"
    by (auto simp: svd_register_step_def routeen_not_route split: sum.splits)
  then have "for_loop (enable_field ?p) (ensure_peripheral ?p (address_offset reg) b1)
      (reg_fields reg) = Inr b2"
    by (simp add: enable_register_def Let_def)
  from for_loop_member_rel [where R = model_kept, OF this f]
  obtain c1 c2 where c: "enable_field ?p c1 f = Inr c2" and kc: "model_kept c2 b2"
    by (auto intro: enable_field_kept model_kept_refl model_kept_trans)
  from enable_field_sets [OF c fname]
  obtain per d where 1: "map_of c2 ?p = Some per" and 2: "map_of (signals per) ?sg = Some d"
    and 3: "en d \<noteq> None" by blast
  have "model_kept c2 ps'" using kc kb ka by (blast intro: model_kept_trans)
  from model_kept_en [OF this 1 2 3] 3 show ?thesis by auto
qed


text \<open>
  Claim C7. When \<open>parse_svd\<close> has read a file whose \<open>GPIO_NS\<close> peripheral has the register
  \<open>FRC_ROUTEEN\<close> with a field \<open>CCC0PEN\<close>, the model has the peripheral \<open>PTI\<close> with the
  signal \<open>CDTI0\<close>, whose enable bit is set. A rename table maps a name it holds and leaves
  any other name as it is.
\<close>

theorem frc_ccc0_renamed:
  "(parse_svd ps devs = Inr ps' \<and> dev \<in> set devs \<and> reg \<in> set (gpio_registers dev) \<and>
      reg_name reg = ''FRC_ROUTEEN'' \<and> f \<in> set (reg_fields reg) \<and> field_name f = ''CCC0PEN''
    \<longrightarrow> (\<exists>per d. map_of ps' ''PTI'' = Some per \<and> map_of (signals per) ''CDTI0'' = Some d \<and>
           en d \<noteq> None)) \<and>
   (map_of table name = None \<longrightarrow> rename table name = name) \<and>
   (map_of table name = Some name' \<longrightarrow> rename table name = name')"
proof (intro conjI impI)
  assume a: "parse_svd ps devs = Inr ps' \<and> dev \<in> set devs \<and> reg \<in> set (gpio_registers dev) \<and>
      reg_name reg = ''FRC_ROUTEEN'' \<and> f \<in> set (reg_fields reg) \<and> field_name f = ''CCC0PEN''"
  have r: "endswith ''FRC_ROUTEEN'' ''_ROUTEEN''" by code_simp
  have p: "endswith ''CCC0PEN'' ''PEN''" by code_simp
  have n1: "rename peripheral_rename_map (chop 8 ''FRC_ROUTEEN'') = ''PTI''" by code_simp
  have n2: "rename signal_rename_map (chop 3 ''CCC0PEN'') = ''CDTI0''" by code_simp
  from a enable_field_in_parse_svd [of ps devs ps' dev reg f] r p
  show "\<exists>per d. map_of ps' ''PTI'' = Some per \<and> map_of (signals per) ''CDTI0'' = Some d \<and>
           en d \<noteq> None"
    by (simp add: n1 n2)
qed (simp_all add: rename_def)

theorem frc_ccc0_renamed_witness:
  "parse_svd [] [frc_svd] =
     Inr [(''PTI'', \<lparr>base = 31, signals =
            [(''CDTI0'', \<lparr>en = Some 2, route = None, pinout = None\<rparr>)]\<rparr>)] \<and>
   (\<exists>per d. map_of [(''PTI'', \<lparr>base = 31, signals =
            [(''CDTI0'', \<lparr>en = Some 2, route = None, pinout = None\<rparr>)]\<rparr>)] ''PTI'' = Some per \<and>
        map_of (signals per) ''CDTI0'' = Some d \<and> en d \<noteq> None) \<and>
   map_of peripheral_rename_map ''TIMER0'' = None \<and>
   rename peripheral_rename_map ''TIMER0'' = ''TIMER0'' \<and>
   map_of signal_rename_map ''CCC0'' = Some ''CDTI0'' \<and>
   rename signal_rename_map ''CCC0'' = ''CDTI0''"
proof -
  let ?reg = "\<lparr>reg_name = ''FRC_ROUTEEN'', address_offset = 0x7C,
           reg_fields = [\<lparr>field_name = ''CCC0PEN'', bit_offset = 2\<rparr>]\<rparr>"
  let ?f = "\<lparr>field_name = ''CCC0PEN'', bit_offset = 2\<rparr>"
  let ?m = "[(''PTI'', \<lparr>base = 31, signals =
            [(''CDTI0'', \<lparr>en = Some 2, route = None, pinout = None\<rparr>)]\<rparr>)]"
  have run: "parse_svd [] [frc_svd] = Inr ?m" by code_simp
  have regs: "gpio_registers frc_svd = [?reg]" by code_simp
  have n: "map_of peripheral_rename_map ''TIMER0'' = None" by code_simp
  have s: "map_of signal_rename_map ''CCC0'' = Some ''CDTI0''" by code_simp
  from frc_ccc0_renamed [of "[]" "[frc_svd]" "?m" frc_svd "?reg" "?f" peripheral_rename_map "''TIMER0''"]
    run regs n
  have 1: "(\<exists>per d. map_of ?m ''PTI'' = Some per \<and> map_of (signals per) ''CDTI0'' = Some d \<and>
           en d \<noteq> None)" and 2: "rename peripheral_rename_map ''TIMER0'' = ''TIMER0''"
    by simp_all
  from frc_ccc0_renamed [of _ _ _ _ _ _ signal_rename_map "''CCC0''" "''CDTI0''"] s
  have 3: "rename signal_rename_map ''CCC0'' = ''CDTI0''" by simp
  from run 1 2 3 n s show ?thesis by blast
qed

subsection \<open>Registers whose name ends in \<open>ROUTE\<close>\<close>

lemma split1_first:
  assumes "c \<notin> set p0"
  shows "split1 c (p0 @ c # rest) = [p0, rest]"
proof -
  have d: "dropWhile (\<lambda>x. x \<noteq> c) (p0 @ c # rest) = c # rest"
    using assms by (subst dropWhile_append2) auto
  have t: "takeWhile (\<lambda>x. x \<noteq> c) (p0 @ c # rest) = p0"
    using assms by (subst takeWhile_append2) auto
  show ?thesis by (simp add: split1_def d t)
qed

lemma split1_none:
  assumes "c \<notin> set s"
  shows "split1 c s = [s]"
proof (cases "dropWhile (\<lambda>x. x \<noteq> c) s")
  case Nil
  show ?thesis unfolding split1_def Nil by simp
next
  case (Cons y ys)
  then have "y \<in> set s" and "y = c"
    using set_dropWhileD [of y "\<lambda>x. x \<noteq> c" s] hd_dropWhile [of "\<lambda>x. x \<noteq> c" s]
    by auto
  with assms show ?thesis by simp
qed

lemma chop_append: "length suf = n \<Longrightarrow> chop n (s @ suf) = s"
  by (simp add: chop_def)

lemma rename_signal_base: "rename signal_rename_map s = ''_base'' \<longleftrightarrow> s = ''_base''"
  by (auto simp: rename_def signal_rename_map_def split: option.splits if_splits)

lemma route_name_form:
  assumes "endswith name ''ROUTE''" and "CHR ''_'' \<in> set name"
  shows "\<exists>p0 s0. name = p0 @ ''_'' @ s0 @ ''ROUTE'' \<and> CHR ''_'' \<notin> set p0"
proof -
  from assms(1) obtain pre where pre: "name = pre @ ''ROUTE''" by (auto simp: endswith_iff)
  with assms(2) have "CHR ''_'' \<in> set pre" by auto
  then obtain p0 s0 where "pre = p0 @ CHR ''_'' # s0" and "CHR ''_'' \<notin> set p0"
    by (auto dest: split_list_first)
  with pre show ?thesis by auto
qed

lemma route_register_no_separator:
  "CHR ''_'' \<notin> set (reg_name reg) \<Longrightarrow> route_register ps reg = Inl ValueError"
  by (simp add: route_register_def split1_none)

lemma route_step_no_separator:
  assumes "endswith (reg_name reg) ''ROUTE''" and "CHR ''_'' \<notin> set (reg_name reg)"
  shows "svd_register_step ps reg = Inl ValueError"
proof -
  from assms(2) have "\<not> endswith (reg_name reg) ''_ROUTEEN''"
    using routeen_underscore by blast
  with assms show ?thesis
    by (simp add: svd_register_step_def route_register_no_separator)
qed

text \<open>
  Claim C9. A register whose name ends in \<open>ROUTE\<close> and has no underscore makes the step of
  \<open>parse_svd\<close> raise \<open>ValueError\<close> (the split gives one part, the assignment wants two);
  it is neither skipped nor warned about. So whenever \<open>parse_svd\<close> returns, every register
  of the \<open>GPIO_NS\<close> peripherals it has read whose name ends in \<open>ROUTE\<close> has an underscore.
\<close>

theorem route_name_needs_separator:
  "(endswith (reg_name reg) ''ROUTE'' \<and> CHR ''_'' \<notin> set (reg_name reg) \<longrightarrow>
      svd_register_step ps0 reg = Inl ValueError) \<and>
   (parse_svd ps devs = Inr ps' \<and> dev \<in> set devs \<and> r \<in> set (gpio_registers dev) \<and>
      endswith (reg_name r) ''ROUTE'' \<longrightarrow> CHR ''_'' \<in> set (reg_name r))"
proof (intro conjI impI)
  assume "endswith (reg_name reg) ''ROUTE'' \<and> CHR ''_'' \<notin> set (reg_name reg)"
  then show "svd_register_step ps0 reg = Inl ValueError"
    by (simp add: route_step_no_separator)
next
  assume a: "parse_svd ps devs = Inr ps' \<and> dev \<in> set devs \<and> r \<in> set (gpio_registers dev) \<and>
      endswith (reg_name r) ''ROUTE''"
  then have "for_loop parse_svd_file ps devs = Inr ps'" by (simp add: parse_svd_def)
  from for_loop_member [OF this, of dev] a
  obtain a1 a2 where "parse_svd_file a1 dev = Inr a2" by blast
  from for_loop_member [OF parse_svd_file_registers [OF this], of r] a
  obtain b1 b2 where b: "svd_register_step b1 r = Inr b2" by blast
  show "CHR ''_'' \<in> set (reg_name r)"
  proof (rule ccontr)
    assume "CHR ''_'' \<notin> set (reg_name r)"
    with a have "svd_register_step b1 r = Inl ValueError" by (simp add: route_step_no_separator)
    with b show False by simp
  qed
qed

theorem route_name_needs_separator_witness:
  "endswith ''ROUTE'' ''ROUTE'' \<and> CHR ''_'' \<notin> set ''ROUTE'' \<and>
   svd_register_step [] \<lparr>reg_name = ''ROUTE'', address_offset = 0x10, reg_fields = []\<rparr>
     = Inl ValueError \<and>
   parse_svd [] [bare_route_svd] = Inl ValueError \<and>
   parse_svd [] [timer_svd] = Inr timer_model \<and>
   \<lparr>reg_name = ''TIMER0_CC0ROUTE'', address_offset = 0x24, reg_fields = []\<rparr>
     \<in> set (gpio_registers timer_svd) \<and>
   endswith ''TIMER0_CC0ROUTE'' ''ROUTE'' \<and> CHR ''_'' \<in> set ''TIMER0_CC0ROUTE''"
proof -
  let ?bare = "\<lparr>reg_name = ''ROUTE'', address_offset = 0x10, reg_fields = []\<rparr>"
  let ?r = "\<lparr>reg_name = ''TIMER0_CC0ROUTE'', address_offset = 0x24, reg_fields = []\<rparr>"
  have 1: "endswith ''ROUTE'' ''ROUTE''" by code_simp
  have 2: "CHR ''_'' \<notin> set ''ROUTE''" by simp
  have 3: "parse_svd [] [bare_route_svd] = Inl ValueError" by code_simp
  have 4: "parse_svd [] [timer_svd] = Inr timer_model" by code_simp
  have 5: "?r \<in> set (gpio_registers timer_svd)" by (simp add: gpio_registers_def timer_svd_def)
  have 6: "endswith ''TIMER0_CC0ROUTE'' ''ROUTE''" by code_simp
  from route_name_needs_separator [of "?bare" "[]" "[]" "[timer_svd]" timer_model timer_svd "?r"]
    1 2 4 5 6
  have "svd_register_step [] ?bare = Inl ValueError" and "CHR ''_'' \<in> set ''TIMER0_CC0ROUTE''"
    by simp_all
  with 1 2 3 4 5 6 show ?thesis by blast
qed

text \<open>
  Claim C8. A register called \<open>p0_s0ROUTE\<close>, with no underscore in \<open>p0\<close> (so that the first
  underscore of the name is the one after \<open>p0\<close>) and \<open>s0\<close> other than the reserved key
  \<open>_base\<close>, is processed without an exception, and it touches only the signal \<open>s0\<close> of the
  peripheral \<open>p0\<close> (both under their canonical names). When the peripheral is new, it is
  created with the word offset of this register as its base, and the signal gets the route
  offset 0. When the peripheral is there, its base stays, and the signal gets the route
  offset "word offset of the register minus base" unless it has a route offset already,
  which then stays.
\<close>

theorem route_register_sets_offset:
  assumes name: "reg_name reg = p0 @ ''_'' @ s0 @ ''ROUTE''"
    and p0: "CHR ''_'' \<notin> set p0"
    and s0: "s0 \<noteq> ''_base''"
  shows "\<exists>ps'. svd_register_step ps reg = Inr ps' \<and>
          (\<forall>q. q \<noteq> rename peripheral_rename_map p0 \<longrightarrow> map_of ps' q = map_of ps q) \<and>
          (case map_of ps (rename peripheral_rename_map p0) of
             None \<Rightarrow>
               map_of ps' (rename peripheral_rename_map p0) =
                 Some \<lparr>base = address_offset reg div 4,
                       signals = [(rename signal_rename_map s0,
                                   \<lparr>en = None, route = Some 0, pinout = None\<rparr>)]\<rparr>
           | Some per \<Rightarrow>
               (\<exists>per'. map_of ps' (rename peripheral_rename_map p0) = Some per' \<and>
                  base per' = base per \<and>
                  (\<forall>s. s \<noteq> rename signal_rename_map s0 \<longrightarrow>
                     map_of (signals per') s = map_of (signals per) s) \<and>
                  map_of (signals per') (rename signal_rename_map s0) =
                    Some (case map_of (signals per) (rename signal_rename_map s0) of
                            None \<Rightarrow> \<lparr>en = None,
                                      route = Some (address_offset reg div 4 - base per),
                                      pinout = None\<rparr>
                          | Some d \<Rightarrow>
                              if route d = None
                              then d\<lparr>route := Some (address_offset reg div 4 - base per)\<rparr>
                              else d)))"
proof -
  let ?p = "rename peripheral_rename_map p0"
  let ?sg = "rename signal_rename_map s0"
  have e: "endswith (reg_name reg) ''ROUTE''"
    unfolding endswith_iff name by (rule exI [of _ "p0 @ ''_'' @ s0"]) simp
  then have ne: "\<not> endswith (reg_name reg) ''_ROUTEEN''"
    using routeen_not_route by blast
  have sp: "split1 (CHR ''_'') (reg_name reg) = [p0, s0 @ ''ROUTE'']"
    using split1_first [OF p0, of "s0 @ ''ROUTE''"] by (simp add: name)
  have ch: "chop 5 (s0 @ ''ROUTE'') = s0" by (simp add: chop_append)
  have sg: "?sg \<noteq> ''_base''" using s0 by (simp add: rename_signal_base)
  have step: "svd_register_step ps reg = route_register ps reg"
    using e ne by (simp add: svd_register_step_def)
  show ?thesis
  proof (cases "map_of ps ?p")
    case None
    then show ?thesis
      using sg
      by (simp add: step route_register_def sp ch Let_def ensure_peripheral_def
          ensure_signal_def empty_signal_def update_conv')
  next
    case (Some per)
    then show ?thesis
      using sg
      by (auto simp: step route_register_def sp ch Let_def ensure_peripheral_def
          ensure_signal_def empty_signal_def update_conv' split: option.splits)
  qed
qed

theorem route_register_sets_offset_witness:
  "''TIMER0_CC0ROUTE'' = ''TIMER0'' @ ''_'' @ ''CC0'' @ ''ROUTE'' \<and>
   CHR ''_'' \<notin> set ''TIMER0'' \<and> ''CC0'' \<noteq> ''_base'' \<and>
   (\<exists>ps'. svd_register_step enabled_timer_model
             \<lparr>reg_name = ''TIMER0_CC0ROUTE'', address_offset = 0x24, reg_fields = []\<rparr> = Inr ps' \<and>
      (\<exists>per'. map_of ps' ''TIMER0'' = Some per' \<and> base per' = 8 \<and>
         map_of (signals per') ''CC0'' = Some \<lparr>en = Some 0, route = Some 1, pinout = None\<rparr>))"
proof -
  let ?reg = "\<lparr>reg_name = ''TIMER0_CC0ROUTE'', address_offset = 0x24, reg_fields = []\<rparr>"
  have n: "reg_name ?reg = ''TIMER0'' @ ''_'' @ ''CC0'' @ ''ROUTE''" by simp
  have p: "CHR ''_'' \<notin> set ''TIMER0''" by simp
  have s: "''CC0'' \<noteq> ''_base''" by simp
  have rp: "rename peripheral_rename_map ''TIMER0'' = ''TIMER0''" by code_simp
  have rs: "rename signal_rename_map ''CC0'' = ''CC0''" by code_simp
  from route_register_sets_offset [OF n p s, of enabled_timer_model]
  have "\<exists>ps'. svd_register_step enabled_timer_model ?reg = Inr ps' \<and>
      (\<exists>per'. map_of ps' ''TIMER0'' = Some per' \<and> base per' = 8 \<and>
         map_of (signals per') ''CC0'' = Some \<lparr>en = Some 0, route = Some 1, pinout = None\<rparr>)"
    unfolding rp rs by (auto simp: enabled_timer_model_def)
  with p s show ?thesis by simp
qed

section \<open>Properties of \<open>write_header\<close>\<close>

lemma for_loop_Inl:
  "for_loop f s xs = Inl e \<Longrightarrow> \<exists>x\<in>set xs. \<exists>s1. f s1 x = Inl e"
  by (induction xs arbitrary: s) (auto split: sum.splits)

lemma pin_step_Inr:
  "pin_step p sg port lines pin = Inr lines' \<Longrightarrow>
     chr_ok port \<and> lines' = lines @ [pin_define p sg (port_letter port) port pin]"
  by (auto simp: pin_step_def chr_py_def chr_ok_def port_letter_def split: sum.splits if_splits)

lemma pin_step_Inl:
  "pin_step p sg port lines pin = Inl e \<Longrightarrow>
     \<not> chr_ok port \<and> (e = ValueError \<or> e = OverflowError)"
  by (auto simp: pin_step_def chr_py_def chr_ok_def split: sum.splits if_splits)

lemma pins_loop_Inr:
  "for_loop (pin_step p sg port) lines pins = Inr lines' \<Longrightarrow>
     lines' = lines @ map (pin_define p sg (port_letter port) port) pins"
proof (induction pins arbitrary: lines)
  case Nil
  then show ?case by simp
next
  case (Cons pin pins)
  from Cons.prems obtain l1 where 1: "pin_step p sg port lines pin = Inr l1"
    and 2: "for_loop (pin_step p sg port) l1 pins = Inr lines'"
    by (auto split: sum.splits)
  from pin_step_Inr [OF 1] Cons.IH [OF 2] show ?case by simp
qed

lemma port_step_Inr:
  "port_step p sg lines (port, pins) = Inr lines' \<Longrightarrow>
     lines' = lines @ map (pin_define p sg (port_letter port) port) (sorted_list_of_set pins)"
  by (simp add: port_step_def pins_loop_Inr)

lemma ports_loop_Inr:
  "for_loop (port_step p sg) lines po = Inr lines' \<Longrightarrow>
     lines' = lines @ concat (map (\<lambda>(port, pins).
        map (pin_define p sg (port_letter port) port) (sorted_list_of_set pins)) po)"
proof (induction po arbitrary: lines)
  case Nil
  then show ?case by simp
next
  case (Cons a po)
  obtain port pins where a: "a = (port, pins)" by (cases a)
  from Cons.prems obtain l1 where 1: "port_step p sg lines (port, pins) = Inr l1"
    and 2: "for_loop (port_step p sg) l1 po = Inr lines'"
    by (auto simp: a split: sum.splits)
  from port_step_Inr [OF 1] Cons.IH [OF 2] show ?case by (simp add: a)
qed

lemma pinout_signal_Inr:
  "pinout_signal p lines (sg, d) = Inr lines' \<Longrightarrow>
     \<exists>po. pinout d = Some po \<and>
       lines' = lines @ concat (map (\<lambda>(port, pins).
          map (pin_define p sg (port_letter port) port) (sorted_list_of_set pins)) po)"
  by (auto simp: pinout_signal_def split: option.splits dest: ports_loop_Inr)

lemma update_keys_order:
  "map fst (AList.update k v al) = (if k \<in> set (map fst al) then map fst al else map fst al @ [k])"
  by (induction al) auto

lemma add_location_keys:
  assumes "add_location po loc = Inr po'"
  shows "\<exists>port pin. portBankIndex loc = IntVal port \<and> pinIndex loc = IntVal pin \<and>
           map fst po' = (if port \<in> set (map fst po) then map fst po else map fst po @ [port])"
proof -
  from assms obtain port where port: "portBankIndex loc = IntVal port"
    by (cases "portBankIndex loc") (auto simp: add_location_def)
  from assms port obtain pin where pin: "pinIndex loc = IntVal pin"
    by (cases "pinIndex loc") (auto simp: add_location_def)
  have "map fst po' = (if port \<in> set (map fst po) then map fst po else map fst po @ [port])"
  proof (cases "map_of po port")
    case None
    then have "port \<notin> set (map fst po)" by (simp add: map_of_eq_None_iff)
    with assms port pin None show ?thesis
      by (auto simp: add_location_def Let_def update_keys_order update_conv')
  next
    case (Some pins)
    then have k: "port \<in> fst ` set po" by (metis map_of_eq_None_iff option.distinct(1))
    from assms port pin Some have "po' = AList.update port (insert pin pins) po"
      by (simp add: add_location_def Let_def)
    with k show ?thesis by (simp add: update_keys_order)
  qed
  with port pin show ?thesis by blast
qed

lemma letters: "port_letter 0 = ''A''" "port_letter 1 = ''B''" "port_letter 2 = ''C''" "port_letter 3 = ''D''"
  by code_simp+

lemma route_signals_loop:
  "foldl (route_signal p per) (lines, printed) sigs =
     (lines @ concat (map (\<lambda>(sg, d). case route d of
                                 Some r \<Rightarrow> [dbus_define p (base per) sg d r]
                               | None \<Rightarrow> []) sigs),
      printed @ concat (map (\<lambda>(sg, d). case route d of
                                 Some r \<Rightarrow> []
                               | None \<Rightarrow> [no_route_warning p sg]) sigs))"
  by (induction sigs arbitrary: lines printed)
     (auto simp: route_signal_def split: option.splits)

lemma route_peripherals_loop:
  "foldl route_peripheral (lines, printed) ps =
     (lines @ dbus_lines ps, printed @ route_warnings ps)"
  by (induction ps arbitrary: lines printed)
     (auto simp: route_peripheral_def route_signals_loop dbus_lines_def route_warnings_def)

lemma write_header_printed: "fst (write_header family ps) = route_warnings ps"
  by (simp add: write_header_def route_peripherals_loop)

lemma write_header_cases:
  "snd (write_header family ps) =
     (case for_loop pinout_peripheral (header_lines family @ dbus_lines ps) ps of
        Inl e \<Rightarrow> Inl e
      | Inr l \<Rightarrow> write_text ps (l @ [[]]))"
  by (simp add: write_header_def route_peripherals_loop)

lemma pinout_signals_loop:
  "for_loop (pinout_signal p) lines sigs = Inr lines' \<Longrightarrow>
     (\<forall>(sg, d) \<in> set sigs. pinout d \<noteq> None) \<and>
     lines' = lines @
       concat (map (\<lambda>(sg, d). case pinout d of
                                 None \<Rightarrow> []
                               | Some po \<Rightarrow>
                                   concat (map (\<lambda>(port, pins).
                                     map (pin_define p sg (port_letter port) port)
                                       (sorted_list_of_set pins)) po)) sigs)"
proof (induction sigs arbitrary: lines)
  case Nil
  then show ?case by simp
next
  case (Cons a sigs)
  obtain sg d where a: "a = (sg, d)" by (cases a)
  from Cons.prems obtain l1 where 1: "pinout_signal p lines (sg, d) = Inr l1"
    and 2: "for_loop (pinout_signal p) l1 sigs = Inr lines'"
    by (auto simp: a split: sum.splits)
  from pinout_signal_Inr [OF 1] Cons.IH [OF 2] show ?case by (auto simp: a)
qed

lemma pinout_peripherals_loop:
  "for_loop pinout_peripheral lines ps = Inr lines' \<Longrightarrow>
     (\<forall>(p, per) \<in> set ps. \<forall>(sg, d) \<in> set (signals per). pinout d \<noteq> None) \<and>
     lines' = lines @ pin_lines ps"
proof (induction ps arbitrary: lines)
  case Nil
  then show ?case by (simp add: pin_lines_def)
next
  case (Cons a ps)
  obtain p per where a: "a = (p, per)" by (cases a)
  from Cons.prems obtain l1 where 0: "pinout_peripheral lines (p, per) = Inr l1"
    and 2: "for_loop pinout_peripheral l1 ps = Inr lines'"
    by (auto simp: a split: sum.splits)
  from 0 have 1: "for_loop (pinout_signal p) (lines @ [[]]) (signals per) = Inr l1"
    by (simp add: pinout_peripheral_def)
  from pinout_signals_loop [OF 1] Cons.IH [OF 2] show ?case
    by (auto simp: a pin_lines_def)
qed

lemma write_header_Inr:
  assumes "snd (write_header family ps) = Inr out"
  shows "(\<forall>(p, per) \<in> set ps. \<forall>(sg, d) \<in> set (signals per). pinout d \<noteq> None) \<and>
         out = header_lines family @ dbus_lines ps @ pin_lines ps @ [[]]"
proof -
  from assms obtain l where "for_loop pinout_peripheral (header_lines family @ dbus_lines ps) ps = Inr l"
    and "out = l @ [[]]"
    by (auto simp: write_header_cases write_text_def split: sum.splits if_splits)
  with pinout_peripherals_loop [of "header_lines family @ dbus_lines ps" ps l]
  show ?thesis by simp
qed

lemma pinout_loop_error:
  assumes "for_loop pinout_peripheral lines ps = Inl e"
  shows "e = KeyError \<or>
         ((e = ValueError \<or> e = OverflowError) \<and>
          (\<exists>(p, per) \<in> set ps. \<exists>(sg, d) \<in> set (signals per). \<exists>po. pinout d = Some po \<and>
             (\<exists>(port, pins) \<in> set po. \<not> chr_ok port)))"
proof -
  from for_loop_Inl [OF assms] obtain p per l1 where
    1: "(p, per) \<in> set ps" and "pinout_peripheral l1 (p, per) = Inl e" by auto
  then have "for_loop (pinout_signal p) (l1 @ [[]]) (signals per) = Inl e"
    by (simp add: pinout_peripheral_def)
  from for_loop_Inl [OF this] obtain sg d l2 where
    2: "(sg, d) \<in> set (signals per)" and 3: "pinout_signal p l2 (sg, d) = Inl e" by auto
  show ?thesis
  proof (cases "pinout d")
    case None
    with 3 show ?thesis by (simp add: pinout_signal_def)
  next
    case (Some po)
    with 3 have "for_loop (port_step p sg) l2 po = Inl e" by (simp add: pinout_signal_def)
    from for_loop_Inl [OF this] obtain port pins l3 where
      4: "(port, pins) \<in> set po" and "port_step p sg l3 (port, pins) = Inl e" by auto
    then have "for_loop (pin_step p sg port) l3 (sorted_list_of_set pins) = Inl e"
      by (simp add: port_step_def)
    from for_loop_Inl [OF this] obtain pin l4 where "pin_step p sg port l4 pin = Inl e" by auto
    then have "\<not> chr_ok port" and "e = ValueError \<or> e = OverflowError"
      by (auto dest: pin_step_Inl)
    with 1 2 4 Some show ?thesis by blast
  qed
qed

lemma write_header_KeyError:
  assumes missing: "\<exists>(p, per) \<in> set ps. \<exists>(sg, d) \<in> set (signals per). pinout d = None"
    and ok: "\<forall>(p, per) \<in> set ps. \<forall>(sg, d) \<in> set (signals per). \<forall>po. pinout d = Some po \<longrightarrow>
               (\<forall>(port, pins) \<in> set po. chr_ok port)"
  shows "snd (write_header family ps) = Inl KeyError"
proof (cases "snd (write_header family ps)")
  case (Inr out)
  from write_header_Inr [OF this] missing show ?thesis by fastforce
next
  case (Inl e)
  show ?thesis
  proof (cases "for_loop pinout_peripheral (header_lines family @ dbus_lines ps) ps")
    case loop: (Inl e')
    with Inl have "e' = e" by (simp add: write_header_cases)
    with loop pinout_loop_error [of "header_lines family @ dbus_lines ps" ps e] ok
    have "e = KeyError" by fastforce
    with Inl show ?thesis by simp
  next
    case (Inr l)
    from pinout_peripherals_loop [OF this] missing show ?thesis by fastforce
  qed
qed

text \<open>
  Claim C3, as amended. When \<open>write_header\<close> returns, the lines after the parameterized
  definitions are, for each peripheral, an empty line and then, for each signal in turn
  and for each port of its pinout in the order of the dictionary, the definitions of the
  pins of that port in ascending order. The order of the dictionary is the order in which
  \<open>parse_pin_tool\<close> first met the ports: \<open>add_location\<close> puts a new port at the end and
  leaves the place of a known one. The port is a letter (\<open>chr(65 + port)\<close>: 0 is A, 1 is B)
  in the name that is defined only; the arguments of the call are the two integers.
\<close>

theorem pin_definitions_order:
  "(snd (write_header family ps) = Inr out \<longrightarrow>
      out = header_lines family @ dbus_lines ps @
        concat (map (\<lambda>(p, per). [] #
          concat (map (\<lambda>(sg, d). case pinout d of
                                    None \<Rightarrow> []
                                  | Some po \<Rightarrow>
                                      concat (map (\<lambda>(port, pins).
                                        map (pin_define p sg (port_letter port) port)
                                          (sorted_list_of_set pins)) po)) (signals per))) ps)
        @ [[]]) \<and>
   (add_location po loc = Inr po' \<longrightarrow>
      (\<exists>port pin. portBankIndex loc = IntVal port \<and> pinIndex loc = IntVal pin \<and>
         map fst po' = (if port \<in> set (map fst po) then map fst po else map fst po @ [port]))) \<and>
   sorted_wrt (<) (sorted_list_of_set (pins :: int set)) \<and>
   (finite pins \<longrightarrow> set (sorted_list_of_set pins) = pins) \<and>
   pin_define p sg letter port pin =
     ''#define '' @ p @ ''_'' @ sg @ ''_P'' @ letter @ str_int pin
       @ '' SILABS_DBUS_'' @ p @ ''_'' @ sg @ ''('' @ str_int port @ '', '' @ str_int pin @ '')'' \<and>
   port_letter 0 = ''A'' \<and> port_letter 1 = ''B'' \<and> port_letter 2 = ''C'' \<and> port_letter 3 = ''D''"
proof (intro conjI impI)
  assume "snd (write_header family ps) = Inr out"
  from write_header_Inr [OF this]
  show "out = header_lines family @ dbus_lines ps @
        concat (map (\<lambda>(p, per). [] #
          concat (map (\<lambda>(sg, d). case pinout d of
                                    None \<Rightarrow> []
                                  | Some po \<Rightarrow>
                                      concat (map (\<lambda>(port, pins).
                                        map (pin_define p sg (port_letter port) port)
                                          (sorted_list_of_set pins)) po)) (signals per))) ps)
        @ [[]]"
    by (simp add: pin_lines_def)
next
  assume "add_location po loc = Inr po'"
  then show "\<exists>port pin. portBankIndex loc = IntVal port \<and> pinIndex loc = IntVal pin \<and>
         map fst po' = (if port \<in> set (map fst po) then map fst po else map fst po @ [port])"
    by (rule add_location_keys)
next
  show "sorted_wrt (<) (sorted_list_of_set pins)" by (rule strict_sorted_list_of_set)
next
  assume "finite pins"
  then show "set (sorted_list_of_set pins) = pins" by simp
next
  show "pin_define p sg letter port pin =
     ''#define '' @ p @ ''_'' @ sg @ ''_P'' @ letter @ str_int pin
       @ '' SILABS_DBUS_'' @ p @ ''_'' @ sg @ ''('' @ str_int port @ '', '' @ str_int pin @ '')''"
    by (simp add: pin_define_def)
qed (rule letters)+

theorem pin_definitions_order_witness:
  "write_header ''xg24'' timer_model_ba =
     ([], Inr (header_lines ''xg24'' @ dbus_lines timer_model_ba @
        [[],
         ''#define TIMER0_CC0_PB2 SILABS_DBUS_TIMER0_CC0(1, 2)'',
         ''#define TIMER0_CC0_PA5 SILABS_DBUS_TIMER0_CC0(0, 5)'',
         []])) \<and>
   add_location [(1, {2})] \<lparr>portBankIndex = IntVal 0, pinIndex = IntVal 5\<rparr>
     = Inr [(1, {2}), (0, {5})] \<and>
   pin_lines timer_model_ba =
     [[],
      ''#define TIMER0_CC0_PB2 SILABS_DBUS_TIMER0_CC0(1, 2)'',
      ''#define TIMER0_CC0_PA5 SILABS_DBUS_TIMER0_CC0(0, 5)''] \<and>
   map fst [(1 :: int, {2 :: int}), (0, {5})] = map fst [(1 :: int, {2 :: int})] @ [0] \<and>
   finite {2 :: int, 7} \<and> set (sorted_list_of_set {2 :: int, 7}) = {2, 7}"
proof -
  let ?out = "header_lines ''xg24'' @ dbus_lines timer_model_ba @
        [[],
         ''#define TIMER0_CC0_PB2 SILABS_DBUS_TIMER0_CC0(1, 2)'',
         ''#define TIMER0_CC0_PA5 SILABS_DBUS_TIMER0_CC0(0, 5)'',
         []]"
  let ?loc = "\<lparr>portBankIndex = IntVal 0, pinIndex = IntVal 5\<rparr>"
  have 1: "write_header ''xg24'' timer_model_ba = ([], Inr ?out)" by code_simp
  have 2: "add_location [(1, {2})] ?loc = Inr [(1, {2}), (0, {5})]" by code_simp
  have 3: "finite {2 :: int, 7}" by simp
  note t = pin_definitions_order [of "''xg24''" timer_model_ba "?out" "[(1, {2})]" "?loc"
      "[(1, {2}), (0, {5})]" "{2, 7}"]
  from t have "snd (write_header ''xg24'' timer_model_ba) = Inr ?out \<longrightarrow>
      ?out = header_lines ''xg24'' @ dbus_lines timer_model_ba @ pin_lines timer_model_ba @ [[]]"
    unfolding pin_lines_def by (rule conjunct1)
  with 1 have 6: "pin_lines timer_model_ba =
     [[],
      ''#define TIMER0_CC0_PB2 SILABS_DBUS_TIMER0_CC0(1, 2)'',
      ''#define TIMER0_CC0_PA5 SILABS_DBUS_TIMER0_CC0(0, 5)'']"
    by simp
  from t 2 have 4: "map fst [(1 :: int, {2 :: int}), (0, {5})] = map fst [(1 :: int, {2 :: int})] @ [0]"
    by simp
  from t 3 have 5: "set (sorted_list_of_set {2 :: int, 7}) = {2, 7}" by blast
  from 1 2 3 4 5 6 show ?thesis by blast
qed

text \<open>
  Claim C3 as stated fails: with one variant whose routing document has the location
  (1, 2) and a later one with (0, 5), the definition for port B is written before the one
  for port A, while ascending ports would give A first.
\<close>

theorem pin_definitions_order_counterexample:
  "main ''xg24''
     [\<lparr>svd_files = [timer_svd], pin_tool_files = [timer_portio_b]\<rparr>,
      \<lparr>svd_files = [timer_svd], pin_tool_files = [timer_portio]\<rparr>] =
     ([], Inr (header_lines ''xg24'' @
        [[],
         ''#define SILABS_DBUS_TIMER0_CC0(port, pin) SILABS_DBUS(port, pin, 8, 1, 0, 1)'',
         [],
         ''#define TIMER0_CC0_PB2 SILABS_DBUS_TIMER0_CC0(1, 2)'',
         ''#define TIMER0_CC0_PA5 SILABS_DBUS_TIMER0_CC0(0, 5)'',
         []])) \<and>
   build_model
     [\<lparr>svd_files = [timer_svd], pin_tool_files = [timer_portio_b]\<rparr>,
      \<lparr>svd_files = [timer_svd], pin_tool_files = [timer_portio]\<rparr>] = Inr timer_model_ba \<and>
   ports_ascending [(1, {2}), (0, {5})] = [(0, 5), (1, 2)]"
  by code_simp

section \<open>Properties of \<open>parse_pin_tool\<close>\<close>

lemma add_location_Inr:
  assumes "add_location po loc = Inr po'"
  shows "\<exists>port pin. location_pair loc = Some (port, pin) \<and>
           pinout_locations (Some po') = insert (port, pin) (pinout_locations (Some po))"
proof -
  from assms obtain port where port: "portBankIndex loc = IntVal port"
    by (cases "portBankIndex loc") (auto simp: add_location_def)
  from assms port obtain pin where pin: "pinIndex loc = IntVal pin"
    by (cases "pinIndex loc") (auto simp: add_location_def)
  have lp: "location_pair loc = Some (port, pin)" by (simp add: location_pair_def port pin)
  have "pinout_locations (Some po') = insert (port, pin) (pinout_locations (Some po))"
  proof (cases "map_of po port")
    case None
    with assms port pin have "po' = AList.update port {pin} (AList.update port {} po)"
      by (simp add: add_location_def Let_def update_conv')
    with None show ?thesis by (auto simp: pinout_locations_def update_conv' split: if_splits)
  next
    case (Some pins)
    with assms port pin have "po' = AList.update port (insert pin pins) po"
      by (simp add: add_location_def Let_def)
    with Some show ?thesis by (auto simp: pinout_locations_def update_conv' split: if_splits)
  qed
  with lp show ?thesis by blast
qed

lemma add_location_ok:
  "location_pair loc = Some pp \<Longrightarrow> \<exists>po'. add_location po loc = Inr po'"
  by (cases "portBankIndex loc"; cases "pinIndex loc")
     (auto simp: location_pair_def add_location_def Let_def update_conv')

lemma add_locations_Inr:
  "for_loop add_location po locs = Inr po' \<Longrightarrow>
     list_all (\<lambda>loc. location_pair loc \<noteq> None) locs \<and>
     pinout_locations (Some po') = pinout_locations (Some po) \<union> location_set locs"
proof (induction locs arbitrary: po)
  case Nil
  then show ?case by (simp add: location_set_def)
next
  case (Cons loc locs)
  from Cons.prems obtain po1 where 1: "add_location po loc = Inr po1"
    and 2: "for_loop add_location po1 locs = Inr po'"
    by (auto split: sum.splits)
  from add_location_Inr [OF 1] obtain port pin where lp: "location_pair loc = Some (port, pin)"
    and s: "pinout_locations (Some po1) = insert (port, pin) (pinout_locations (Some po))" by blast
  have "location_set (loc # locs) = insert (port, pin) (location_set locs)"
    using lp by (auto simp: location_set_def image_iff)
  with Cons.IH [OF 2] lp s show ?case by auto
qed

lemma add_locations_ok:
  "list_all (\<lambda>loc. location_pair loc \<noteq> None) locs \<Longrightarrow> \<exists>po'. for_loop add_location po locs = Inr po'"
proof (induction locs arbitrary: po)
  case Nil
  then show ?case by simp
next
  case (Cons loc locs)
  then obtain pp where "location_pair loc = Some pp" by auto
  from add_location_ok [OF this] obtain po1 where 1: "add_location po loc = Inr po1" by blast
  from Cons have "list_all (\<lambda>loc. location_pair loc \<noteq> None) locs" by simp
  from Cons.IH [OF this] obtain po' where "for_loop add_location po1 locs = Inr po'" by blast
  with 1 show ?case by simp
qed

lemma pin_tool_signal_eq:
  "pin_tool_signal tree p sg d =
     (case for_loop add_location (case pinout d of None \<Rightarrow> [] | Some po \<Rightarrow> po)
             (selected_locations tree p sg) of
        Inl e \<Rightarrow> Inl e
      | Inr po' \<Rightarrow> Inr (d\<lparr>pinout := Some po'\<rparr>))"
  by (simp add: pin_tool_signal_def selected_locations_def Let_def split: list.splits)

lemma pinout_locations_default:
  "pinout_locations (Some (case po of None \<Rightarrow> [] | Some al \<Rightarrow> al)) = pinout_locations po"
  by (simp add: pinout_locations_def split: option.splits)

lemma pin_tool_signal_Inr:
  assumes "pin_tool_signal tree p sg d = Inr d'"
  shows "en d' = en d \<and> route d' = route d \<and> pinout d' \<noteq> None \<and>
         list_all (\<lambda>loc. location_pair loc \<noteq> None) (selected_locations tree p sg) \<and>
         pinout_locations (pinout d') =
           pinout_locations (pinout d) \<union> location_set (selected_locations tree p sg)"
proof -
  from assms obtain po' where
    1: "for_loop add_location (case pinout d of None \<Rightarrow> [] | Some po \<Rightarrow> po)
          (selected_locations tree p sg) = Inr po'" and d': "d' = d\<lparr>pinout := Some po'\<rparr>"
    by (auto simp: pin_tool_signal_eq split: sum.splits)
  from add_locations_Inr [OF 1] show ?thesis
    by (simp add: d' pinout_locations_default)
qed

lemma pin_tool_signal_ok:
  assumes "list_all (\<lambda>loc. location_pair loc \<noteq> None) (selected_locations tree p sg)"
  shows "\<exists>d'. pin_tool_signal tree p sg d = Inr d'"
proof -
  from add_locations_ok [OF assms]
  obtain po' where "for_loop add_location (case pinout d of None \<Rightarrow> [] | Some po \<Rightarrow> po)
          (selected_locations tree p sg) = Inr po'" by blast
  then show ?thesis by (simp add: pin_tool_signal_eq)
qed

lemma for_items_all2:
  "for_items f kvs = Inr kvs' \<Longrightarrow>
     list_all2 (\<lambda>(k, v) (k', v'). k' = k \<and> f k v = Inr v') kvs kvs'"
proof (induction kvs arbitrary: kvs')
  case Nil
  then show ?case by simp
next
  case (Cons a kvs)
  obtain k v where a: "a = (k, v)" by (cases a)
  from Cons.prems obtain v' rest where 1: "f k v = Inr v'" and 2: "for_items f kvs = Inr rest"
    and 3: "kvs' = (k, v') # rest"
    by (auto simp: a split: sum.splits)
  from Cons.IH [OF 2] 1 show ?case by (simp add: a 3)
qed

lemma for_items_ok:
  "(\<And>k v. (k, v) \<in> set kvs \<Longrightarrow> \<exists>v'. f k v = Inr v') \<Longrightarrow> \<exists>kvs'. for_items f kvs = Inr kvs'"
proof (induction kvs)
  case Nil
  then show ?case by simp
next
  case (Cons a kvs)
  obtain k v where a: "a = (k, v)" by (cases a)
  from Cons.prems [of k v] obtain v' where 1: "f k v = Inr v'" by (auto simp: a)
  from Cons.IH Cons.prems obtain rest where "for_items f kvs = Inr rest" by auto
  with 1 show ?case by (simp add: a)
qed

lemma for_items_cong:
  "(\<And>k v. (k, v) \<in> set kvs \<Longrightarrow> f k v = g k v) \<Longrightarrow> for_items f kvs = for_items g kvs"
  by (induction kvs) (auto split: sum.splits)

lemma all2_map_of:
  assumes "list_all2 (\<lambda>(k, v) (k', v'). k' = k \<and> R k v v') kvs kvs'"
  shows "(case map_of kvs k of
            None \<Rightarrow> map_of kvs' k = None
          | Some v \<Rightarrow> \<exists>v'. map_of kvs' k = Some v' \<and> R k v v')"
  using assms by (induction kvs kvs' rule: list_all2_induct) (auto split: option.splits)

lemma all2_set:
  assumes "list_all2 (\<lambda>(k, v) (k', v'). k' = k \<and> R k v v') kvs kvs'" and "(k, v') \<in> set kvs'"
  shows "\<exists>v. (k, v) \<in> set kvs \<and> R k v v'"
  using assms by (induction kvs kvs' rule: list_all2_induct) auto

lemma pin_tool_peripheral_Inr:
  assumes "pin_tool_peripheral tree p per = Inr per'"
  shows "base per' = base per \<and>
         list_all2 (\<lambda>(sg, d) (sg', d'). sg' = sg \<and> pin_tool_signal tree p sg d = Inr d')
           (signals per) (signals per')"
proof -
  from assms obtain sigs where 1: "for_items (pin_tool_signal tree p) (signals per) = Inr sigs"
    and 2: "per' = per\<lparr>signals := sigs\<rparr>"
    by (auto simp: pin_tool_peripheral_def split: sum.splits)
  from for_items_all2 [OF 1] show ?thesis by (simp add: 2)
qed

lemma parse_pin_tool_file_step:
  assumes "parse_pin_tool_file ps tree = Inr ps'"
  shows "file_step tree ps ps'"
proof -
  from assms have "list_all2 (\<lambda>(p, per) (p', per'). p' = p \<and> pin_tool_peripheral tree p per = Inr per') ps ps'"
    unfolding parse_pin_tool_file_def by (rule for_items_all2)
  then show ?thesis
    unfolding file_step_def
    by (rule list_all2_mono) (auto dest: pin_tool_peripheral_Inr)
qed

lemma file_step_enriched: "file_step tree ps ps' \<Longrightarrow> model_enriched ps ps'"
  unfolding file_step_def model_enriched_def peripheral_enriched_def
  apply (erule list_all2_mono)
  apply clarsimp
  apply (erule list_all2_mono)
  apply (auto simp: signal_enriched_def dest!: pin_tool_signal_Inr)
  done

lemma signal_enriched_refl: "signal_enriched d d"
  by (simp add: signal_enriched_def)

lemma signal_enriched_trans: "signal_enriched a b \<Longrightarrow> signal_enriched b c \<Longrightarrow> signal_enriched a c"
  by (auto simp: signal_enriched_def)

lemma peripheral_enriched_refl: "peripheral_enriched p p"
  by (auto simp: peripheral_enriched_def list_all2_same signal_enriched_refl)

lemma peripheral_enriched_trans:
  "peripheral_enriched a b \<Longrightarrow> peripheral_enriched b c \<Longrightarrow> peripheral_enriched a c"
  unfolding peripheral_enriched_def
  apply clarsimp
  apply (erule (1) list_all2_trans [rotated])
  apply (auto intro: signal_enriched_trans)
  done

lemma model_enriched_refl: "model_enriched p p"
  by (auto simp: model_enriched_def list_all2_same peripheral_enriched_refl)

lemma model_enriched_trans:
  "model_enriched a b \<Longrightarrow> model_enriched b c \<Longrightarrow> model_enriched a c"
  unfolding model_enriched_def
  apply (erule (1) list_all2_trans [rotated])
  apply (auto intro: peripheral_enriched_trans)
  done

lemma parse_pin_tool_enriched:
  "parse_pin_tool ps trees = Inr ps' \<Longrightarrow> model_enriched ps ps'"
  unfolding parse_pin_tool_def
  by (erule for_loop_rel [where R = model_enriched])
     (auto intro: file_step_enriched parse_pin_tool_file_step model_enriched_refl
        model_enriched_trans)

lemma file_step_signal:
  assumes "file_step tree ps ps'"
  shows "case map_of ps p of
           None \<Rightarrow> map_of ps' p = None
         | Some per \<Rightarrow> \<exists>per'. map_of ps' p = Some per' \<and> base per' = base per \<and>
             (case map_of (signals per) sg of
                None \<Rightarrow> map_of (signals per') sg = None
              | Some d \<Rightarrow> \<exists>d'. map_of (signals per') sg = Some d' \<and>
                           pin_tool_signal tree p sg d = Inr d')"
proof -
  let ?R = "\<lambda>p per per'. base per' = base per \<and>
        list_all2 (\<lambda>(sg, d) (sg', d'). sg' = sg \<and> pin_tool_signal tree p sg d = Inr d')
          (signals per) (signals per')"
  from assms have "list_all2 (\<lambda>(p, per) (p', per'). p' = p \<and> ?R p per per') ps ps'"
    by (simp add: file_step_def)
  from all2_map_of [OF this, of p] show ?thesis
  proof (cases "map_of ps p")
    case None
    with \<open>case map_of ps p of None \<Rightarrow> map_of ps' p = None | Some v \<Rightarrow> \<exists>v'. map_of ps' p = Some v' \<and> ?R p v v'\<close>
    show ?thesis by simp
  next
    case (Some per)
    with \<open>case map_of ps p of None \<Rightarrow> map_of ps' p = None | Some v \<Rightarrow> \<exists>v'. map_of ps' p = Some v' \<and> ?R p v v'\<close>
    obtain per' where 1: "map_of ps' p = Some per'" and 2: "base per' = base per"
      and 3: "list_all2 (\<lambda>(sg, d) (sg', d'). sg' = sg \<and> pin_tool_signal tree p sg d = Inr d')
          (signals per) (signals per')" by auto
    from all2_map_of [OF 3, of sg] 1 2 Some show ?thesis by (auto split: option.splits)
  qed
qed

lemma file_step_locations:
  assumes "file_step tree ps ps'"
  shows "has_signal ps' p sg = has_signal ps p sg \<and>
         model_locations ps' p sg =
           model_locations ps p sg \<union>
           (if has_signal ps p sg then location_set (selected_locations tree p sg) else {})"
  using file_step_signal [OF assms, of p sg]
  by (auto simp: has_signal_def model_locations_def split: option.splits
      dest!: pin_tool_signal_Inr)

lemma all2_set_fwd:
  assumes "list_all2 (\<lambda>(k, v) (k', v'). k' = k \<and> R k v v') kvs kvs'" and "(k, v) \<in> set kvs"
  shows "\<exists>v'. (k, v') \<in> set kvs' \<and> R k v v'"
  using assms by (induction kvs kvs' rule: list_all2_induct) auto

lemma file_step_member:
  assumes "file_step tree ps ps'" and "(p, per) \<in> set ps" and "(sg, d) \<in> set (signals per)"
  shows "\<exists>per' d'. (p, per') \<in> set ps' \<and> (sg, d') \<in> set (signals per') \<and>
           pin_tool_signal tree p sg d = Inr d'"
proof -
  from assms(1) have "list_all2 (\<lambda>(p, per) (p', per'). p' = p \<and>
      (base per' = base per \<and>
        list_all2 (\<lambda>(sg, d) (sg', d'). sg' = sg \<and> pin_tool_signal tree p sg d = Inr d')
          (signals per) (signals per'))) ps ps'"
    by (simp add: file_step_def)
  from all2_set_fwd [OF this assms(2)] obtain per' where 1: "(p, per') \<in> set ps'"
    and 2: "list_all2 (\<lambda>(sg, d) (sg', d'). sg' = sg \<and> pin_tool_signal tree p sg d = Inr d')
          (signals per) (signals per')" by blast
  from all2_set_fwd [OF 2 assms(3)] 1 show ?thesis by blast
qed

lemma file_step_member_back:
  assumes "file_step tree ps ps'" and "(p, per') \<in> set ps'" and "(sg, d') \<in> set (signals per')"
  shows "\<exists>per d. (p, per) \<in> set ps \<and> (sg, d) \<in> set (signals per) \<and>
           pin_tool_signal tree p sg d = Inr d'"
proof -
  from assms(1) have "list_all2 (\<lambda>(p, per) (p', per'). p' = p \<and>
      (base per' = base per \<and>
        list_all2 (\<lambda>(sg, d) (sg', d'). sg' = sg \<and> pin_tool_signal tree p sg d = Inr d')
          (signals per) (signals per'))) ps ps'"
    by (simp add: file_step_def)
  from all2_set [OF this assms(2)] obtain per where 1: "(p, per) \<in> set ps"
    and 2: "list_all2 (\<lambda>(sg, d) (sg', d'). sg' = sg \<and> pin_tool_signal tree p sg d = Inr d')
          (signals per) (signals per')" by blast
  from all2_set [OF 2 assms(3)] 1 show ?thesis by blast
qed

lemma file_step_names:
  assumes "file_step tree ps ps'"
  shows "signal_names ps' = signal_names ps"
proof (rule set_eqI)
  fix x :: "string \<times> string"
  obtain p sg where x: "x = (p, sg)" by (cases x)
  show "x \<in> signal_names ps' \<longleftrightarrow> x \<in> signal_names ps"
    unfolding x signal_names_def
    using file_step_member [OF assms] file_step_member_back [OF assms]
    by (simp) blast
qed

lemma file_ok_iff:
  "file_ok ps tree \<longleftrightarrow> (\<exists>ps'. parse_pin_tool_file ps tree = Inr ps')"
proof
  assume ok: "file_ok ps tree"
  have "\<exists>per'. pin_tool_peripheral tree p per = Inr per'" if "(p, per) \<in> set ps" for p per
  proof -
    have "\<exists>d'. pin_tool_signal tree p sg d = Inr d'" if "(sg, d) \<in> set (signals per)" for sg d
    proof -
      from that \<open>(p, per) \<in> set ps\<close> have "(p, sg) \<in> signal_names ps"
        by (auto simp: signal_names_def)
      with ok have "list_all (\<lambda>loc. location_pair loc \<noteq> None) (selected_locations tree p sg)"
        by (auto simp: file_ok_def)
      then show ?thesis by (rule pin_tool_signal_ok)
    qed
    from for_items_ok [of "signals per" "pin_tool_signal tree p", OF this]
    show ?thesis by (auto simp: pin_tool_peripheral_def)
  qed
  from for_items_ok [of ps "pin_tool_peripheral tree", OF this]
  show "\<exists>ps'. parse_pin_tool_file ps tree = Inr ps'" by (simp add: parse_pin_tool_file_def)
next
  assume "\<exists>ps'. parse_pin_tool_file ps tree = Inr ps'"
  then obtain ps' where "parse_pin_tool_file ps tree = Inr ps'" ..
  then have st: "file_step tree ps ps'" by (rule parse_pin_tool_file_step)
  show "file_ok ps tree"
    unfolding file_ok_def
  proof clarify
    fix p sg assume "(p, sg) \<in> signal_names ps"
    then obtain per d where 1: "(p, per) \<in> set ps" and 2: "(sg, d) \<in> set (signals per)"
      by (auto simp: signal_names_def)
    from file_step_member [OF st 1 2] obtain d' where "pin_tool_signal tree p sg d = Inr d'"
      by blast
    then show "list_all (\<lambda>loc. location_pair loc \<noteq> None) (selected_locations tree p sg)"
      using pin_tool_signal_Inr by blast
  qed
qed

lemma file_ok_names: "signal_names ps' = signal_names ps \<Longrightarrow> file_ok ps' tree = file_ok ps tree"
  by (simp add: file_ok_def)

lemma parse_pin_tool_ok_iff:
  "(\<exists>ps'. parse_pin_tool ps trees = Inr ps') \<longleftrightarrow> (\<forall>tree \<in> set trees. file_ok ps tree)"
proof (induction trees arbitrary: ps)
  case Nil
  then show ?case by (simp add: parse_pin_tool_def)
next
  case (Cons t ts)
  show ?case
  proof (cases "parse_pin_tool_file ps t")
    case (Inl e)
    then have "\<not> file_ok ps t" by (simp add: file_ok_iff)
    with Inl show ?thesis by (simp add: parse_pin_tool_def)
  next
    case (Inr ps1)
    then have ok: "file_ok ps t" by (auto simp: file_ok_iff)
    from Inr have "signal_names ps1 = signal_names ps"
      by (intro file_step_names parse_pin_tool_file_step)
    then have "\<And>tree. file_ok ps1 tree = file_ok ps tree" by (rule file_ok_names)
    with Cons.IH [of ps1] Inr ok show ?thesis by (simp add: parse_pin_tool_def)
  qed
qed

lemma parse_pin_tool_locations:
  "parse_pin_tool ps trees = Inr ps' \<Longrightarrow>
     has_signal ps' p sg = has_signal ps p sg \<and>
     model_locations ps' p sg =
       model_locations ps p sg \<union>
       (if has_signal ps p sg
        then (\<Union>tree \<in> set trees. location_set (selected_locations tree p sg)) else {})"
proof (induction trees arbitrary: ps)
  case Nil
  then show ?case by (simp add: parse_pin_tool_def)
next
  case (Cons t ts)
  from Cons.prems obtain ps1 where 1: "parse_pin_tool_file ps t = Inr ps1"
    and 2: "parse_pin_tool ps1 ts = Inr ps'"
    by (auto simp: parse_pin_tool_def split: sum.splits)
  from file_step_locations [OF parse_pin_tool_file_step [OF 1], of p sg] Cons.IH [OF 2]
  show ?case by auto
qed

subsection \<open>Enrichment and union\<close>

lemma location_set_Nil: "location_set [] = {}"
  by (simp add: location_set_def)

lemma location_set_Cons:
  "location_set (loc # locs) =
     (case location_pair loc of
        None \<Rightarrow> location_set locs
      | Some pp \<Rightarrow> insert pp (location_set locs))"
  by (auto simp: location_set_def image_iff split: option.splits)

lemma pin_tool_signal_cong:
  "selected_locations tree1 p sg = selected_locations tree2 p sg \<Longrightarrow>
     pin_tool_signal tree1 p sg d = pin_tool_signal tree2 p sg d"
  by (simp add: pin_tool_signal_eq)

lemma parse_pin_tool_file_cong:
  assumes "\<forall>(p, sg) \<in> signal_names ps.
             selected_locations tree1 p sg = selected_locations tree2 p sg"
  shows "parse_pin_tool_file ps tree1 = parse_pin_tool_file ps tree2"
  unfolding parse_pin_tool_file_def
proof (rule for_items_cong)
  fix p per assume p: "(p, per) \<in> set ps"
  have "for_items (pin_tool_signal tree1 p) (signals per) =
        for_items (pin_tool_signal tree2 p) (signals per)"
  proof (rule for_items_cong)
    fix sg d assume "(sg, d) \<in> set (signals per)"
    with p have "(p, sg) \<in> signal_names ps" by (auto simp: signal_names_def)
    with assms have "selected_locations tree1 p sg = selected_locations tree2 p sg" by auto
    then show "pin_tool_signal tree1 p sg d = pin_tool_signal tree2 p sg d"
      by (rule pin_tool_signal_cong)
  qed
  then show "pin_tool_peripheral tree1 p per = pin_tool_peripheral tree2 p per"
    by (simp add: pin_tool_peripheral_def)
qed

lemma parse_pin_tool_names:
  "parse_pin_tool ps trees = Inr ps' \<Longrightarrow> signal_names ps' = signal_names ps"
  unfolding parse_pin_tool_def
  by (erule for_loop_rel [where R = "\<lambda>a b. signal_names b = signal_names a"])
     (auto dest: parse_pin_tool_file_step file_step_names)

lemma model_enriched_keys: "model_enriched ps ps' \<Longrightarrow> map fst ps' = map fst ps"
  unfolding model_enriched_def
  by (induction ps ps' rule: list_all2_induct) auto

lemma parse_pin_tool_empty: "parse_pin_tool [] trees = Inr []"
  by (induction trees) (simp_all add: parse_pin_tool_def parse_pin_tool_file_def)

text \<open>
  Claim C6. \<open>parse_pin_tool\<close> adds no peripheral and no signal: after any routing documents
  the model has the same peripherals in the same order, each with its base and with the
  same signals in the same order, each signal with its enable bit and route offset and
  with at least the locations it had (\<open>model_enriched\<close>). What a document lists for a signal
  that is not in the model has no effect: two documents that hold the same locations for
  the signals of the model give the same result, and the empty model stays empty.
\<close>

theorem pin_tool_only_enriches:
  "(parse_pin_tool ps trees = Inr ps' \<longrightarrow>
      model_enriched ps ps' \<and> map fst ps' = map fst ps \<and> signal_names ps' = signal_names ps) \<and>
   ((\<forall>(p, sg) \<in> signal_names ps0.
        selected_locations tree1 p sg = selected_locations tree2 p sg) \<longrightarrow>
      parse_pin_tool_file ps0 tree1 = parse_pin_tool_file ps0 tree2) \<and>
   parse_pin_tool [] trees0 = Inr []"
  using parse_pin_tool_enriched [of ps trees ps'] parse_pin_tool_names [of ps trees ps']
    model_enriched_keys [of ps ps'] parse_pin_tool_file_cong [of ps0 tree1 tree2]
    parse_pin_tool_empty [of trees0]
  by blast

theorem pin_tool_only_enriches_witness:
  "parse_pin_tool timer_model [timer_portio, timer_portio_b] = Inr timer_model_ab \<and>
   model_enriched timer_model timer_model_ab \<and>
   map fst timer_model_ab = map fst timer_model \<and>
   signal_names timer_model_ab = signal_names timer_model \<and>
   signal_names timer_model = {(''TIMER0'', ''CC0'')} \<and>
   selected_locations (timer_portio @ [usart_module]) ''TIMER0'' ''CC0'' =
     selected_locations timer_portio ''TIMER0'' ''CC0'' \<and>
   parse_pin_tool_file timer_model (timer_portio @ [usart_module]) =
     parse_pin_tool_file timer_model timer_portio \<and>
   parse_pin_tool_file timer_model timer_portio = Inr timer_model_a"
proof -
  have 1: "parse_pin_tool timer_model [timer_portio, timer_portio_b] = Inr timer_model_ab"
    by code_simp
  have 2: "signal_names timer_model = {(''TIMER0'', ''CC0'')}"
    by (auto simp: signal_names_def timer_model_def)
  have 3: "selected_locations (timer_portio @ [usart_module]) ''TIMER0'' ''CC0'' =
     selected_locations timer_portio ''TIMER0'' ''CC0''" by code_simp
  have 4: "parse_pin_tool_file timer_model timer_portio = Inr timer_model_a" by code_simp
  note t = pin_tool_only_enriches [of timer_model "[timer_portio, timer_portio_b]" timer_model_ab
      timer_model "timer_portio @ [usart_module]" timer_portio]
  from t 1 have 5: "model_enriched timer_model timer_model_ab"
    and 6: "map fst timer_model_ab = map fst timer_model"
    and 7: "signal_names timer_model_ab = signal_names timer_model" by blast+
  from t 2 3 have 8: "parse_pin_tool_file timer_model (timer_portio @ [usart_module]) =
     parse_pin_tool_file timer_model timer_portio" by simp
  from 1 2 3 4 5 6 7 8 show ?thesis by blast
qed

lemma parse_pin_tool_permuted:
  assumes run: "parse_pin_tool ps trees = Inr ps1" and perm: "mset trees' = mset trees"
  shows "\<exists>ps2. parse_pin_tool ps trees' = Inr ps2 \<and>
           (\<forall>q s. model_locations ps2 q s = model_locations ps1 q s)"
proof -
  from perm have sets: "set trees' = set trees" by (rule mset_eq_setD)
  from run have "\<forall>tree \<in> set trees. file_ok ps tree"
    using parse_pin_tool_ok_iff [of ps trees] by blast
  with sets have "\<forall>tree \<in> set trees'. file_ok ps tree" by simp
  then obtain ps2 where 2: "parse_pin_tool ps trees' = Inr ps2"
    using parse_pin_tool_ok_iff [of ps trees'] by blast
  have "model_locations ps2 q s = model_locations ps1 q s" for q s
    using parse_pin_tool_locations [OF run, of q s] parse_pin_tool_locations [OF 2, of q s] sets
    by simp
  with 2 show ?thesis by blast
qed

text \<open>
  Claim C5. After \<open>parse_pin_tool\<close> has read a list of routing documents, the locations of a
  signal of the model are those it had together with the locations that each document
  holds for it. Read in any other order, the same documents are read without an exception
  as well and give every signal the same locations; the dictionaries may list the ports
  in another order.
\<close>

theorem pinout_is_union:
  "(parse_pin_tool ps trees = Inr ps' \<longrightarrow>
      model_locations ps' p sg =
        model_locations ps p sg \<union>
        (if has_signal ps p sg
         then (\<Union>tree \<in> set trees. location_set (selected_locations tree p sg)) else {})) \<and>
   (parse_pin_tool ps trees = Inr ps' \<and> mset trees' = mset trees \<longrightarrow>
      (\<exists>ps''. parse_pin_tool ps trees' = Inr ps'' \<and>
         (\<forall>q s. model_locations ps'' q s = model_locations ps' q s)))"
  using parse_pin_tool_locations [of ps trees ps' p sg]
    parse_pin_tool_permuted [of ps trees ps' trees']
  by blast

theorem pinout_is_union_witness:
  "parse_pin_tool timer_model [timer_portio, timer_portio_b] = Inr timer_model_ab \<and>
   parse_pin_tool timer_model [timer_portio_b, timer_portio] = Inr timer_model_ba \<and>
   mset [timer_portio_b, timer_portio] = mset [timer_portio, timer_portio_b] \<and>
   has_signal timer_model ''TIMER0'' ''CC0'' \<and>
   model_locations timer_model ''TIMER0'' ''CC0'' = {} \<and>
   location_set (selected_locations timer_portio ''TIMER0'' ''CC0'') = {(0, 5)} \<and>
   location_set (selected_locations timer_portio_b ''TIMER0'' ''CC0'') = {(1, 2)} \<and>
   model_locations timer_model_ab ''TIMER0'' ''CC0'' = {(0, 5), (1, 2)} \<and>
   model_locations timer_model_ba ''TIMER0'' ''CC0'' = {(0, 5), (1, 2)}"
proof -
  have 1: "parse_pin_tool timer_model [timer_portio, timer_portio_b] = Inr timer_model_ab"
    by code_simp
  have 2: "parse_pin_tool timer_model [timer_portio_b, timer_portio] = Inr timer_model_ba"
    by code_simp
  have 3: "mset [timer_portio_b, timer_portio] = mset [timer_portio, timer_portio_b]"
    by (simp add: add_mset_commute)
  have 4: "has_signal timer_model ''TIMER0'' ''CC0''" by code_simp
  have 5: "model_locations timer_model ''TIMER0'' ''CC0'' = {}"
    by (simp add: model_locations_def timer_model_def pinout_locations_def)
  have la: "selected_locations timer_portio ''TIMER0'' ''CC0'' =
      [\<lparr>portBankIndex = IntVal 0, pinIndex = IntVal 5\<rparr>]" by code_simp
  have lb: "selected_locations timer_portio_b ''TIMER0'' ''CC0'' =
      [\<lparr>portBankIndex = IntVal 1, pinIndex = IntVal 2\<rparr>]" by code_simp
  have 6: "location_set (selected_locations timer_portio ''TIMER0'' ''CC0'') = {(0, 5)}"
    by (simp add: la location_set_Cons location_set_Nil location_pair_def)
  have 7: "location_set (selected_locations timer_portio_b ''TIMER0'' ''CC0'') = {(1, 2)}"
    by (simp add: lb location_set_Cons location_set_Nil location_pair_def)
  note t = pinout_is_union [of timer_model "[timer_portio, timer_portio_b]" timer_model_ab
      "''TIMER0''" "''CC0''" "[timer_portio_b, timer_portio]"]
  from t 1 4 5 6 7 have 8: "model_locations timer_model_ab ''TIMER0'' ''CC0'' = {(0, 5), (1, 2)}"
    by auto
  from t 1 3 obtain ps'' where "parse_pin_tool timer_model [timer_portio_b, timer_portio] = Inr ps''"
    and "model_locations ps'' ''TIMER0'' ''CC0'' = model_locations timer_model_ab ''TIMER0'' ''CC0''"
    by blast
  with 2 8 have 9: "model_locations timer_model_ba ''TIMER0'' ''CC0'' = {(0, 5), (1, 2)}" by simp
  from 1 2 3 4 5 6 7 8 9 show ?thesis by blast
qed

subsection \<open>Signals that \<open>parse_svd\<close> adds have no pinout\<close>

lemma added_bare_refl: "added_bare ps ps"
  by (auto simp: added_bare_def model_kept_refl has_signal_def)

lemma added_bare_trans:
  assumes ab: "added_bare a b" and bc: "added_bare b c"
  shows "added_bare a c"
  unfolding added_bare_def
proof (intro conjI allI impI)
  from ab bc show "model_kept a c" by (auto simp: added_bare_def intro: model_kept_trans)
next
  fix p sg per' d'
  assume h: "map_of c p = Some per' \<and> map_of (signals per') sg = Some d' \<and> \<not> has_signal a p sg"
  show "pinout d' = None"
  proof (cases "has_signal b p sg")
    case False
    with h bc show ?thesis unfolding added_bare_def by blast
  next
    case True
    then obtain perb db where 1: "map_of b p = Some perb" and 2: "map_of (signals perb) sg = Some db"
      by (auto simp: has_signal_def split: option.splits)
    from ab 1 2 h have n: "pinout db = None" unfolding added_bare_def by blast
    from bc have "model_kept b c" by (simp add: added_bare_def)
    with 1 obtain perc where 3: "map_of c p = Some perc" and k: "peripheral_kept perb perc"
      unfolding model_kept_def by blast
    from k 2 obtain dc where 4: "map_of (signals perc) sg = Some dc" and "signal_kept db dc"
      unfolding peripheral_kept_def by blast
    then have "pinout dc = pinout db" by (simp add: signal_kept_def)
    with h 3 4 n show ?thesis by simp
  qed
qed

lemma ensure_peripheral_bare: "added_bare ps (ensure_peripheral p off ps)"
  unfolding added_bare_def
  apply (rule conjI)
   apply (rule ensure_peripheral_kept)
  apply (auto simp: ensure_peripheral_def update_conv' has_signal_def
      split: if_splits option.splits)
  done

lemma enable_field_bare: "enable_field p ps f = Inr ps' \<Longrightarrow> added_bare ps ps'"
  unfolding added_bare_def
  apply (rule conjI)
   apply (erule enable_field_kept)
  apply (auto simp: enable_field_def Let_def ensure_signal_def empty_signal_def update_conv'
      has_signal_def split: if_splits option.splits)
  done

lemma route_register_bare: "route_register ps reg = Inr ps' \<Longrightarrow> added_bare ps ps'"
proof -
  assume a: "route_register ps reg = Inr ps'"
  then obtain p0 s0 where sp: "split1 (CHR ''_'') (reg_name reg) = [p0, s0]"
    by (auto simp: route_register_def split: list.splits)
  let ?p = "rename peripheral_rename_map p0"
  let ?sg = "rename signal_rename_map (chop 5 s0)"
  let ?ps1 = "ensure_peripheral ?p (address_offset reg) ps"
  from a sp obtain per where per: "map_of ?ps1 ?p = Some per"
    by (auto simp: route_register_def Let_def split: option.splits)
  let ?sigs = "ensure_signal ?sg (signals per)"
  from a sp per obtain d where d: "map_of ?sigs ?sg = Some d"
    by (auto simp: route_register_def Let_def split: option.splits if_splits)
  let ?per' = "per\<lparr>signals := (if route d = None
       then AList.update ?sg (d\<lparr>route := Some (address_offset reg div 4 - base per)\<rparr>) ?sigs
       else ?sigs)\<rparr>"
  from a sp per d have ps': "ps' = AList.update ?p ?per' ?ps1"
    by (auto simp: route_register_def Let_def split: option.splits if_splits)
  have "added_bare ?ps1 ps'"
    unfolding added_bare_def
  proof (intro conjI allI impI)
    show "model_kept ?ps1 ps'"
      using a ensure_peripheral_kept per d unfolding ps'
      by (intro model_kept_update)
         (auto simp: peripheral_kept_def ensure_signal_def update_conv' signal_kept_def
          split: if_splits)
  next
    fix q sg per' d'
    assume h: "map_of ps' q = Some per' \<and> map_of (signals per') sg = Some d' \<and>
        \<not> has_signal ?ps1 q sg"
    then show "pinout d' = None"
      using per d unfolding ps'
      by (auto simp: update_conv' has_signal_def ensure_signal_def empty_signal_def
          split: if_splits option.splits)
  qed
  with ensure_peripheral_bare show ?thesis by (rule added_bare_trans)
qed

lemma enable_register_bare: "enable_register ps reg = Inr ps' \<Longrightarrow> added_bare ps ps'"
proof -
  assume a: "enable_register ps reg = Inr ps'"
  let ?p = "rename peripheral_rename_map (chop 8 (reg_name reg))"
  from a have "for_loop (enable_field ?p) (ensure_peripheral ?p (address_offset reg) ps)
      (reg_fields reg) = Inr ps'"
    by (simp add: enable_register_def Let_def)
  then have "added_bare (ensure_peripheral ?p (address_offset reg) ps) ps'"
    by (rule for_loop_rel [where R = added_bare])
       (auto intro: enable_field_bare added_bare_refl added_bare_trans)
  with ensure_peripheral_bare show ?thesis by (rule added_bare_trans)
qed

lemma svd_register_step_bare: "svd_register_step ps reg = Inr ps' \<Longrightarrow> added_bare ps ps'"
  unfolding svd_register_step_def
  by (auto split: sum.splits if_splits simp: added_bare_refl
      dest!: enable_register_bare route_register_bare intro: added_bare_trans)

lemma parse_svd_file_bare: "parse_svd_file ps dev = Inr ps' \<Longrightarrow> added_bare ps ps'"
proof -
  assume "parse_svd_file ps dev = Inr ps'"
  then have "for_loop svd_register_step ps (gpio_registers dev) = Inr ps'"
    by (rule parse_svd_file_registers)
  then show ?thesis
    by (rule for_loop_rel [where R = added_bare])
       (auto intro: svd_register_step_bare added_bare_refl added_bare_trans)
qed

lemma parse_svd_bare: "parse_svd ps devs = Inr ps' \<Longrightarrow> added_bare ps ps'"
  unfolding parse_svd_def
  by (erule for_loop_rel [where R = added_bare])
     (auto intro: parse_svd_file_bare added_bare_refl added_bare_trans)

lemma parse_pin_tool_pinouts:
  assumes "parse_pin_tool ps trees = Inr ps'" and "trees \<noteq> []"
  shows "\<forall>(p, per) \<in> set ps'. \<forall>(sg, d) \<in> set (signals per). pinout d \<noteq> None"
proof -
  from assms(2) obtain ts t where trees: "trees = ts @ [t]"
    by (metis append_butlast_last_id)
  from assms(1) obtain ps1 where "parse_pin_tool_file ps1 t = Inr ps'"
    by (auto simp: parse_pin_tool_def trees for_loop_append split: sum.splits)
  then have st: "file_step t ps1 ps'" by (rule parse_pin_tool_file_step)
  have "pinout d \<noteq> None" if "(p, per) \<in> set ps'" and "(sg, d) \<in> set (signals per)"
    for p per sg d
  proof -
    from file_step_member_back [OF st that] obtain d0 where "pin_tool_signal t p sg d0 = Inr d"
      by blast
    from pin_tool_signal_Inr [OF this] show ?thesis by simp
  qed
  then show ?thesis by auto
qed

section \<open>The whole run\<close>

subsection \<open>One signal through the run\<close>

text \<open>
  A register that names another peripheral leaves a peripheral as it is; a field that
  names another signal leaves a signal as it is; what is set stays set. So the entry of
  \<open>TIMER0\<close>, \<open>CC0\<close> after \<open>parse_svd\<close> is fixed by the first two registers that name \<open>TIMER0\<close>,
  the locations that \<open>parse_pin_tool\<close> adds by the first selector of that name, and two
  lines of the file by that entry.
\<close>

lemma svd_register_step_untouched:
  assumes "svd_register_step ps reg = Inr ps'" and "register_peripheral reg \<noteq> Some q"
  shows "map_of ps' q = map_of ps q"
proof (cases "endswith (reg_name reg) ''_ROUTEEN''")
  case True
  with assms(1) have en: "enable_register ps reg = Inr ps'"
    by (auto simp: svd_register_step_def routeen_not_route split: sum.splits)
  from True assms(2) have "q \<noteq> rename peripheral_rename_map (chop 8 (reg_name reg))"
    by (auto simp: register_peripheral_def)
  with en show ?thesis by (rule enable_register_other)
next
  case False
  show ?thesis
  proof (cases "endswith (reg_name reg) ''ROUTE''")
    case True
    with False assms(1) have ro: "route_register ps reg = Inr ps'"
      by (simp add: svd_register_step_def)
    from ro assms(2) False True show ?thesis by (rule route_register_other)
  next
    case nr: False
    with False assms(1) show ?thesis by (simp add: svd_register_step_def)
  qed
qed

lemma registers_untouched:
  "for_loop svd_register_step ps regs = Inr ps' \<Longrightarrow>
     \<forall>r \<in> set regs. register_peripheral r \<noteq> Some q \<Longrightarrow> map_of ps' q = map_of ps q"
proof (induction regs arbitrary: ps)
  case Nil
  then show ?case by simp
next
  case (Cons r regs)
  from Cons.prems(1) obtain ps1 where 1: "svd_register_step ps r = Inr ps1"
    and 2: "for_loop svd_register_step ps1 regs = Inr ps'"
    by (auto split: sum.splits)
  from Cons.prems(2) have "register_peripheral r \<noteq> Some q" by simp
  with 1 have "map_of ps1 q = map_of ps q" by (rule svd_register_step_untouched)
  moreover from Cons.prems(2) have "\<forall>r \<in> set regs. register_peripheral r \<noteq> Some q" by simp
  with 2 have "map_of ps' q = map_of ps1 q" by (rule Cons.IH)
  ultimately show ?case by simp
qed

lemma rename_signal_CC0: "rename signal_rename_map x = ''CC0'' \<Longrightarrow> x = ''CC0''"
  by (auto simp: rename_def signal_rename_map_def split: option.splits if_splits)

lemma field_signal_CC0: "field_signal f = Some ''CC0'' \<Longrightarrow> field_name f = ''CC0PEN''"
proof -
  assume a: "field_signal f = Some ''CC0''"
  then have e: "endswith (field_name f) ''PEN''"
    and r: "rename signal_rename_map (chop 3 (field_name f)) = ''CC0''"
    by (auto simp: field_signal_def split: if_splits)
  from e obtain pre where n: "field_name f = pre @ ''PEN''" by (auto simp: endswith_iff)
  then have "chop 3 (field_name f) = pre" by (simp add: chop_append)
  with r have "pre = ''CC0''" by (auto dest: rename_signal_CC0)
  with n show ?thesis by simp
qed

lemma enable_field_other_signal:
  assumes "enable_field p ps f = Inr ps'" and "field_signal f \<noteq> Some sg"
  shows "lookup_signal ps' q sg = lookup_signal ps q sg"
  using assms
  by (auto simp: enable_field_def field_signal_def lookup_signal_def Let_def update_conv'
      ensure_signal_def split: if_splits option.splits)

lemma enable_field_keeps_set:
  assumes "enable_field p ps f = Inr ps'" and "lookup_signal ps q sg = Some (b, d)"
    and "en d \<noteq> None"
  shows "lookup_signal ps' q sg = Some (b, d)"
  using assms
  by (auto simp: enable_field_def lookup_signal_def Let_def update_conv'
      ensure_signal_def split: if_splits option.splits)

lemma lookup_untouched:
  "map_of ps' q = map_of ps q \<Longrightarrow> lookup_signal ps' q sg = lookup_signal ps q sg"
  by (simp add: lookup_signal_def)

lemma enable_fields_other_signal:
  "for_loop (enable_field p) ps fs = Inr ps' \<Longrightarrow>
     \<forall>f \<in> set fs. field_signal f \<noteq> Some sg \<Longrightarrow>
     lookup_signal ps' q sg = lookup_signal ps q sg"
proof (induction fs arbitrary: ps)
  case Nil
  then show ?case by simp
next
  case (Cons f fs)
  from Cons.prems(1) obtain ps1 where 1: "enable_field p ps f = Inr ps1"
    and 2: "for_loop (enable_field p) ps1 fs = Inr ps'"
    by (auto split: sum.splits)
  from Cons.prems(2) have "field_signal f \<noteq> Some sg" by simp
  with 1 have "lookup_signal ps1 q sg = lookup_signal ps q sg" by (rule enable_field_other_signal)
  moreover from Cons.prems(2) have "\<forall>f \<in> set fs. field_signal f \<noteq> Some sg" by simp
  with 2 have "lookup_signal ps' q sg = lookup_signal ps1 q sg" by (rule Cons.IH)
  ultimately show ?case by simp
qed

lemma enable_fields_keep_set:
  "for_loop (enable_field p) ps fs = Inr ps' \<Longrightarrow> lookup_signal ps q sg = Some (b, d) \<Longrightarrow>
     en d \<noteq> None \<Longrightarrow> lookup_signal ps' q sg = Some (b, d)"
proof (induction fs arbitrary: ps)
  case Nil
  then show ?case by simp
next
  case (Cons f fs)
  from Cons.prems(1) obtain ps1 where 1: "enable_field p ps f = Inr ps1"
    and 2: "for_loop (enable_field p) ps1 fs = Inr ps'"
    by (auto split: sum.splits)
  from 1 Cons.prems(2,3) have "lookup_signal ps1 q sg = Some (b, d)"
    by (rule enable_field_keeps_set)
  with 2 show ?case using Cons.prems(3) by (rule Cons.IH)
qed

lemma enable_field_new_signal:
  assumes "enable_field p ps f = Inr ps'" and "field_signal f = Some sg"
    and "map_of ps p = Some per" and "map_of (signals per) sg = None"
  shows "lookup_signal ps' p sg =
           Some (base per, \<lparr>en = Some (bit_offset f), route = None, pinout = None\<rparr>)"
  using assms
  by (auto simp: enable_field_def field_signal_def lookup_signal_def Let_def update_conv'
      ensure_signal_def empty_signal_def split: if_splits option.splits)

lemma timer0_enable_step:
  assumes step: "svd_register_step ps en_reg = Inr ps'"
    and absent: "map_of ps ''TIMER0'' = None"
    and name: "reg_name en_reg = ''TIMER0_ROUTEEN''" and off: "address_offset en_reg = 0x20"
    and fields: "reg_fields en_reg = fpre @ [\<lparr>field_name = ''CC0PEN'', bit_offset = 0\<rparr>] @ fpost"
    and fpre: "\<forall>f \<in> set fpre. field_name f \<noteq> ''CC0PEN''"
  shows "lookup_signal ps' ''TIMER0'' ''CC0'' =
           Some (8, \<lparr>en = Some 0, route = None, pinout = None\<rparr>)"
proof -
  let ?f0 = "\<lparr>field_name = ''CC0PEN'', bit_offset = 0\<rparr>"
  have e: "endswith ''TIMER0_ROUTEEN'' ''_ROUTEEN''" by code_simp
  have p: "rename peripheral_rename_map (chop 8 ''TIMER0_ROUTEEN'') = ''TIMER0''" by code_simp
  have f0: "field_signal ?f0 = Some ''CC0''" by code_simp
  from step e have "enable_register ps en_reg = Inr ps'"
    by (auto simp: svd_register_step_def name routeen_not_route split: sum.splits)
  then have loop: "for_loop (enable_field ''TIMER0'') (ensure_peripheral ''TIMER0'' 0x20 ps)
      (fpre @ [?f0] @ fpost) = Inr ps'"
    by (simp add: enable_register_def Let_def name off fields p)
  let ?s0 = "ensure_peripheral ''TIMER0'' 0x20 ps"
  from loop obtain s1 s2 where 1: "for_loop (enable_field ''TIMER0'') ?s0 fpre = Inr s1"
    and 2: "enable_field ''TIMER0'' s1 ?f0 = Inr s2"
    and 3: "for_loop (enable_field ''TIMER0'') s2 fpost = Inr ps'"
    by (auto simp: for_loop_append split: sum.splits)
  have s0: "map_of ?s0 ''TIMER0'' = Some \<lparr>base = 8, signals = []\<rparr>"
    using ensure_peripheral_new [OF absent, where off = "0x20"] by simp
  have "\<forall>f \<in> set fpre. field_signal f \<noteq> Some ''CC0''"
    using fpre field_signal_CC0 by blast
  with 1 have "lookup_signal s1 ''TIMER0'' ''CC0'' = lookup_signal ?s0 ''TIMER0'' ''CC0''"
    by (rule enable_fields_other_signal)
  with s0 have l1: "lookup_signal s1 ''TIMER0'' ''CC0'' = None"
    by (simp add: lookup_signal_def)
  from 1 have "model_kept ?s0 s1"
    by (rule for_loop_rel [where R = model_kept])
       (auto intro: enable_field_kept model_kept_refl model_kept_trans)
  from model_kept_base [OF this s0] obtain per1 where m1: "map_of s1 ''TIMER0'' = Some per1"
    and b1: "base per1 = 8" by auto
  from l1 m1 have n1: "map_of (signals per1) ''CC0'' = None"
    by (simp add: lookup_signal_def split: option.splits)
  from enable_field_new_signal [OF 2 f0 m1 n1] b1
  have "lookup_signal s2 ''TIMER0'' ''CC0'' = Some (8, \<lparr>en = Some 0, route = None, pinout = None\<rparr>)"
    by simp
  with 3 show ?thesis by (rule enable_fields_keep_set) simp
qed

lemma timer0_route_step:
  assumes step: "svd_register_step ps rt_reg = Inr ps'"
    and ready: "lookup_signal ps ''TIMER0'' ''CC0'' =
           Some (8, \<lparr>en = Some 0, route = None, pinout = None\<rparr>)"
    and name: "reg_name rt_reg = ''TIMER0_CC0ROUTE''" and off: "address_offset rt_reg = 0x24"
  shows "lookup_signal ps' ''TIMER0'' ''CC0'' =
           Some (8, \<lparr>en = Some 0, route = Some 1, pinout = None\<rparr>)"
proof -
  have e: "endswith ''TIMER0_CC0ROUTE'' ''ROUTE''" by code_simp
  have ne: "\<not> endswith ''TIMER0_CC0ROUTE'' ''_ROUTEEN''" by code_simp
  have sp: "split1 (CHR ''_'') ''TIMER0_CC0ROUTE'' = [''TIMER0'', ''CC0ROUTE'']" by code_simp
  have p: "rename peripheral_rename_map ''TIMER0'' = ''TIMER0''" by code_simp
  have s: "rename signal_rename_map (chop 5 ''CC0ROUTE'') = ''CC0''" by code_simp
  from step e ne have ro: "route_register ps rt_reg = Inr ps'"
    by (simp add: svd_register_step_def name)
  from ready obtain per where m: "map_of ps ''TIMER0'' = Some per" and b: "base per = 8"
    and d: "map_of (signals per) ''CC0'' = Some \<lparr>en = Some 0, route = None, pinout = None\<rparr>"
    by (auto simp: lookup_signal_def split: option.splits)
  from ro m b d show ?thesis
    by (auto simp: route_register_def name off sp p s Let_def ensure_peripheral_def
        ensure_signal_def update_conv' lookup_signal_def)
qed

lemma model_kept_lookup:
  assumes "model_kept ps ps'" and "lookup_signal ps p sg = Some (b, d)"
    and "en d \<noteq> None" and "route d \<noteq> None"
  shows "lookup_signal ps' p sg = Some (b, d)"
proof -
  from assms(2) obtain per where m: "map_of ps p = Some per" and b: "base per = b"
    and d: "map_of (signals per) sg = Some d"
    by (auto simp: lookup_signal_def split: option.splits)
  from assms(1) m obtain per' where m': "map_of ps' p = Some per'" and k: "peripheral_kept per per'"
    unfolding model_kept_def by blast
  from k d obtain d' where d': "map_of (signals per') sg = Some d'" and sk: "signal_kept d d'"
    unfolding peripheral_kept_def by blast
  from sk assms(3,4) have "en d' = en d" "route d' = route d" "pinout d' = pinout d"
    by (auto simp: signal_kept_def)
  then have "d' = d" by simp
  moreover from k have "base per' = base per" by (simp add: peripheral_kept_def)
  ultimately show ?thesis using m' d' b by (simp add: lookup_signal_def)
qed

lemma timer0_registers:
  assumes run: "for_loop svd_register_step ps (pre @ [en_reg] @ mid @ [rt_reg] @ post) = Inr ps'"
    and absent: "map_of ps ''TIMER0'' = None"
    and others: "\<forall>r \<in> set (pre @ mid). register_peripheral r \<noteq> Some ''TIMER0''"
    and en_name: "reg_name en_reg = ''TIMER0_ROUTEEN''" and en_off: "address_offset en_reg = 0x20"
    and fields: "reg_fields en_reg = fpre @ [\<lparr>field_name = ''CC0PEN'', bit_offset = 0\<rparr>] @ fpost"
    and fpre: "\<forall>f \<in> set fpre. field_name f \<noteq> ''CC0PEN''"
    and rt_name: "reg_name rt_reg = ''TIMER0_CC0ROUTE''" and rt_off: "address_offset rt_reg = 0x24"
  shows "lookup_signal ps' ''TIMER0'' ''CC0'' =
           Some (8, \<lparr>en = Some 0, route = Some 1, pinout = None\<rparr>)"
proof -
  from run obtain s1 s2 s3 s4 where 1: "for_loop svd_register_step ps pre = Inr s1"
    and 2: "svd_register_step s1 en_reg = Inr s2"
    and 3: "for_loop svd_register_step s2 mid = Inr s3"
    and 4: "svd_register_step s3 rt_reg = Inr s4"
    and 5: "for_loop svd_register_step s4 post = Inr ps'"
    by (auto simp: for_loop_append split: sum.splits)
  from others have o1: "\<forall>r \<in> set pre. register_peripheral r \<noteq> Some ''TIMER0''"
    and o2: "\<forall>r \<in> set mid. register_peripheral r \<noteq> Some ''TIMER0''" by auto
  from registers_untouched [OF 1 o1] absent have "map_of s1 ''TIMER0'' = None" by simp
  from timer0_enable_step [OF 2 this en_name en_off fields fpre]
  have r2: "lookup_signal s2 ''TIMER0'' ''CC0'' =
      Some (8, \<lparr>en = Some 0, route = None, pinout = None\<rparr>)" .
  from registers_untouched [OF 3 o2] have "lookup_signal s3 ''TIMER0'' ''CC0'' =
      lookup_signal s2 ''TIMER0'' ''CC0''" by (rule lookup_untouched)
  with r2 have "lookup_signal s3 ''TIMER0'' ''CC0'' =
      Some (8, \<lparr>en = Some 0, route = None, pinout = None\<rparr>)" by simp
  from timer0_route_step [OF 4 this rt_name rt_off]
  have r4: "lookup_signal s4 ''TIMER0'' ''CC0'' =
      Some (8, \<lparr>en = Some 0, route = Some 1, pinout = None\<rparr>)" .
  from 5 have "model_kept s4 ps'" by (rule registers_kept)
  from model_kept_lookup [OF this r4] show ?thesis by simp
qed

lemma timer0_selected_locations:
  assumes tree: "tree = mpre @
        [\<lparr>mod_name = ''TIMER0'',
          selectors = spre @
            [\<lparr>selector_name = ''TIMER0_CC0'',
              routes = rpre @ [\<lparr>route_name = ''CC0'', locations = locs\<rparr>] @ rpost\<rparr>] @ spost\<rparr>]
        @ mpost"
    and mpre: "\<forall>m \<in> set mpre. mod_name m \<noteq> ''TIMER0''"
    and spre: "\<forall>s \<in> set spre. selector_name s \<noteq> ''TIMER0_CC0''"
    and rest: "\<forall>r \<in> set (rpre @ rpost). route_name r \<noteq> ''CC0''"
  shows "selected_locations tree ''TIMER0'' ''CC0'' = locs"
proof -
  let ?sel = "\<lparr>selector_name = ''TIMER0_CC0'',
              routes = rpre @ [\<lparr>route_name = ''CC0'', locations = locs\<rparr>] @ rpost\<rparr>"
  have r: "rename pt_signal_rename_map ''CC0'' = ''CC0''" by code_simp
  have "\<exists>others. xpath_selectors tree ''TIMER0'' ''TIMER0_CC0'' = ?sel # others"
    using mpre spre by (auto simp: xpath_selectors_def tree)
  then obtain others where x: "xpath_selectors tree ''TIMER0'' ''TIMER0_CC0'' = ?sel # others" ..
  have l: "xpath_locations
      \<lparr>selector_name = ''TIMER0_CC0'',
        routes = rpre @ \<lparr>route_name = ''CC0'', locations = locs\<rparr> # rpost\<rparr> ''CC0'' = locs"
    using rest by (auto simp: xpath_locations_def)
  show ?thesis by (simp add: selected_locations_def r x l)
qed

lemma timer0_pin_tool:
  assumes run: "parse_pin_tool ps [tree] = Inr ps'"
    and ready: "lookup_signal ps ''TIMER0'' ''CC0'' =
           Some (8, \<lparr>en = Some 0, route = Some 1, pinout = None\<rparr>)"
    and locs: "selected_locations tree ''TIMER0'' ''CC0'' =
           [\<lparr>portBankIndex = IntVal 0, pinIndex = IntVal 5\<rparr>]"
  shows "lookup_signal ps' ''TIMER0'' ''CC0'' =
           Some (8, \<lparr>en = Some 0, route = Some 1, pinout = Some [(0, {5})]\<rparr>)"
proof -
  let ?d = "\<lparr>en = Some 0, route = Some 1, pinout = None\<rparr>"
  from run have "parse_pin_tool_file ps tree = Inr ps'"
    by (auto simp: parse_pin_tool_def split: sum.splits)
  then have st: "file_step tree ps ps'" by (rule parse_pin_tool_file_step)
  from ready obtain per where m: "map_of ps ''TIMER0'' = Some per" and b: "base per = 8"
    and d: "map_of (signals per) ''CC0'' = Some ?d"
    by (auto simp: lookup_signal_def split: option.splits)
  have pt: "pin_tool_signal tree ''TIMER0'' ''CC0'' ?d = Inr (?d\<lparr>pinout := Some [(0, {5})]\<rparr>)"
    by (simp add: pin_tool_signal_eq locs add_location_def)
  from file_step_signal [OF st, of "''TIMER0''" "''CC0''"] m b d pt
  show ?thesis by (auto simp: lookup_signal_def)
qed

lemma dbus_line_written:
  assumes "lookup_signal ps p sg = Some (b, d)" and "route d = Some r"
  shows "dbus_define p b sg d r \<in> set (dbus_lines ps)"
proof -
  from assms(1) obtain per where m: "map_of ps p = Some per" and b: "base per = b"
    and d: "map_of (signals per) sg = Some d"
    by (auto simp: lookup_signal_def split: option.splits)
  from m have 1: "(p, per) \<in> set ps" by (rule map_of_SomeD)
  from d have 2: "(sg, d) \<in> set (signals per)" by (rule map_of_SomeD)
  from 1 2 assms(2) b show ?thesis
    by (fastforce simp: dbus_lines_def)
qed

lemma pin_line_written:
  assumes "lookup_signal ps p sg = Some (b, d)" and "pinout d = Some po"
    and "(port, pins) \<in> set po" and "pin \<in> set (sorted_list_of_set pins)"
  shows "pin_define p sg (port_letter port) port pin \<in> set (pin_lines ps)"
proof -
  from assms(1) obtain per where m: "map_of ps p = Some per"
    and d: "map_of (signals per) sg = Some d"
    by (auto simp: lookup_signal_def split: option.splits)
  from m have 1: "(p, per) \<in> set ps" by (rule map_of_SomeD)
  from d have 2: "(sg, d) \<in> set (signals per)" by (rule map_of_SomeD)
  from 1 2 assms(2-4) show ?thesis
    by (fastforce simp: pin_lines_def)
qed

lemma timer0_lines:
  assumes out: "snd (write_header family ps) = Inr out"
    and ready: "lookup_signal ps ''TIMER0'' ''CC0'' =
           Some (8, \<lparr>en = Some 0, route = Some 1, pinout = Some [(0, {5})]\<rparr>)"
  shows "''#define SILABS_DBUS_TIMER0_CC0(port, pin) SILABS_DBUS(port, pin, 8, 1, 0, 1)'' \<in> set out \<and>
         ''#define TIMER0_CC0_PA5 SILABS_DBUS_TIMER0_CC0(0, 5)'' \<in> set out"
proof -
  let ?d = "\<lparr>en = Some 0, route = Some 1, pinout = Some [(0, {5})]\<rparr>"
  have 1: "dbus_define ''TIMER0'' 8 ''CC0'' ?d 1 =
      ''#define SILABS_DBUS_TIMER0_CC0(port, pin) SILABS_DBUS(port, pin, 8, 1, 0, 1)''"
    by code_simp
  have 2: "pin_define ''TIMER0'' ''CC0'' (port_letter 0) 0 5 =
      ''#define TIMER0_CC0_PA5 SILABS_DBUS_TIMER0_CC0(0, 5)''"
    by code_simp
  have 3: "(5 :: int) \<in> set (sorted_list_of_set {5})" by simp
  from write_header_Inr [OF out]
  have o: "out = header_lines family @ dbus_lines ps @ pin_lines ps @ [[]]" by simp
  from dbus_line_written [OF ready, of 1] 1
  have a: "''#define SILABS_DBUS_TIMER0_CC0(port, pin) SILABS_DBUS(port, pin, 8, 1, 0, 1)''
      \<in> set (dbus_lines ps)" by simp
  from pin_line_written [OF ready, of "[(0, {5})]" 0 "{5}" 5] 2 3
  have b: "''#define TIMER0_CC0_PA5 SILABS_DBUS_TIMER0_CC0(0, 5)'' \<in> set (pin_lines ps)"
    by simp
  from a b show ?thesis unfolding o by simp
qed

lemma main_single_variant:
  assumes "main family [\<lparr>svd_files = [dev], pin_tool_files = [tree]\<rparr>] = (printed, Inr out)"
  shows "\<exists>ps1 ps2. for_loop svd_register_step [] (gpio_registers dev) = Inr ps1 \<and>
           parse_pin_tool ps1 [tree] = Inr ps2 \<and> snd (write_header family ps2) = Inr out"
proof -
  from assms obtain ps2 where b: "build_model [\<lparr>svd_files = [dev], pin_tool_files = [tree]\<rparr>] = Inr ps2"
    and w: "write_header family ps2 = (printed, Inr out)"
    by (auto simp: main_def split: sum.splits)
  from b obtain ps1 where s: "parse_svd [] [dev] = Inr ps1"
    and t: "parse_pin_tool ps1 [tree] = Inr ps2"
    by (auto simp: build_model_def variant_step_def split: sum.splits)
  from s have "parse_svd_file [] dev = Inr ps1"
    by (auto simp: parse_svd_def split: sum.splits)
  then have "for_loop svd_register_step [] (gpio_registers dev) = Inr ps1"
    by (rule parse_svd_file_registers)
  with t w show ?thesis by auto
qed

lemma parse_svd_file_nonempty:
  "gpio_registers dev \<noteq> [] \<Longrightarrow>
     parse_svd_file ps dev = for_loop svd_register_step ps (gpio_registers dev)"
  by (auto simp: parse_svd_file_def gpio_registers_def split: option.splits)

lemma route_step_ignores_fields:
  "\<not> endswith (reg_name reg) ''_ROUTEEN'' \<Longrightarrow>
     svd_register_step ps reg = svd_register_step ps (reg\<lparr>reg_fields := []\<rparr>)"
  by (simp add: svd_register_step_def route_register_def Let_def
        cong: list.case_cong option.case_cong if_cong)

lemma timer0_exact_model:
  assumes regs: "gpio_registers dev = [en_reg, rt_reg]"
    and en_name: "reg_name en_reg = ''TIMER0_ROUTEEN''" and en_off: "address_offset en_reg = 0x20"
    and fields: "reg_fields en_reg = [\<lparr>field_name = ''CC0PEN'', bit_offset = 0\<rparr>]"
    and rt_name: "reg_name rt_reg = ''TIMER0_CC0ROUTE''" and rt_off: "address_offset rt_reg = 0x24"
  shows "parse_svd [] [dev] = Inr timer_model"
proof -
  have en: "en_reg = \<lparr>reg_name = ''TIMER0_ROUTEEN'', address_offset = 0x20,
      reg_fields = [\<lparr>field_name = ''CC0PEN'', bit_offset = 0\<rparr>]\<rparr>"
    using en_name en_off fields by (cases en_reg) simp
  have rt: "rt_reg\<lparr>reg_fields := []\<rparr> =
      \<lparr>reg_name = ''TIMER0_CC0ROUTE'', address_offset = 0x24, reg_fields = []\<rparr>"
    using rt_name rt_off by (cases rt_reg) simp
  have ne: "\<not> endswith (reg_name rt_reg) ''_ROUTEEN''"
    unfolding rt_name by code_simp
  have 1: "svd_register_step [] en_reg = Inr enabled_timer_model"
    unfolding en by code_simp
  have "svd_register_step enabled_timer_model
      \<lparr>reg_name = ''TIMER0_CC0ROUTE'', address_offset = 0x24, reg_fields = []\<rparr> = Inr timer_model"
    by code_simp
  then have 2: "svd_register_step enabled_timer_model rt_reg = Inr timer_model"
    using route_step_ignores_fields [OF ne, of enabled_timer_model] by (simp add: rt)
  from regs have "parse_svd_file [] dev = for_loop svd_register_step [] [en_reg, rt_reg]"
    using parse_svd_file_nonempty [of dev "[]"] by simp
  with 1 2 show ?thesis by (simp add: parse_svd_def)
qed

lemma timer0_exact_pin_tool:
  assumes "selected_locations tree ''TIMER0'' ''CC0'' =
      [\<lparr>portBankIndex = IntVal 0, pinIndex = IntVal 5\<rparr>]"
  shows "parse_pin_tool timer_model [tree] = Inr timer_model_a"
proof -
  have n: "signal_names timer_model = {(''TIMER0'', ''CC0'')}"
    by (auto simp: signal_names_def timer_model_def)
  have l: "selected_locations timer_portio ''TIMER0'' ''CC0'' =
      [\<lparr>portBankIndex = IntVal 0, pinIndex = IntVal 5\<rparr>]" by code_simp
  have "parse_pin_tool_file timer_model tree = parse_pin_tool_file timer_model timer_portio"
    by (rule parse_pin_tool_file_cong) (simp add: n assms l)
  moreover have "parse_pin_tool_file timer_model timer_portio = Inr timer_model_a" by code_simp
  ultimately show ?thesis by (simp add: parse_pin_tool_def)
qed

text \<open>
  Claim C2, with the order of the registers stated. The register document lists
  \<open>TIMER0_ROUTEEN\<close> at byte offset \<open>0x20\<close> before every other register that names \<open>TIMER0\<close>,
  with \<open>CC0PEN\<close> at bit 0 its first field of that name, and \<open>TIMER0_CC0ROUTE\<close> at \<open>0x24\<close> as
  the next register that names \<open>TIMER0\<close>; registers of other peripherals may stand before
  and between the two, and any register after them. In the routing document the first module \<open>TIMER0\<close>
  has, as its first selector \<open>TIMER0_CC0\<close>, one whose only route \<open>CC0\<close> holds the location of
  port 0, pin 5; other modules, selectors and routes may stand around them. Then a run on
  the two documents that raises no exception writes the parameterized definition of
  \<open>TIMER0_CC0\<close> with base 8, enable flag 1, enable bit 0 and route 1, and the definition
  \<open>TIMER0_CC0_PA5\<close> that calls it with \<open>(0, 5)\<close>. When the register document holds the two
  registers and the one field only, the run raises no exception, prints nothing and
  writes these two definitions after the head of the file and nothing else.
\<close>

theorem end_to_end_timer0:
  assumes regs: "gpio_registers dev = pre @ [en_reg] @ mid @ [rt_reg] @ post"
    and others: "\<forall>r \<in> set (pre @ mid). register_peripheral r \<noteq> Some ''TIMER0''"
    and en_name: "reg_name en_reg = ''TIMER0_ROUTEEN''"
    and en_off: "address_offset en_reg = 0x20"
    and fields: "reg_fields en_reg = fpre @ [\<lparr>field_name = ''CC0PEN'', bit_offset = 0\<rparr>] @ fpost"
    and fpre: "\<forall>f \<in> set fpre. field_name f \<noteq> ''CC0PEN''"
    and rt_name: "reg_name rt_reg = ''TIMER0_CC0ROUTE''"
    and rt_off: "address_offset rt_reg = 0x24"
    and tree: "tree = mpre @
        [\<lparr>mod_name = ''TIMER0'',
          selectors = spre @
            [\<lparr>selector_name = ''TIMER0_CC0'',
              routes = rpre @
                [\<lparr>route_name = ''CC0'',
                  locations = [\<lparr>portBankIndex = IntVal 0, pinIndex = IntVal 5\<rparr>]\<rparr>] @ rpost\<rparr>]
            @ spost\<rparr>]
        @ mpost"
    and mpre: "\<forall>m \<in> set mpre. mod_name m \<noteq> ''TIMER0''"
    and spre: "\<forall>s \<in> set spre. selector_name s \<noteq> ''TIMER0_CC0''"
    and rest: "\<forall>r \<in> set (rpre @ rpost). route_name r \<noteq> ''CC0''"
  shows "(main family [\<lparr>svd_files = [dev], pin_tool_files = [tree]\<rparr>] = (printed, Inr out) \<longrightarrow>
            ''#define SILABS_DBUS_TIMER0_CC0(port, pin) SILABS_DBUS(port, pin, 8, 1, 0, 1)''
              \<in> set out \<and>
            ''#define TIMER0_CC0_PA5 SILABS_DBUS_TIMER0_CC0(0, 5)'' \<in> set out) \<and>
         (pre = [] \<and> mid = [] \<and> post = [] \<and> fpre = [] \<and> fpost = [] \<longrightarrow>
            main family [\<lparr>svd_files = [dev], pin_tool_files = [tree]\<rparr>] =
              ([], Inr (header_lines family @
                 [[],
                  ''#define SILABS_DBUS_TIMER0_CC0(port, pin) SILABS_DBUS(port, pin, 8, 1, 0, 1)'',
                  [],
                  ''#define TIMER0_CC0_PA5 SILABS_DBUS_TIMER0_CC0(0, 5)'',
                  []])))"
proof (intro conjI impI)
  have locs: "selected_locations tree ''TIMER0'' ''CC0'' =
      [\<lparr>portBankIndex = IntVal 0, pinIndex = IntVal 5\<rparr>]"
    using tree mpre spre rest by (rule timer0_selected_locations)
  {
    assume "main family [\<lparr>svd_files = [dev], pin_tool_files = [tree]\<rparr>] = (printed, Inr out)"
    from main_single_variant [OF this] obtain ps1 ps2 where
      1: "for_loop svd_register_step [] (gpio_registers dev) = Inr ps1"
      and 2: "parse_pin_tool ps1 [tree] = Inr ps2"
      and 3: "snd (write_header family ps2) = Inr out" by blast
    have absent: "map_of ([] :: peripherals) ''TIMER0'' = None" by simp
    from 1 have "for_loop svd_register_step [] (pre @ [en_reg] @ mid @ [rt_reg] @ post) = Inr ps1"
      by (simp only: regs)
    from timer0_registers [OF this absent others en_name en_off fields fpre rt_name rt_off]
    have "lookup_signal ps1 ''TIMER0'' ''CC0'' =
        Some (8, \<lparr>en = Some 0, route = Some 1, pinout = None\<rparr>)" .
    from timer0_pin_tool [OF 2 this locs]
    have "lookup_signal ps2 ''TIMER0'' ''CC0'' =
        Some (8, \<lparr>en = Some 0, route = Some 1, pinout = Some [(0, {5})]\<rparr>)" .
    from timer0_lines [OF 3 this]
    show "''#define SILABS_DBUS_TIMER0_CC0(port, pin) SILABS_DBUS(port, pin, 8, 1, 0, 1)''
        \<in> set out"
      and "''#define TIMER0_CC0_PA5 SILABS_DBUS_TIMER0_CC0(0, 5)'' \<in> set out" by simp_all
  }
  {
    assume min: "pre = [] \<and> mid = [] \<and> post = [] \<and> fpre = [] \<and> fpost = []"
    from min regs have r: "gpio_registers dev = [en_reg, rt_reg]" by simp
    from min fields have f: "reg_fields en_reg = [\<lparr>field_name = ''CC0PEN'', bit_offset = 0\<rparr>]"
      by simp
    have 1: "parse_svd [] [dev] = Inr timer_model"
      using r en_name en_off f rt_name rt_off by (rule timer0_exact_model)
    have 2: "parse_pin_tool timer_model [tree] = Inr timer_model_a"
      using locs by (rule timer0_exact_pin_tool)
    have 3: "write_header family timer_model_a =
        ([], Inr (header_lines family @
                 [[],
                  ''#define SILABS_DBUS_TIMER0_CC0(port, pin) SILABS_DBUS(port, pin, 8, 1, 0, 1)'',
                  [],
                  ''#define TIMER0_CC0_PA5 SILABS_DBUS_TIMER0_CC0(0, 5)'',
                  []]))" by code_simp
    from 1 2 3 show "main family [\<lparr>svd_files = [dev], pin_tool_files = [tree]\<rparr>] =
              ([], Inr (header_lines family @
                 [[],
                  ''#define SILABS_DBUS_TIMER0_CC0(port, pin) SILABS_DBUS(port, pin, 8, 1, 0, 1)'',
                  [],
                  ''#define TIMER0_CC0_PA5 SILABS_DBUS_TIMER0_CC0(0, 5)'',
                  []]))"
      by (simp add: main_def build_model_def variant_step_def)
  }
qed

text \<open>
  The statement applied twice: to \<open>timer_svd_busy\<close> and \<open>timer_portio_busy\<close>, where the
  definitions of \<open>TIMER0_CC0\<close> stand among those of other signals and the locations
  (1, 7), (2, 1), (3, 1) and (3, 4), which the routing document lists under other modules,
  selectors or later duplicates, are not taken; and to \<open>timer_svd\<close> and \<open>timer_portio\<close>, the
  documents with nothing else in them.
\<close>

theorem end_to_end_timer0_witness:
  "main ''xg24'' [\<lparr>svd_files = [timer_svd_busy], pin_tool_files = [timer_portio_busy]\<rparr>] =
     ([], Inr timer_header_busy) \<and>
   ''#define SILABS_DBUS_TIMER0_CC0(port, pin) SILABS_DBUS(port, pin, 8, 1, 0, 1)''
     \<in> set timer_header_busy \<and>
   ''#define TIMER0_CC0_PA5 SILABS_DBUS_TIMER0_CC0(0, 5)'' \<in> set timer_header_busy \<and>
   main ''xg24'' [\<lparr>svd_files = [timer_svd], pin_tool_files = [timer_portio]\<rparr>] =
     ([], Inr (header_lines ''xg24'' @
        [[],
         ''#define SILABS_DBUS_TIMER0_CC0(port, pin) SILABS_DBUS(port, pin, 8, 1, 0, 1)'',
         [],
         ''#define TIMER0_CC0_PA5 SILABS_DBUS_TIMER0_CC0(0, 5)'',
         []]))"
proof -
  let ?en = "\<lparr>reg_name = ''TIMER0_ROUTEEN'', address_offset = 0x20,
      reg_fields = [\<lparr>field_name = ''CC1PEN'', bit_offset = 1\<rparr>] @
        [\<lparr>field_name = ''CC0PEN'', bit_offset = 0\<rparr>] @
        [\<lparr>field_name = ''CDTI0PEN'', bit_offset = 3\<rparr>]\<rparr>"
  let ?enm = "\<lparr>reg_name = ''TIMER0_ROUTEEN'', address_offset = 0x20,
      reg_fields = [] @ [\<lparr>field_name = ''CC0PEN'', bit_offset = 0\<rparr>] @ []\<rparr>"
  let ?rt = "\<lparr>reg_name = ''TIMER0_CC0ROUTE'', address_offset = 0x24, reg_fields = []\<rparr>"
  let ?pre = "[\<lparr>reg_name = ''USART0_ROUTEEN'', address_offset = 0x1B0,
      reg_fields = [\<lparr>field_name = ''TXPEN'', bit_offset = 4\<rparr>]\<rparr>]"
  let ?mid = "[\<lparr>reg_name = ''USART0_TXROUTE'', address_offset = 0x1B8, reg_fields = []\<rparr>]"
  let ?post = "[\<lparr>reg_name = ''TIMER0_CC1ROUTE'', address_offset = 0x28, reg_fields = []\<rparr>,
      \<lparr>reg_name = ''TIMER0_CDTI0ROUTE'', address_offset = 0x30, reg_fields = []\<rparr>]"
  let ?fpre = "[\<lparr>field_name = ''CC1PEN'', bit_offset = 1\<rparr>]"
  let ?mpre = "[\<lparr>mod_name = ''USART0'',
       selectors =
         [\<lparr>selector_name = ''USART0_TX'',
           routes =
             [\<lparr>route_name = ''TX'',
               locations = [\<lparr>portBankIndex = IntVal 1, pinIndex = IntVal 2\<rparr>]\<rparr>]\<rparr>,
          \<lparr>selector_name = ''TIMER0_CC0'',
           routes =
             [\<lparr>route_name = ''CC0'',
               locations = [\<lparr>portBankIndex = IntVal 1, pinIndex = IntVal 7\<rparr>]\<rparr>]\<rparr>]\<rparr>]"
  let ?spre = "[\<lparr>selector_name = ''TIMER0_CC1'',
           routes =
             [\<lparr>route_name = ''CC0'',
               locations = [\<lparr>portBankIndex = IntVal 2, pinIndex = IntVal 1\<rparr>]\<rparr>,
              \<lparr>route_name = ''CC1'',
               locations = [\<lparr>portBankIndex = IntVal 0, pinIndex = IntVal 6\<rparr>]\<rparr>]\<rparr>]"
  let ?rpre = "[\<lparr>route_name = ''CC1'',
               locations = [\<lparr>portBankIndex = IntVal 2, pinIndex = IntVal 2\<rparr>]\<rparr>]"
  let ?rpost = "[\<lparr>route_name = ''CDTI0'',
               locations = [\<lparr>portBankIndex = IntVal 2, pinIndex = IntVal 3\<rparr>]\<rparr>]"
  let ?spost = "[\<lparr>selector_name = ''TIMER0_CC0'',
           routes =
             [\<lparr>route_name = ''CC0'',
               locations = [\<lparr>portBankIndex = IntVal 3, pinIndex = IntVal 1\<rparr>]\<rparr>]\<rparr>]"
  let ?mpost = "[\<lparr>mod_name = ''TIMER0'',
       selectors =
         [\<lparr>selector_name = ''TIMER0_CC0'',
           routes =
             [\<lparr>route_name = ''CC0'',
               locations = [\<lparr>portBankIndex = IntVal 3, pinIndex = IntVal 4\<rparr>]\<rparr>]\<rparr>]\<rparr>]"
  have regs: "gpio_registers timer_svd_busy = ?pre @ [?en] @ ?mid @ [?rt] @ ?post"
    by code_simp
  have others: "\<forall>r \<in> set (?pre @ ?mid). register_peripheral r \<noteq> Some ''TIMER0''"
    by code_simp
  have fpre: "\<forall>f \<in> set ?fpre. field_name f \<noteq> ''CC0PEN''" by simp
  have tree: "timer_portio_busy = ?mpre @
        [\<lparr>mod_name = ''TIMER0'',
          selectors = ?spre @
            [\<lparr>selector_name = ''TIMER0_CC0'',
              routes = ?rpre @
                [\<lparr>route_name = ''CC0'',
                  locations = [\<lparr>portBankIndex = IntVal 0, pinIndex = IntVal 5\<rparr>]\<rparr>] @ ?rpost\<rparr>]
            @ ?spost\<rparr>]
        @ ?mpost"
    by (simp add: timer_portio_busy_def)
  have mpre: "\<forall>m \<in> set ?mpre. mod_name m \<noteq> ''TIMER0''" by simp
  have spre: "\<forall>s \<in> set ?spre. selector_name s \<noteq> ''TIMER0_CC0''" by simp
  have rest: "\<forall>r \<in> set (?rpre @ ?rpost). route_name r \<noteq> ''CC0''" by simp
  have run: "main ''xg24'' [\<lparr>svd_files = [timer_svd_busy], pin_tool_files = [timer_portio_busy]\<rparr>] =
     ([], Inr timer_header_busy)" by code_simp
  have busy: "''#define SILABS_DBUS_TIMER0_CC0(port, pin) SILABS_DBUS(port, pin, 8, 1, 0, 1)''
      \<in> set timer_header_busy \<and>
    ''#define TIMER0_CC0_PA5 SILABS_DBUS_TIMER0_CC0(0, 5)'' \<in> set timer_header_busy"
    using end_to_end_timer0 [where en_reg = "?en" and rt_reg = "?rt" and fpre = "?fpre",
        OF regs others _ _ _ fpre _ _ tree mpre spre rest,
        where family = "''xg24''" and printed = "[]" and out = timer_header_busy]
      run by simp
  have regs0: "gpio_registers timer_svd = [] @ [?enm] @ [] @ [?rt] @ []"
    by code_simp
  have tree0: "timer_portio = [] @
        [\<lparr>mod_name = ''TIMER0'',
          selectors = [] @
            [\<lparr>selector_name = ''TIMER0_CC0'',
              routes = [] @
                [\<lparr>route_name = ''CC0'',
                  locations = [\<lparr>portBankIndex = IntVal 0, pinIndex = IntVal 5\<rparr>]\<rparr>] @ []\<rparr>]
            @ []\<rparr>]
        @ []"
    by (simp add: timer_portio_def)
  have small: "main ''xg24'' [\<lparr>svd_files = [timer_svd], pin_tool_files = [timer_portio]\<rparr>] =
     ([], Inr (header_lines ''xg24'' @
        [[],
         ''#define SILABS_DBUS_TIMER0_CC0(port, pin) SILABS_DBUS(port, pin, 8, 1, 0, 1)'',
         [],
         ''#define TIMER0_CC0_PA5 SILABS_DBUS_TIMER0_CC0(0, 5)'',
         []]))"
    using end_to_end_timer0 [where en_reg = "?enm" and rt_reg = "?rt"
        and pre = "[]" and mid = "[]" and post = "[]" and fpre = "[]" and fpost = "[]"
        and mpre = "[]" and spre = "[]" and rpre = "[]" and rpost = "[]" and spost = "[]"
        and mpost = "[]" and dev = timer_svd and tree = timer_portio and family = "''xg24''"]
      regs0 tree0 by simp
  from run busy small show ?thesis by simp
qed

text \<open>
  Claim C2 as stated fails: it asks only that the register document holds the two
  registers. With \<open>TIMER0_CC0ROUTE\<close> listed before \<open>TIMER0_ROUTEEN\<close>, the route register is
  the first to name \<open>TIMER0\<close>, so the base is its own word offset 9 (lines 180 and 181) and
  the route offset is 0; the enable register then leaves the base as it is (line 159).
  The parameterized definition has \<open>(9, 1, 0, 0)\<close> where the claim has \<open>(8, 1, 0, 1)\<close>.
\<close>

theorem end_to_end_timer0_counterexample:
  "main ''xg24'' [\<lparr>svd_files = [timer_svd_swapped], pin_tool_files = [timer_portio]\<rparr>] =
     ([], Inr (header_lines ''xg24'' @
        [[],
         ''#define SILABS_DBUS_TIMER0_CC0(port, pin) SILABS_DBUS(port, pin, 9, 1, 0, 0)'',
         [],
         ''#define TIMER0_CC0_PA5 SILABS_DBUS_TIMER0_CC0(0, 5)'',
         []])) \<and>
   parse_svd [] [timer_svd_swapped] =
     Inr [(''TIMER0'', \<lparr>base = 9, signals =
            [(''CC0'', \<lparr>en = Some 0, route = Some 0, pinout = None\<rparr>)]\<rparr>)]"
  by code_simp

text \<open>
  Claim C1 at the input where the code departs from it: \<open>TIMER0_ROUTEEN\<close> with the field
  \<open>CC0PEN\<close>, no \<open>TIMER0_CC0ROUTE\<close> register, and a routing document with the location (0, 5).
  The signal has no route offset; the program prints one warning and writes no
  parameterized definition, yet it writes the definition \<open>TIMER0_CC0_PA5\<close>, which calls
  the parameterized definition that is missing. For every model, what \<open>write_header\<close>
  prints is one warning for each signal without a route offset (\<open>route_warnings\<close>).
\<close>

theorem missing_route_pins_still_defined:
  "main family [\<lparr>svd_files = [enable_only_svd], pin_tool_files = [timer_portio]\<rparr>] =
     ([''WARN: No route register for TIMER0_CC0''],
      Inr (header_lines family @
        [[],
         [],
         ''#define TIMER0_CC0_PA5 SILABS_DBUS_TIMER0_CC0(0, 5)'',
         []])) \<and>
   build_model [\<lparr>svd_files = [enable_only_svd], pin_tool_files = [timer_portio]\<rparr>] =
     Inr [(''TIMER0'', \<lparr>base = 8, signals =
            [(''CC0'', \<lparr>en = Some 0, route = None, pinout = Some [(0, {5})]\<rparr>)]\<rparr>)] \<and>
   fst (write_header family' ps) = route_warnings ps"
proof (intro conjI)
  show "fst (write_header family' ps) = route_warnings ps"
    by (rule write_header_printed)
qed code_simp+

lemma parse_svd_added_signal:
  assumes "parse_svd ps devs = Inr ps'" and "map_of ps' p = Some per"
    and "map_of (signals per) sg = Some d" and "\<not> has_signal ps p sg"
  shows "pinout d = None"
  using parse_svd_bare [OF assms(1)] assms(2-4) unfolding added_bare_def by blast

text \<open>
  Claim C10. \<open>write_header\<close> returns only if every signal of the model has the key
  \<open>pinout\<close>. \<open>parse_pin_tool\<close> leaves the key on every signal of the model when it reads at
  least one routing document. A signal that \<open>parse_svd\<close> adds has no pinout, so a signal
  added after the last routing document, or a model built without any routing document,
  makes \<open>write_header\<close> end with \<open>KeyError\<close> (when no \<open>chr\<close> raised before it: every port of
  the model is in the range of \<open>chr_ok\<close>).
\<close>

theorem pinout_key_required:
  "(snd (write_header family ps) = Inr out \<longrightarrow>
      (\<forall>(p, per) \<in> set ps. \<forall>(sg, d) \<in> set (signals per). pinout d \<noteq> None)) \<and>
   (parse_pin_tool ps1 trees = Inr ps2 \<and> trees \<noteq> [] \<longrightarrow>
      (\<forall>(p, per) \<in> set ps2. \<forall>(sg, d) \<in> set (signals per). pinout d \<noteq> None)) \<and>
   (parse_svd ps3 devs = Inr ps4 \<and> map_of ps4 p4 = Some per4 \<and>
      map_of (signals per4) sg4 = Some d4 \<and> \<not> has_signal ps3 p4 sg4 \<longrightarrow> pinout d4 = None) \<and>
   ((\<exists>(p, per) \<in> set ps5. \<exists>(sg, d) \<in> set (signals per). pinout d = None) \<and>
    (\<forall>(p, per) \<in> set ps5. \<forall>(sg, d) \<in> set (signals per). \<forall>po. pinout d = Some po \<longrightarrow>
       (\<forall>(port, pins) \<in> set po. chr_ok port)) \<longrightarrow>
      snd (write_header family5 ps5) = Inl KeyError)"
proof (intro conjI impI)
  assume "snd (write_header family ps) = Inr out"
  from write_header_Inr [OF this]
  show "\<forall>(p, per) \<in> set ps. \<forall>(sg, d) \<in> set (signals per). pinout d \<noteq> None" by simp
next
  assume "parse_pin_tool ps1 trees = Inr ps2 \<and> trees \<noteq> []"
  then show "\<forall>(p, per) \<in> set ps2. \<forall>(sg, d) \<in> set (signals per). pinout d \<noteq> None"
    using parse_pin_tool_pinouts [of ps1 trees ps2] by simp
next
  assume "parse_svd ps3 devs = Inr ps4 \<and> map_of ps4 p4 = Some per4 \<and>
      map_of (signals per4) sg4 = Some d4 \<and> \<not> has_signal ps3 p4 sg4"
  then show "pinout d4 = None"
    using parse_svd_added_signal [of ps3 devs ps4 p4 per4 sg4 d4] by simp
next
  assume "(\<exists>(p, per) \<in> set ps5. \<exists>(sg, d) \<in> set (signals per). pinout d = None) \<and>
    (\<forall>(p, per) \<in> set ps5. \<forall>(sg, d) \<in> set (signals per). \<forall>po. pinout d = Some po \<longrightarrow>
       (\<forall>(port, pins) \<in> set po. chr_ok port))"
  then show "snd (write_header family5 ps5) = Inl KeyError"
    using write_header_KeyError [of ps5 family5] by simp
qed

theorem pinout_key_required_witness:
  "write_header ''xg24'' timer_model_a =
     ([], Inr (header_lines ''xg24'' @
        [[],
         ''#define SILABS_DBUS_TIMER0_CC0(port, pin) SILABS_DBUS(port, pin, 8, 1, 0, 1)'',
         [],
         ''#define TIMER0_CC0_PA5 SILABS_DBUS_TIMER0_CC0(0, 5)'',
         []])) \<and>
   list_all (\<lambda>(p, per). list_all (\<lambda>(sg, d). pinout d \<noteq> None) (signals per)) timer_model_a \<and>
   parse_pin_tool timer_model [timer_portio] = Inr timer_model_a \<and>
   parse_svd timer_model_a [usart_svd] = Inr timer_usart_model \<and>
   \<not> has_signal timer_model_a ''USART0'' ''TX'' \<and>
   map_of timer_usart_model ''USART0'' =
     Some \<lparr>base = 12, signals = [(''TX'', \<lparr>en = Some 1, route = Some 2, pinout = None\<rparr>)]\<rparr> \<and>
   pinout \<lparr>en = Some 1, route = Some 2, pinout = None\<rparr> = None \<and>
   snd (write_header ''xg24'' timer_usart_model) = Inl KeyError \<and>
   main ''xg24''
     [\<lparr>svd_files = [timer_svd], pin_tool_files = [timer_portio]\<rparr>,
      \<lparr>svd_files = [usart_svd], pin_tool_files = []\<rparr>] = ([], Inl KeyError) \<and>
   main ''xg24'' [\<lparr>svd_files = [timer_svd], pin_tool_files = []\<rparr>] = ([], Inl KeyError)"
proof -
  let ?out = "header_lines ''xg24'' @
        [[],
         ''#define SILABS_DBUS_TIMER0_CC0(port, pin) SILABS_DBUS(port, pin, 8, 1, 0, 1)'',
         [],
         ''#define TIMER0_CC0_PA5 SILABS_DBUS_TIMER0_CC0(0, 5)'',
         []]"
  let ?tx = "\<lparr>en = Some 1, route = Some 2, pinout = None\<rparr>"
  let ?usart = "\<lparr>base = 12, signals = [(''TX'', ?tx)]\<rparr>"
  have 1: "write_header ''xg24'' timer_model_a = ([], Inr ?out)" by code_simp
  have 2: "parse_pin_tool timer_model [timer_portio] = Inr timer_model_a" by code_simp
  have 3: "parse_svd timer_model_a [usart_svd] = Inr timer_usart_model" by code_simp
  have 4: "\<not> has_signal timer_model_a ''USART0'' ''TX''" by code_simp
  have 5: "map_of timer_usart_model ''USART0'' = Some ?usart" by code_simp
  have 6: "map_of (signals ?usart) ''TX'' = Some ?tx" by simp
  have 7: "\<exists>(p, per) \<in> set timer_usart_model. \<exists>(sg, d) \<in> set (signals per). pinout d = None"
    by (simp add: timer_usart_model_def)
  have 8: "\<forall>(p, per) \<in> set timer_usart_model. \<forall>(sg, d) \<in> set (signals per).
      \<forall>po. pinout d = Some po \<longrightarrow> (\<forall>(port, pins) \<in> set po. chr_ok port)"
    by (simp add: timer_usart_model_def chr_ok_def)
  have 9: "main ''xg24''
     [\<lparr>svd_files = [timer_svd], pin_tool_files = [timer_portio]\<rparr>,
      \<lparr>svd_files = [usart_svd], pin_tool_files = []\<rparr>] = ([], Inl KeyError)" by code_simp
  have 10: "main ''xg24'' [\<lparr>svd_files = [timer_svd], pin_tool_files = []\<rparr>] = ([], Inl KeyError)"
    by code_simp
  have 11: "[timer_portio] \<noteq> []" by simp
  note t = pinout_key_required [of "''xg24''" timer_model_a "?out" timer_model "[timer_portio]"
      timer_model_a timer_model_a "[usart_svd]" timer_usart_model "''USART0''" "?usart" "''TX''"
      "?tx" timer_usart_model "''xg24''"]
  from t 1 have a: "\<forall>(p, per) \<in> set timer_model_a. \<forall>(sg, d) \<in> set (signals per). pinout d \<noteq> None"
    by simp
  from t 2 11 have "\<forall>(p, per) \<in> set timer_model_a. \<forall>(sg, d) \<in> set (signals per). pinout d \<noteq> None"
    by blast
  with a have 12: "list_all (\<lambda>(p, per). list_all (\<lambda>(sg, d). pinout d \<noteq> None) (signals per))
      timer_model_a"
    by (auto simp: list_all_iff)
  from t 3 4 5 6 have 13: "pinout ?tx = None" by blast
  from t 7 8 have 14: "snd (write_header ''xg24'' timer_usart_model) = Inl KeyError" by blast
  from 1 2 3 4 5 9 10 12 13 14 show ?thesis by blast
qed

end
